theory Spec2Isabelle
  imports Main
begin

section \<open>The session engine of the chess backend (services/gameStore)\<close>

text \<open>
  A shallow embedding of the class \<open>GameStore\<close>. Every method that mutates a game
  object in place is a function that takes the game (or the whole store) and returns the
  updated one together with what the method returns. The sources of nondeterminism are
  parameters: \<open>Date.now()\<close> is the argument \<open>now\<close> (an integer number of milliseconds,
  on which \<open>Math.floor\<close> is the identity), \<open>new Date().toISOString()\<close> is the argument
  \<open>stamp\<close>, and each \<open>randomId()\<close> is an identifier handed in by the caller. The debounced
  \<open>_scheduleSave\<close> only arms a timer and does not touch a game, so it has no counterpart.
\<close>

subsection \<open>Data model\<close>

datatype color = W | B

datatype gstate = Waiting | Active | Finished

fun state_name :: "gstate \<Rightarrow> string" where
  "state_name Waiting = ''waiting''"
| "state_name Active = ''active''"
| "state_name Finished = ''finished''"

text \<open>A move record \<open>{from, to, promotion}\<close>; an absent promotion is \<open>None\<close>.\<close>

record move =
  m_from :: string
  m_to :: string
  m_promotion :: "string option"

text \<open>A player slot \<open>{id, name, present}\<close>; \<open>null\<close> is \<open>None\<close>.\<close>

record player =
  p_id :: "string option"
  p_name :: "string option"
  present :: bool

record players =
  w_player :: player
  b_player :: player

record clocks =
  initialMs :: int
  incrementMs :: int
  wRemainingMs :: int
  bRemainingMs :: int
  activeColor :: "color option"
  running :: bool
  lastTickAt :: "int option"

record status =
  state :: gstate
  winner :: "color option"
  reason :: "string option"

text \<open>
  The game object. \<open>chess\<close> is the live object of the rules library; \<open>spectators\<close> is the
  \<open>Map\<close> from spectator id to name, in insertion order.
\<close>

record 'p game =
  g_id :: string
  createdAt :: string
  updatedAt :: string
  initialFen :: string
  moves :: "move list"
  moveCursor :: int
  chess :: 'p
  players :: players
  spectators :: "(string \<times> string option) list"
  clocks :: clocks
  status :: status

text \<open>
  The rules library (chess.js) is external. The store uses it through the surface below:
  the two constructors, \<open>fen\<close>, \<open>turn\<close>, \<open>move\<close> (which answers \<open>null\<close>, here \<open>None\<close>,
  for an illegal move and then leaves the position as it was), and the methods that
  \<open>chessSupports\<close> probes for under their modern or legacy name: such a method is
  \<open>None\<close> when the library has neither name.
\<close>

record 'p chess_lib =
  chess_new :: 'p
  chess_load :: "string \<Rightarrow> 'p"
  chess_fen :: "'p \<Rightarrow> string"
  chess_turn :: "'p \<Rightarrow> color"
  chess_move :: "'p \<Rightarrow> move \<Rightarrow> ('p \<times> move) option"
  chess_pgn :: "('p \<Rightarrow> string) option"
  chess_history :: "('p \<Rightarrow> move list) option"
  supports_isCheck :: "('p \<Rightarrow> bool) option"
  supports_isCheckmate :: "('p \<Rightarrow> bool) option"
  supports_isStalemate :: "('p \<Rightarrow> bool) option"
  supports_isDraw :: "('p \<Rightarrow> bool) option"
  supports_isThreefoldRepetition :: "('p \<Rightarrow> bool) option"
  supports_isInsufficientMaterial :: "('p \<Rightarrow> bool) option"
  supports_isGameOver :: "('p \<Rightarrow> bool) option"

text \<open>
  A \<open>playerId\<close> as a caller sends it: left out, \<open>null\<close>, or a string. The strict
  equality \<open>playerId === slot.id\<close> compares it with a slot id that is \<open>null\<close> or a string.
\<close>

datatype js_id = Undefined | Null | Str string

fun truthy_id :: "js_id \<Rightarrow> bool" where
  "truthy_id (Str s) = (s \<noteq> [])"
| "truthy_id _ = False"

fun strict_eq :: "js_id \<Rightarrow> string option \<Rightarrow> bool" where
  "strict_eq (Str s) (Some t) = (s = t)"
| "strict_eq Null None = True"
| "strict_eq _ _ = False"

text \<open>\<open>Boolean(x)\<close> and \<open>x || null\<close> for a value that is \<open>null\<close> or a string.\<close>

fun truthy :: "string option \<Rightarrow> bool" where
  "truthy (Some s) = (s \<noteq> [])"
| "truthy None = False"

definition or_null :: "string option \<Rightarrow> string option" where
  "or_null x = (if truthy x then x else None)"

text \<open>Failures are the objects \<open>{error, statusCode}\<close> the methods return.\<close>

record failure =
  error :: string
  statusCode :: nat

datatype error_kind = NotFound | ValidationError | Forbidden | Conflict | Other

definition kind_of :: "failure \<Rightarrow> error_kind" where
  "kind_of f =
     (if statusCode f = 404 then NotFound
      else if statusCode f = 400 then ValidationError
      else if statusCode f = 403 then Forbidden
      else if statusCode f = 409 then Conflict
      else Other)"

subsection \<open>Helpers\<close>

definition normalizeColor :: "string option \<Rightarrow> color option" where
  "normalizeColor c =
     (if c = Some ''w'' then Some W else if c = Some ''b'' then Some B else None)"

text \<open>\<open>toLowerCase\<close> on the ASCII letters, which is all the test below can tell apart.\<close>

definition toLowerCase_char :: "char \<Rightarrow> char" where
  "toLowerCase_char c =
     (case map_of (zip ''ABCDEFGHIJKLMNOPQRSTUVWXYZ'' ''abcdefghijklmnopqrstuvwxyz'') c of
        Some d \<Rightarrow> d
      | None \<Rightarrow> c)"

definition safePromotion :: "string option \<Rightarrow> string option" where
  "safePromotion p =
     (case p of
        None \<Rightarrow> None
      | Some s \<Rightarrow>
          if s = [] then None
          else (let promo = map toLowerCase_char s
                in if promo \<in> set [''q'', ''r'', ''b'', ''n''] then Some promo else None))"

definition isCheck :: "'p chess_lib \<Rightarrow> 'p \<Rightarrow> bool" where
  "isCheck L c = (case supports_isCheck L of Some fn \<Rightarrow> fn c | None \<Rightarrow> False)"

definition isCheckmate :: "'p chess_lib \<Rightarrow> 'p \<Rightarrow> bool" where
  "isCheckmate L c = (case supports_isCheckmate L of Some fn \<Rightarrow> fn c | None \<Rightarrow> False)"

definition isStalemate :: "'p chess_lib \<Rightarrow> 'p \<Rightarrow> bool" where
  "isStalemate L c = (case supports_isStalemate L of Some fn \<Rightarrow> fn c | None \<Rightarrow> False)"

definition isDraw :: "'p chess_lib \<Rightarrow> 'p \<Rightarrow> bool" where
  "isDraw L c = (case supports_isDraw L of Some fn \<Rightarrow> fn c | None \<Rightarrow> False)"

definition isThreefoldRepetition :: "'p chess_lib \<Rightarrow> 'p \<Rightarrow> bool" where
  "isThreefoldRepetition L c =
     (case supports_isThreefoldRepetition L of Some fn \<Rightarrow> fn c | None \<Rightarrow> False)"

definition isInsufficientMaterial :: "'p chess_lib \<Rightarrow> 'p \<Rightarrow> bool" where
  "isInsufficientMaterial L c =
     (case supports_isInsufficientMaterial L of Some fn \<Rightarrow> fn c | None \<Rightarrow> False)"

definition isGameOver :: "'p chess_lib \<Rightarrow> 'p \<Rightarrow> bool" where
  "isGameOver L c = (case supports_isGameOver L of Some fn \<Rightarrow> fn c | None \<Rightarrow> False)"

fun opponent :: "color \<Rightarrow> color" where
  "opponent W = B"
| "opponent B = W"

record term_result =
  t_winner :: "color option"
  t_reason :: string

definition computeTermination :: "'p chess_lib \<Rightarrow> 'p \<Rightarrow> term_result option" where
  "computeTermination L c =
     (if \<not> isGameOver L c then None
      else if isCheckmate L c then
        Some \<lparr>t_winner = Some (if chess_turn L c = W then B else W), t_reason = ''checkmate''\<rparr>
      else if isStalemate L c then Some \<lparr>t_winner = None, t_reason = ''stalemate''\<rparr>
      else if isThreefoldRepetition L c then Some \<lparr>t_winner = None, t_reason = ''threefold''\<rparr>
      else if isInsufficientMaterial L c then
        Some \<lparr>t_winner = None, t_reason = ''insufficient_material''\<rparr>
      else if isDraw L c then Some \<lparr>t_winner = None, t_reason = ''draw''\<rparr>
      else Some \<lparr>t_winner = None, t_reason = ''game_over''\<rparr>)"

subsection \<open>The store: a \<open>Map\<close> in insertion order\<close>

fun map_set :: "('k \<times> 'v) list \<Rightarrow> 'k \<Rightarrow> 'v \<Rightarrow> ('k \<times> 'v) list" where
  "map_set [] k v = [(k, v)]"
| "map_set ((k', v') # kvs) k v =
     (if k' = k then (k, v) # kvs else (k', v') # map_set kvs k v)"

definition map_delete :: "('k \<times> 'v) list \<Rightarrow> 'k \<Rightarrow> ('k \<times> 'v) list" where
  "map_delete kvs k = filter (\<lambda>kv. fst kv \<noteq> k) kvs"

type_synonym 'p store = "(string \<times> 'p game) list"

subsection \<open>Clock engine and public state\<close>

record clock_view =
  cv_initialMs :: int
  cv_incrementMs :: int
  cv_wRemainingMs :: int
  cv_bRemainingMs :: int
  cv_activeColor :: "color option"
  cv_running :: bool

text \<open>
  \<open>_effectiveClocksSnapshot\<close>: the elapsed time is taken off the active colour only while
  the clock runs and \<open>lastTickAt\<close> is a number; both values are clamped at zero.
\<close>

definition effectiveClocksSnapshot :: "'p game \<Rightarrow> int \<Rightarrow> clock_view" where
  "effectiveClocksSnapshot g atMs =
     (let c = clocks g;
          elapsed = (case lastTickAt c of
                       Some t \<Rightarrow>
                         if running c \<and> activeColor c \<noteq> None then max 0 (atMs - t) else 0
                     | None \<Rightarrow> 0);
          wRemaining = (if activeColor c = Some W then wRemainingMs c - elapsed
                        else wRemainingMs c);
          bRemaining = (if activeColor c = Some B then bRemainingMs c - elapsed
                        else bRemainingMs c)
      in \<lparr>cv_initialMs = initialMs c,
          cv_incrementMs = incrementMs c,
          cv_wRemainingMs = max 0 wRemaining,
          cv_bRemainingMs = max 0 bRemaining,
          cv_activeColor = activeColor c,
          cv_running = running c\<rparr>)"

record public_player =
  pp_name :: "string option"
  pp_color :: color
  pp_present :: bool

record public_status =
  ps_state :: gstate
  ps_winner :: "color option"
  ps_reason :: "string option"
  ps_isCheck :: bool

record public_state =
  pub_gameId :: string
  pub_fen :: string
  pub_pgn :: string
  pub_turn :: color
  pub_moveCursor :: int
  pub_history :: "move list"
  pub_status :: public_status
  pub_players :: "public_player \<times> public_player"
  pub_clocks :: clock_view
  pub_createdAt :: string
  pub_updatedAt :: string

definition publicPlayers :: "'p game \<Rightarrow> public_player \<times> public_player" where
  "publicPlayers g =
     (\<lparr>pp_name = p_name (w_player (players g)), pp_color = W,
        pp_present = present (w_player (players g))\<rparr>,
      \<lparr>pp_name = p_name (b_player (players g)), pp_color = B,
        pp_present = present (b_player (players g))\<rparr>)"

definition publicState :: "'p chess_lib \<Rightarrow> 'p game \<Rightarrow> int \<Rightarrow> public_state" where
  "publicState L g atMs =
     (let c = chess g;
          st = (case computeTermination L c of
                  Some t \<Rightarrow>
                    \<lparr>ps_state = Finished, ps_winner = t_winner t,
                     ps_reason = Some (t_reason t), ps_isCheck = isCheck L c\<rparr>
                | None \<Rightarrow>
                    \<lparr>ps_state = state (status g), ps_winner = winner (status g),
                     ps_reason = reason (status g), ps_isCheck = isCheck L c\<rparr>)
      in \<lparr>pub_gameId = g_id g,
          pub_fen = chess_fen L c,
          pub_pgn = (case chess_pgn L of Some fn \<Rightarrow> fn c | None \<Rightarrow> []),
          pub_turn = chess_turn L c,
          pub_moveCursor = moveCursor g,
          pub_history = (case chess_history L of Some fn \<Rightarrow> fn c | None \<Rightarrow> []),
          pub_status = st,
          pub_players = publicPlayers g,
          pub_clocks = effectiveClocksSnapshot g atMs,
          pub_createdAt = createdAt g,
          pub_updatedAt = updatedAt g\<rparr>)"

subsection \<open>History replay\<close>

text \<open>
  One step of the replay loop: \<open>chess.move\<close> is called and its answer dropped, so a move
  the library refuses leaves the position where it was.
\<close>

definition replay_move :: "'p chess_lib \<Rightarrow> 'p \<Rightarrow> move \<Rightarrow> 'p" where
  "replay_move L c m = (case chess_move L c m of Some (c', _) \<Rightarrow> c' | None \<Rightarrow> c)"

text \<open>
  The loop \<open>for (i = 0; i < moveCursor; i += 1)\<close> of \<open>_rebuildChess\<close> and of
  \<open>_deserializeGame\<close>, from index \<open>i\<close> on. Reading \<open>m.from\<close> of a missing element
  \<open>moves[i]\<close> raises a TypeError: that is the answer \<open>None\<close>.
\<close>

function replay_from :: "'p chess_lib \<Rightarrow> move list \<Rightarrow> int \<Rightarrow> nat \<Rightarrow> 'p \<Rightarrow> 'p option" where
  "replay_from L ms cursor i c =
     (if int i < cursor then
        (if i < length ms then replay_from L ms cursor (Suc i) (replay_move L c (ms ! i))
         else None)
      else Some c)"
  by pat_completeness auto
termination
  by (relation "measure (\<lambda>(L, ms, cursor, i, c). nat cursor - i)") auto

declare replay_from.simps [simp del]

definition rebuildChess :: "'p chess_lib \<Rightarrow> 'p game \<Rightarrow> 'p game option" where
  "rebuildChess L g =
     (case replay_from L (moves g) (moveCursor g) 0 (chess_load L (initialFen g)) of
        Some c \<Rightarrow> Some (g\<lparr>chess := c\<rparr>)
      | None \<Rightarrow> None)"

subsection \<open>Session registry\<close>

text \<open>
  What a method gives back: the value it returns, the failure object it returns, or an
  exception that escapes it.
\<close>

datatype 'a outcome = Returned 'a | Rejected failure | Thrown

definition maybeStartGame :: "'p chess_lib \<Rightarrow> 'p game \<Rightarrow> int \<Rightarrow> 'p game" where
  "maybeStartGame L g now =
     (if state (status g) = Finished then g
      else
        (let hasW = truthy (p_id (w_player (players g)));
             hasB = truthy (p_id (b_player (players g)))
         in if hasW \<and> hasB then
              (let g1 = g\<lparr>status := (status g)\<lparr>state := Active\<rparr>\<rparr>
               in if \<not> running (clocks g1) then
                    g1\<lparr>clocks := (clocks g1)\<lparr>running := True,
                                            activeColor := Some (chess_turn L (chess g1)),
                                            lastTickAt := Some now\<rparr>\<rparr>
                  else g1)
            else
              (let g1 = g\<lparr>status := (status g)\<lparr>state := Waiting\<rparr>\<rparr>
               in if running (clocks g1) then
                    (let snap = effectiveClocksSnapshot g1 now
                     in g1\<lparr>clocks := (clocks g1)\<lparr>wRemainingMs := cv_wRemainingMs snap,
                                               bRemainingMs := cv_bRemainingMs snap,
                                               running := False,
                                               activeColor := None,
                                               lastTickAt := None\<rparr>\<rparr>)
                  else g1)))"

record timeControl =
  tc_initialMs :: "int option"
  tc_incrementMs :: "int option"

definition createNewGame ::
  "'p chess_lib \<Rightarrow> string option \<Rightarrow> string option \<Rightarrow> timeControl option \<Rightarrow>
     string \<Rightarrow> string \<Rightarrow> string \<Rightarrow> 'p game \<times> string \<times> color" where
  "createNewGame L creatorName creatorColor tc gameId creatorPlayerId stamp =
     (let col = (case normalizeColor creatorColor of Some c \<Rightarrow> c | None \<Rightarrow> W);
          initial = max 0 (case Option.bind tc tc_initialMs of Some n \<Rightarrow> n | None \<Rightarrow> 300000);
          increment = max 0 (case Option.bind tc tc_incrementMs of Some n \<Rightarrow> n | None \<Rightarrow> 2000);
          c = chess_new L;
          seated = \<lparr>p_id = Some creatorPlayerId, p_name = or_null creatorName, present = True\<rparr>;
          unseated = \<lparr>p_id = None, p_name = None, present = False\<rparr>
      in (\<lparr>g_id = gameId,
           createdAt = stamp,
           updatedAt = stamp,
           initialFen = chess_fen L c,
           moves = [],
           moveCursor = 0,
           chess = c,
           players = (if col = W then \<lparr>w_player = seated, b_player = unseated\<rparr>
                      else \<lparr>w_player = unseated, b_player = seated\<rparr>),
           spectators = [],
           clocks = \<lparr>initialMs = initial, incrementMs = increment,
                      wRemainingMs = initial, bRemainingMs = initial,
                      activeColor = None, running = False, lastTickAt = None\<rparr>,
           status = \<lparr>state = Waiting, winner = None, reason = None\<rparr>\<rparr>,
          creatorPlayerId, col))"

record create_result =
  cr_gameId :: string
  cr_playerId :: string
  cr_color :: color
  cr_state :: public_state

definition createGame ::
  "'p chess_lib \<Rightarrow> 'p store \<Rightarrow> string option \<Rightarrow> string option \<Rightarrow> timeControl option \<Rightarrow>
     string \<Rightarrow> string \<Rightarrow> string \<Rightarrow> int \<Rightarrow> 'p store \<times> create_result" where
  "createGame L S creatorName creatorColor tc gameId creatorPlayerId stamp now =
     (case createNewGame L creatorName creatorColor tc gameId creatorPlayerId stamp of
        (g0, pid, col) \<Rightarrow>
          (let g = maybeStartGame L g0 now
           in (map_set S (g_id g) g,
               \<lparr>cr_gameId = g_id g, cr_playerId = pid, cr_color = col,
                cr_state = publicState L g now\<rparr>)))"

definition getGameState :: "'p chess_lib \<Rightarrow> 'p store \<Rightarrow> string \<Rightarrow> int \<Rightarrow> public_state option" where
  "getGameState L S gameId now =
     (case map_of S gameId of None \<Rightarrow> None | Some g \<Rightarrow> Some (publicState L g now))"

definition get_player :: "'p game \<Rightarrow> color \<Rightarrow> player" where
  "get_player g c = (if c = W then w_player (players g) else b_player (players g))"

definition set_player :: "'p game \<Rightarrow> color \<Rightarrow> player \<Rightarrow> 'p game" where
  "set_player g c p =
     (if c = W then g\<lparr>players := (players g)\<lparr>w_player := p\<rparr>\<rparr>
      else g\<lparr>players := (players g)\<lparr>b_player := p\<rparr>\<rparr>)"

datatype role = PlayerRole | SpectatorRole

record join_result =
  jr_gameId :: string
  jr_playerId :: string
  jr_color :: "color option"
  jr_role :: role
  jr_state :: public_state

definition not_found :: failure where
  "not_found = \<lparr>error = ''Game not found'', statusCode = 404\<rparr>"

text \<open>The body of \<open>joinGame\<close> once the game is found; \<open>newId\<close> is the one \<open>randomId()\<close>.\<close>

definition joinGame_on ::
  "'p chess_lib \<Rightarrow> 'p game \<Rightarrow> string \<Rightarrow> string option \<Rightarrow> js_id \<Rightarrow> string option \<Rightarrow>
     string \<Rightarrow> string \<Rightarrow> int \<Rightarrow> 'p game \<times> join_result" where
  "joinGame_on L g gameId name playerId requestedColor newId stamp now =
     (if truthy_id playerId \<and>
         (strict_eq playerId (p_id (w_player (players g))) \<or>
          strict_eq playerId (p_id (b_player (players g)))) then
        (let col = (if strict_eq playerId (p_id (w_player (players g))) then W else B);
             p = get_player g col;
             p1 = p\<lparr>present := True\<rparr>;
             p2 = (if truthy name then p1\<lparr>p_name := name\<rparr> else p1);
             g1 = maybeStartGame L ((set_player g col p2)\<lparr>updatedAt := stamp\<rparr>) now
         in (g1, \<lparr>jr_gameId = gameId,
                  jr_playerId = (case playerId of Str s \<Rightarrow> s | _ \<Rightarrow> []),
                  jr_color = Some col, jr_role = PlayerRole,
                  jr_state = publicState L g1 now\<rparr>))
      else
        (let desired = normalizeColor requestedColor;
             slotAvailable = (\<lambda>c. \<not> truthy (p_id (get_player g c)));
             assignTo = (\<lambda>c.
               (let g1 = maybeStartGame L
                           ((set_player g c
                               \<lparr>p_id = Some newId, p_name = or_null name, present = True\<rparr>)
                            \<lparr>updatedAt := stamp\<rparr>) now
                in (g1, \<lparr>jr_gameId = gameId, jr_playerId = newId, jr_color = Some c,
                         jr_role = PlayerRole, jr_state = publicState L g1 now\<rparr>)))
         in if desired \<noteq> None \<and> slotAvailable (the desired) then assignTo (the desired)
            else if slotAvailable W then assignTo W
            else if slotAvailable B then assignTo B
            else
              (let g1 = g\<lparr>spectators := map_set (spectators g) newId (or_null name),
                           updatedAt := stamp\<rparr>
               in (g1, \<lparr>jr_gameId = gameId, jr_playerId = newId, jr_color = None,
                        jr_role = SpectatorRole, jr_state = publicState L g1 now\<rparr>))))"

definition joinGame ::
  "'p chess_lib \<Rightarrow> 'p store \<Rightarrow> string \<Rightarrow> string option \<Rightarrow> js_id \<Rightarrow> string option \<Rightarrow>
     string \<Rightarrow> string \<Rightarrow> int \<Rightarrow> 'p store \<times> join_result outcome" where
  "joinGame L S gameId name playerId requestedColor newId stamp now =
     (case map_of S gameId of
        None \<Rightarrow> (S, Rejected not_found)
      | Some g \<Rightarrow>
          (case joinGame_on L g gameId name playerId requestedColor newId stamp now of
             (g', r) \<Rightarrow> (map_set S gameId g', Returned r)))"

definition vacant :: player where
  "vacant = \<lparr>p_id = None, p_name = None, present = False\<rparr>"

definition leaveGame_on ::
  "'p chess_lib \<Rightarrow> 'p game \<Rightarrow> js_id \<Rightarrow> string \<Rightarrow> int \<Rightarrow> 'p game \<times> public_state outcome" where
  "leaveGame_on L g playerId stamp now =
     (let finish = (\<lambda>g0.
            (let g1 = maybeStartGame L (g0\<lparr>updatedAt := stamp\<rparr>) now
             in (g1, Returned (publicState L g1 now))))
      in if strict_eq playerId (p_id (w_player (players g))) then
           finish (g\<lparr>players := (players g)\<lparr>w_player := vacant\<rparr>\<rparr>)
         else if strict_eq playerId (p_id (b_player (players g))) then
           finish (g\<lparr>players := (players g)\<lparr>b_player := vacant\<rparr>\<rparr>)
         else
           (case playerId of
              Str s \<Rightarrow>
                if map_of (spectators g) s \<noteq> None then
                  finish (g\<lparr>spectators := map_delete (spectators g) s\<rparr>)
                else (g, Rejected \<lparr>error = ''Unknown playerId'', statusCode = 400\<rparr>)
            | _ \<Rightarrow> (g, Rejected \<lparr>error = ''Unknown playerId'', statusCode = 400\<rparr>)))"

definition leaveGame ::
  "'p chess_lib \<Rightarrow> 'p store \<Rightarrow> string \<Rightarrow> js_id \<Rightarrow> string \<Rightarrow> int \<Rightarrow>
     'p store \<times> public_state outcome" where
  "leaveGame L S gameId playerId stamp now =
     (case map_of S gameId of
        None \<Rightarrow> (S, Rejected not_found)
      | Some g \<Rightarrow>
          (case leaveGame_on L g playerId stamp now of
             (g', r) \<Rightarrow> (map_set S gameId g', r)))"

subsection \<open>Move commit pipeline\<close>

definition playerId_required :: failure where
  "playerId_required = \<lparr>error = ''playerId is required'', statusCode = 400\<rparr>"

definition not_active :: "gstate \<Rightarrow> failure" where
  "not_active st =
     \<lparr>error = ''Game is not active (state='' @ state_name st @ '')'', statusCode = 409\<rparr>"

definition only_players_may_move :: failure where
  "only_players_may_move = \<lparr>error = ''Only players may move'', statusCode = 403\<rparr>"

definition not_your_turn :: failure where
  "not_your_turn = \<lparr>error = ''Not your turn'', statusCode = 409\<rparr>"

text \<open>The colour of the slot whose id is strictly equal to \<open>playerId\<close>, white first.\<close>

definition seat_of :: "'p game \<Rightarrow> js_id \<Rightarrow> color option" where
  "seat_of g playerId =
     (if strict_eq playerId (p_id (w_player (players g))) then Some W
      else if strict_eq playerId (p_id (b_player (players g))) then Some B
      else None)"

definition assertPlayerCanMove :: "'p chess_lib \<Rightarrow> 'p game \<Rightarrow> js_id \<Rightarrow> failure + color" where
  "assertPlayerCanMove L g playerId =
     (if \<not> truthy_id playerId then Inl playerId_required
      else if state (status g) \<noteq> Active then Inl (not_active (state (status g)))
      else if state (status g) = Finished then
        Inl \<lparr>error = ''Game is finished'', statusCode = 409\<rparr>
      else
        (case seat_of g playerId of
           None \<Rightarrow> Inl only_players_may_move
         | Some c \<Rightarrow>
             if chess_turn L (chess g) \<noteq> c then Inl not_your_turn else Inr c))"

definition timeout_for :: "color \<Rightarrow> status" where
  "timeout_for win = \<lparr>state = Finished, winner = Some win, reason = Some ''timeout''\<rparr>"

definition stop_clock :: "clocks \<Rightarrow> clocks" where
  "stop_clock c = c\<lparr>running := False, activeColor := None, lastTickAt := None\<rparr>"

text \<open>\<open>_commitClockBeforeMove\<close>: the updated game and the flag \<open>timedOut\<close>.\<close>

definition commitClockBeforeMove :: "'p game \<Rightarrow> int \<Rightarrow> 'p game \<times> bool" where
  "commitClockBeforeMove g atMs =
     (let snap = effectiveClocksSnapshot g atMs;
          g1 = g\<lparr>clocks := (clocks g)\<lparr>wRemainingMs := cv_wRemainingMs snap,
                                       bRemainingMs := cv_bRemainingMs snap\<rparr>\<rparr>
      in if cv_wRemainingMs snap \<le> 0 then
           (g1\<lparr>status := timeout_for B, clocks := stop_clock (clocks g1)\<rparr>, True)
         else if cv_bRemainingMs snap \<le> 0 then
           (g1\<lparr>status := timeout_for W, clocks := stop_clock (clocks g1)\<rparr>, True)
         else (g1, False))"

text \<open>\<open>xs.slice(0, e)\<close>: a negative end counts from the end of the array.\<close>

definition slice0 :: "'a list \<Rightarrow> int \<Rightarrow> 'a list" where
  "slice0 xs e = (if e < 0 then take (nat (int (length xs) + e)) xs else take (nat e) xs)"

definition illegal_move :: failure where
  "illegal_move = \<lparr>error = ''Illegal move'', statusCode = 409\<rparr>"

text \<open>
  The bookkeeping of an accepted move, in the order of the source. First the history: the
  redo tail is dropped, the record of the move is pushed, the cursor is set to the length.
\<close>

definition kept_moves :: "'p game \<Rightarrow> move list" where
  "kept_moves g =
     (if moveCursor g < int (length (moves g)) then slice0 (moves g) (moveCursor g)
      else moves g)"

definition move_record :: "move \<Rightarrow> move" where
  "move_record mv =
     \<lparr>m_from = m_from mv, m_to = m_to mv, m_promotion = or_null (m_promotion mv)\<rparr>"

definition applied :: "'p game \<Rightarrow> 'p \<Rightarrow> move \<Rightarrow> 'p game" where
  "applied g c' mv =
     g\<lparr>chess := c',
       moves := kept_moves g @ [move_record mv],
       moveCursor := int (length (kept_moves g @ [move_record mv]))\<rparr>"

text \<open>Then the increment, credited to the mover.\<close>

definition credit :: "color \<Rightarrow> clocks \<Rightarrow> clocks" where
  "credit col cl =
     cl\<lparr>wRemainingMs := (if col = W then wRemainingMs cl + incrementMs cl else wRemainingMs cl),
        bRemainingMs := (if col = B then bRemainingMs cl + incrementMs cl else bRemainingMs cl)\<rparr>"

text \<open>Then the status and the clock, from the termination of the new position.\<close>

definition settle :: "'p chess_lib \<Rightarrow> 'p game \<Rightarrow> color \<Rightarrow> int \<Rightarrow> 'p game" where
  "settle L g col atMs =
     (case computeTermination L (chess g) of
        Some t \<Rightarrow>
          g\<lparr>status := \<lparr>state = Finished, winner = t_winner t, reason = Some (t_reason t)\<rparr>,
             clocks := stop_clock (credit col (clocks g))\<rparr>
      | None \<Rightarrow>
          g\<lparr>status := (status g)\<lparr>state := Active\<rparr>,
             clocks := (credit col (clocks g))\<lparr>activeColor := Some (chess_turn L (chess g)),
                                              lastTickAt := Some atMs,
                                              running := True\<rparr>\<rparr>)"

text \<open>
  \<open>makeMove\<close> after the permission check, for the mover's colour \<open>col\<close>: the clock
  commit, the call of the rules library and the bookkeeping of an accepted move.
  \<open>atMs\<close> is the one \<open>nowMs()\<close> of the call.
\<close>

definition commit_and_apply ::
  "'p chess_lib \<Rightarrow> 'p game \<Rightarrow> color \<Rightarrow> string \<Rightarrow> string \<Rightarrow> string option \<Rightarrow>
     int \<Rightarrow> string \<Rightarrow> 'p game \<times> public_state outcome" where
  "commit_and_apply L g col src dst promotion atMs stamp =
     (case commitClockBeforeMove g atMs of
        (g1, timedOut) \<Rightarrow>
          if timedOut then
            (let g2 = g1\<lparr>updatedAt := stamp\<rparr> in (g2, Returned (publicState L g2 atMs)))
          else
            (case chess_move L (chess g1)
                    \<lparr>m_from = src, m_to = dst, m_promotion = safePromotion promotion\<rparr> of
               None \<Rightarrow> (g1, Rejected illegal_move)
             | Some (c', mv) \<Rightarrow>
                 (let g4 = (settle L (applied g1 c' mv) col atMs)\<lparr>updatedAt := stamp\<rparr>
                  in (g4, Returned (publicState L g4 atMs)))))"

text \<open>The body of \<open>makeMove\<close> once the game is found.\<close>

definition makeMove_on ::
  "'p chess_lib \<Rightarrow> 'p game \<Rightarrow> js_id \<Rightarrow> string \<Rightarrow> string \<Rightarrow> string option \<Rightarrow>
     int \<Rightarrow> string \<Rightarrow> 'p game \<times> public_state outcome" where
  "makeMove_on L g playerId src dst promotion atMs stamp =
     (case assertPlayerCanMove L g playerId of
        Inl f \<Rightarrow> (g, Rejected f)
      | Inr col \<Rightarrow> commit_and_apply L g col src dst promotion atMs stamp)"

definition makeMove ::
  "'p chess_lib \<Rightarrow> 'p store \<Rightarrow> string \<Rightarrow> js_id \<Rightarrow> string \<Rightarrow> string \<Rightarrow> string option \<Rightarrow>
     int \<Rightarrow> string \<Rightarrow> 'p store \<times> public_state outcome" where
  "makeMove L S gameId playerId src dst promotion atMs stamp =
     (case map_of S gameId of
        None \<Rightarrow> (S, Rejected not_found)
      | Some g \<Rightarrow>
          (case makeMove_on L g playerId src dst promotion atMs stamp of
             (g', r) \<Rightarrow> (map_set S gameId g', r)))"

subsection \<open>Undo and redo\<close>

definition isPlayer :: "'p game \<Rightarrow> js_id \<Rightarrow> bool" where
  "isPlayer g playerId =
     (strict_eq playerId (p_id (w_player (players g))) \<or>
      strict_eq playerId (p_id (b_player (players g))))"

definition reset_status :: status where
  "reset_status = \<lparr>state = Waiting, winner = None, reason = None\<rparr>"

text \<open>
  What \<open>undo\<close> and \<open>redo\<close> share once the cursor is moved: the rebuild (whose exception
  escapes with the cursor already changed), the reset of the status, the time stamp.
\<close>

definition rebuild_and_reset ::
  "'p chess_lib \<Rightarrow> 'p game \<Rightarrow> string \<Rightarrow> int \<Rightarrow> 'p game \<times> public_state outcome" where
  "rebuild_and_reset L g stamp now =
     (case rebuildChess L g of
        None \<Rightarrow> (g, Thrown)
      | Some g1 \<Rightarrow>
          (let g2 = g1\<lparr>status := reset_status, updatedAt := stamp\<rparr>
           in (g2, Returned (publicState L g2 now))))"

definition undo_on ::
  "'p chess_lib \<Rightarrow> 'p game \<Rightarrow> js_id \<Rightarrow> string \<Rightarrow> int \<Rightarrow> 'p game \<times> public_state outcome" where
  "undo_on L g playerId stamp now =
     (if running (clocks g) then
        (g, Rejected \<lparr>error = ''Undo is disabled while clocks are running'', statusCode = 409\<rparr>)
      else if \<not> isPlayer g playerId then
        (g, Rejected \<lparr>error = ''Only players may undo'', statusCode = 403\<rparr>)
      else if moveCursor g \<le> 0 then
        (g, Rejected \<lparr>error = ''Nothing to undo'', statusCode = 409\<rparr>)
      else rebuild_and_reset L (g\<lparr>moveCursor := moveCursor g - 1\<rparr>) stamp now)"

definition redo_on ::
  "'p chess_lib \<Rightarrow> 'p game \<Rightarrow> js_id \<Rightarrow> string \<Rightarrow> int \<Rightarrow> 'p game \<times> public_state outcome" where
  "redo_on L g playerId stamp now =
     (if running (clocks g) then
        (g, Rejected \<lparr>error = ''Redo is disabled while clocks are running'', statusCode = 409\<rparr>)
      else if \<not> isPlayer g playerId then
        (g, Rejected \<lparr>error = ''Only players may redo'', statusCode = 403\<rparr>)
      else if moveCursor g \<ge> int (length (moves g)) then
        (g, Rejected \<lparr>error = ''Nothing to redo'', statusCode = 409\<rparr>)
      else rebuild_and_reset L (g\<lparr>moveCursor := moveCursor g + 1\<rparr>) stamp now)"

definition undo ::
  "'p chess_lib \<Rightarrow> 'p store \<Rightarrow> string \<Rightarrow> js_id \<Rightarrow> string \<Rightarrow> int \<Rightarrow>
     'p store \<times> public_state outcome" where
  "undo L S gameId playerId stamp now =
     (case map_of S gameId of
        None \<Rightarrow> (S, Rejected not_found)
      | Some g \<Rightarrow>
          (case undo_on L g playerId stamp now of (g', r) \<Rightarrow> (map_set S gameId g', r)))"

definition redo ::
  "'p chess_lib \<Rightarrow> 'p store \<Rightarrow> string \<Rightarrow> js_id \<Rightarrow> string \<Rightarrow> int \<Rightarrow>
     'p store \<times> public_state outcome" where
  "redo L S gameId playerId stamp now =
     (case map_of S gameId of
        None \<Rightarrow> (S, Rejected not_found)
      | Some g \<Rightarrow>
          (case redo_on L g playerId stamp now of (g', r) \<Rightarrow> (map_set S gameId g', r)))"

subsection \<open>The sweep\<close>

text \<open>One turn of the loop of \<open>tickClocks\<close>: the game and whether its id is reported.\<close>

definition tick_on :: "'p game \<Rightarrow> int \<Rightarrow> string \<Rightarrow> 'p game \<times> bool" where
  "tick_on g atMs stamp =
     (if \<not> running (clocks g) \<or> state (status g) \<noteq> Active then (g, False)
      else
        (let snap = effectiveClocksSnapshot g atMs;
             timedOut = ((cv_wRemainingMs snap \<le> 0 \<and> activeColor (clocks g) = Some W) \<or>
                         (cv_bRemainingMs snap \<le> 0 \<and> activeColor (clocks g) = Some B))
         in if timedOut then
              (g\<lparr>clocks := stop_clock ((clocks g)\<lparr>wRemainingMs := cv_wRemainingMs snap,
                                                    bRemainingMs := cv_bRemainingMs snap\<rparr>),
                 status := timeout_for (if activeColor (clocks g) = Some W then B else W),
                 updatedAt := stamp\<rparr>, True)
            else (g, True)))"

text \<open>\<open>Array.from(new Set(xs))\<close>: each element once, where it comes first.\<close>

definition dedupe :: "'a list \<Rightarrow> 'a list" where
  "dedupe xs = rev (remdups (rev xs))"

definition tickClocks :: "'p store \<Rightarrow> int \<Rightarrow> string \<Rightarrow> 'p store \<times> string list" where
  "tickClocks S atMs stamp =
     (map (\<lambda>(k, g). (k, fst (tick_on g atMs stamp))) S,
      dedupe (map (\<lambda>(k, g). g_id g) (filter (\<lambda>(k, g). snd (tick_on g atMs stamp)) S)))"

subsection \<open>Persistence\<close>

text \<open>
  The record \<open>_serializeGame\<close> writes and \<open>_deserializeGame\<close> reads. The fields the reader
  tests before use are options: \<open>moveCursor\<close> (used only when it is a number) and the
  clock totals (defaulted by \<open>??\<close>).
\<close>

record snap_clocks =
  sc_initialMs :: "int option"
  sc_incrementMs :: "int option"
  sc_wRemainingMs :: "int option"
  sc_bRemainingMs :: "int option"
  sc_activeColor :: "color option"
  sc_running :: bool
  sc_lastTickAt :: "int option"

record snapshot =
  s_id :: string
  s_createdAt :: string
  s_updatedAt :: string
  s_initialFen :: string
  s_moves :: "move list"
  s_moveCursor :: "int option"
  s_players :: players
  s_spectators :: "(string \<times> string option) list"
  s_clocks :: snap_clocks
  s_status :: status

definition serializeGame :: "'p game \<Rightarrow> snapshot" where
  "serializeGame g =
     \<lparr>s_id = g_id g,
      s_createdAt = createdAt g,
      s_updatedAt = updatedAt g,
      s_initialFen = initialFen g,
      s_moves = moves g,
      s_moveCursor = Some (moveCursor g),
      s_players =
        \<lparr>w_player = \<lparr>p_id = p_id (w_player (players g)), p_name = p_name (w_player (players g)),
                      present = present (w_player (players g))\<rparr>,
         b_player = \<lparr>p_id = p_id (b_player (players g)), p_name = p_name (b_player (players g)),
                      present = present (b_player (players g))\<rparr>\<rparr>,
      s_spectators = map (\<lambda>(k, n). (k, n)) (spectators g),
      s_clocks =
        \<lparr>sc_initialMs = Some (initialMs (clocks g)),
         sc_incrementMs = Some (incrementMs (clocks g)),
         sc_wRemainingMs = Some (wRemainingMs (clocks g)),
         sc_bRemainingMs = Some (bRemainingMs (clocks g)),
         sc_activeColor = activeColor (clocks g),
         sc_running = False,
         sc_lastTickAt = None\<rparr>,
      s_status = status g\<rparr>"

definition or_else :: "'a option \<Rightarrow> 'a \<Rightarrow> 'a" where
  "or_else x d = (case x of Some v \<Rightarrow> v | None \<Rightarrow> d)"

definition or_string :: "string \<Rightarrow> string \<Rightarrow> string" where
  "or_string x d = (if x = [] then d else x)"

fun load_spectators ::
  "(string \<times> string option) list \<Rightarrow> (string \<times> string option) list \<Rightarrow>
     (string \<times> string option) list" where
  "load_spectators acc [] = acc"
| "load_spectators acc ((k, n) # rest) =
     load_spectators (if k \<noteq> [] then map_set acc k (or_null n) else acc) rest"

text \<open>The status \<open>_deserializeGame\<close> writes last, from the rebuilt position alone.\<close>

definition recomputed_status :: "'p chess_lib \<Rightarrow> 'p \<Rightarrow> status" where
  "recomputed_status L c =
     (case computeTermination L c of
        Some t \<Rightarrow> \<lparr>state = Finished, winner = t_winner t, reason = Some (t_reason t)\<rparr>
      | None \<Rightarrow> \<lparr>state = Waiting, winner = None, reason = None\<rparr>)"

text \<open>
  \<open>_deserializeGame\<close>; \<open>None\<close> is an exception escaping it (\<open>loadFromDisk\<close> then skips the
  record). The stored status is read and then overwritten in all three of its fields, in
  both branches of the final test, so nothing of it reaches the game.
\<close>

definition deserializeGame :: "'p chess_lib \<Rightarrow> snapshot \<Rightarrow> string \<Rightarrow> 'p game option" where
  "deserializeGame L s stamp =
     (let ms = s_moves s;
          cur = (case s_moveCursor s of
                   Some n \<Rightarrow> max 0 (min (int (length ms)) n)
                 | None \<Rightarrow> int (length ms))
      in case replay_from L ms cur 0 (chess_load L (s_initialFen s)) of
           None \<Rightarrow> None
         | Some c \<Rightarrow>
             (let st = recomputed_status L c
              in Some
                   \<lparr>g_id = s_id s,
                    createdAt = or_string (s_createdAt s) stamp,
                    updatedAt = or_string (s_updatedAt s) stamp,
                    initialFen = or_string (s_initialFen s) (chess_fen L (chess_new L)),
                    moves = ms,
                    moveCursor = cur,
                    chess = c,
                    players =
                      \<lparr>w_player = \<lparr>p_id = or_null (p_id (w_player (s_players s))),
                                    p_name = or_null (p_name (w_player (s_players s))),
                                    present = False\<rparr>,
                       b_player = \<lparr>p_id = or_null (p_id (b_player (s_players s))),
                                    p_name = or_null (p_name (b_player (s_players s))),
                                    present = False\<rparr>\<rparr>,
                    spectators = load_spectators [] (s_spectators s),
                    clocks =
                      \<lparr>initialMs = or_else (sc_initialMs (s_clocks s)) 300000,
                       incrementMs = or_else (sc_incrementMs (s_clocks s)) 2000,
                       wRemainingMs = or_else (sc_wRemainingMs (s_clocks s)) 300000,
                       bRemainingMs = or_else (sc_bRemainingMs (s_clocks s)) 300000,
                       activeColor = None,
                       running = False,
                       lastTickAt = None\<rparr>,
                    status = st\<rparr>))"

definition saveToDisk :: "'p store \<Rightarrow> snapshot list" where
  "saveToDisk S = map (\<lambda>(k, g). serializeGame g) S"

fun load_records :: "'p chess_lib \<Rightarrow> string \<Rightarrow> 'p store \<Rightarrow> snapshot list \<Rightarrow> 'p store" where
  "load_records L stamp acc [] = acc"
| "load_records L stamp acc (s # rest) =
     load_records L stamp
       (if s_id s = [] then acc
        else (case deserializeGame L s stamp of
                Some g \<Rightarrow> map_set acc (g_id g) g
              | None \<Rightarrow> acc))
       rest"

definition loadFromDisk :: "'p chess_lib \<Rightarrow> snapshot list \<Rightarrow> string \<Rightarrow> 'p store \<times> nat" where
  "loadFromDisk L disk stamp =
     (let S = load_records L stamp [] disk in (S, length S))"

subsection \<open>A small rules library to run the store on\<close>

text \<open>
  A position is the number of plies played. White moves at even counts. A move is legal
  when it starts from the square \<open>a\<close>; the third ply mates. The position token is \<open>p\<close>
  followed by as many \<open>x\<close> as plies.
\<close>

definition toyChess :: "nat chess_lib" where
  "toyChess =
     \<lparr>chess_new = 0,
      chess_load = (\<lambda>s. length s - 1),
      chess_fen = (\<lambda>n. CHR ''p'' # replicate n CHR ''x''),
      chess_turn = (\<lambda>n. if even n then W else B),
      chess_move = (\<lambda>n m. if m_from m = ''a'' \<and> n < 3 then Some (Suc n, m) else None),
      chess_pgn = None,
      chess_history = None,
      supports_isCheck = Some (\<lambda>n. n \<ge> 3),
      supports_isCheckmate = Some (\<lambda>n. n \<ge> 3),
      supports_isStalemate = Some (\<lambda>n. False),
      supports_isDraw = Some (\<lambda>n. False),
      supports_isThreefoldRepetition = Some (\<lambda>n. False),
      supports_isInsufficientMaterial = Some (\<lambda>n. False),
      supports_isGameOver = Some (\<lambda>n. n \<ge> 3)\<rparr>"

subsection \<open>Invariants of a session and sample sessions\<close>

definition cursor_ok :: "'p game \<Rightarrow> bool" where
  "cursor_ok g = (0 \<le> moveCursor g \<and> moveCursor g \<le> int (length (moves g)))"

text \<open>Rebuild idempotence: the position held is the replay of the applied prefix.\<close>

definition position_ok :: "'p chess_lib \<Rightarrow> 'p game \<Rightarrow> bool" where
  "position_ok L g =
     (replay_from L (moves g) (moveCursor g) 0 (chess_load L (initialFen g)) = Some (chess g))"

text \<open>The position reached from a token by a list of moves, as the replay loop plays them.\<close>

definition replayed :: "'p chess_lib \<Rightarrow> string \<Rightarrow> move list \<Rightarrow> 'p" where
  "replayed L token ms = foldl (replay_move L) (chess_load L token) ms"

definition both_seated :: "'p game \<Rightarrow> bool" where
  "both_seated g =
     (truthy (p_id (w_player (players g))) \<and> truthy (p_id (b_player (players g))))"

definition remaining_of :: "color \<Rightarrow> clock_view \<Rightarrow> int" where
  "remaining_of c v = (if c = W then cv_wRemainingMs v else cv_bRemainingMs v)"

definition stored_remaining :: "color \<Rightarrow> clocks \<Rightarrow> int" where
  "stored_remaining c cl = (if c = W then wRemainingMs cl else bRemainingMs cl)"

text \<open>
  The strings of a session that the loader replaces when empty: both time stamps, the
  initial position token, the ids and names of the seated players.
\<close>

definition strings_ok :: "'p game \<Rightarrow> bool" where
  "strings_ok g =
     (createdAt g \<noteq> [] \<and> updatedAt g \<noteq> [] \<and> initialFen g \<noteq> [] \<and>
      p_id (w_player (players g)) \<noteq> Some [] \<and> p_name (w_player (players g)) \<noteq> Some [] \<and>
      p_id (b_player (players g)) \<noteq> Some [] \<and> p_name (b_player (players g)) \<noteq> Some [])"

text \<open>A loaded session in terms of the saved one: nobody present, the clock at rest.\<close>

definition at_rest :: "'p chess_lib \<Rightarrow> 'p game \<Rightarrow> 'p game" where
  "at_rest L g =
     g\<lparr>players := \<lparr>w_player = (w_player (players g))\<lparr>present := False\<rparr>,
                   b_player = (b_player (players g))\<lparr>present := False\<rparr>\<rparr>,
       spectators := load_spectators [] (spectators g),
       clocks := stop_clock (clocks g),
       status := recomputed_status L (chess g)\<rparr>"

text \<open>
  A store as \<open>createGame\<close> and \<open>loadFromDisk\<close> build it: every game under its own id,
  which is not empty, no id twice; and every game a session that satisfies the invariants.
\<close>

definition session_ok :: "'p chess_lib \<Rightarrow> 'p game \<Rightarrow> bool" where
  "session_ok L g = (cursor_ok g \<and> position_ok L g \<and> strings_ok g)"

definition store_ok :: "'p chess_lib \<Rightarrow> 'p store \<Rightarrow> bool" where
  "store_ok L S =
     (distinct (map fst S) \<and>
      list_all (\<lambda>kg. fst kg = g_id (snd kg) \<and> fst kg \<noteq> [] \<and> session_ok L (snd kg)) S)"

text \<open>
  What the rules library answers to a call of \<open>makeMove\<close> on the game \<open>g\<close>, when the call
  gets as far as asking it: \<open>None\<close> when a check fails, when the commit times out and when
  the library refuses the move. The move is accepted when the answer is \<open>Some\<close>.
\<close>

definition accepted_move ::
  "'p chess_lib \<Rightarrow> 'p game \<Rightarrow> js_id \<Rightarrow> string \<Rightarrow> string \<Rightarrow> string option \<Rightarrow> int \<Rightarrow>
     ('p \<times> move) option" where
  "accepted_move L g playerId src dst promotion atMs =
     (case assertPlayerCanMove L g playerId of
        Inl f \<Rightarrow> None
      | Inr col \<Rightarrow>
          (case commitClockBeforeMove g atMs of
             (g1, timedOut) \<Rightarrow>
               if timedOut then None
               else chess_move L (chess g1)
                      \<lparr>m_from = src, m_to = dst, m_promotion = safePromotion promotion\<rparr>))"

text \<open>Every game of the store is filed under its own id, which is not empty, no id twice.\<close>

definition filed :: "'p store \<Rightarrow> bool" where
  "filed S =
     (distinct (map fst S) \<and> list_all (\<lambda>kg. fst kg = g_id (snd kg) \<and> fst kg \<noteq> []) S)"

text \<open>Every game of the store has its cursor within its move list.\<close>

definition cursors_ok :: "'p store \<Rightarrow> bool" where
  "cursors_ok S = list_all (\<lambda>kg. cursor_ok (snd kg)) S"

text \<open>
  A game that differs from \<open>g\<close> in its seats, spectators and time stamp only: what
  \<open>joinGame\<close> and \<open>leaveGame\<close> hand to \<open>_maybeStartGame\<close>.
\<close>

definition reseated :: "'p game \<Rightarrow> 'p game \<Rightarrow> bool" where
  "reseated g g0 =
     (status g0 = status g \<and> clocks g0 = clocks g \<and> chess g0 = chess g \<and>
      moves g0 = moves g \<and> moveCursor g0 = moveCursor g \<and> initialFen g0 = initialFen g \<and>
      g_id g0 = g_id g)"

text \<open>
  The clock of a game that was not finished, after start and pause were evaluated again
  at the instant \<open>now\<close>, given whether both colours are seated: started (anchored at
  \<open>now\<close>, for the side to move) when both are and it stood still, paused (the readings at
  \<open>now\<close> committed, then stopped) when one is missing and it ran, else as it was.
\<close>

definition clock_after :: "'p chess_lib \<Rightarrow> 'p game \<Rightarrow> int \<Rightarrow> bool \<Rightarrow> clocks" where
  "clock_after L g now seated =
     (if seated then
        (if running (clocks g) then clocks g
         else (clocks g)\<lparr>running := True, activeColor := Some (chess_turn L (chess g)),
                         lastTickAt := Some now\<rparr>)
      else
        (if running (clocks g) then
           stop_clock
             ((clocks g)\<lparr>wRemainingMs := cv_wRemainingMs (effectiveClocksSnapshot g now),
                        bRemainingMs := cv_bRemainingMs (effectiveClocksSnapshot g now)\<rparr>)
         else clocks g))"

definition reevaluated :: "'p chess_lib \<Rightarrow> 'p game \<Rightarrow> int \<Rightarrow> 'p game \<Rightarrow> bool" where
  "reevaluated L g now g' =
     (state (status g') = (if both_seated g' then Active else Waiting) \<and>
      winner (status g') = winner (status g) \<and>
      reason (status g') = reason (status g) \<and>
      clocks g' = clock_after L g now (both_seated g'))"

text \<open>
  A game finalized on time against the colour \<open>c\<close> at the instant \<open>atMs\<close>: the readings
  committed, the clock stopped, the opponent of \<open>c\<close> the winner.
\<close>

definition flagged :: "'p game \<Rightarrow> color \<Rightarrow> int \<Rightarrow> 'p game" where
  "flagged g c atMs =
     g\<lparr>clocks := stop_clock
           ((clocks g)\<lparr>wRemainingMs := cv_wRemainingMs (effectiveClocksSnapshot g atMs),
                      bRemainingMs := cv_bRemainingMs (effectiveClocksSnapshot g atMs)\<rparr>),
       status := timeout_for (opponent c)\<rparr>"

text \<open>
  A live game on the small library: both players seated, no move played, White's clock
  running since the instant 1000.
\<close>

definition demo :: "nat game" where
  "demo =
     \<lparr>g_id = ''g1'', createdAt = ''t0'', updatedAt = ''t1'', initialFen = ''p'',
      moves = [], moveCursor = 0, chess = 0,
      players = \<lparr>w_player = \<lparr>p_id = Some ''pw'', p_name = Some ''Ann'', present = True\<rparr>,
                 b_player = \<lparr>p_id = Some ''pb'', p_name = Some ''Bob'', present = True\<rparr>\<rparr>,
      spectators = [],
      clocks = \<lparr>initialMs = 300000, incrementMs = 2000, wRemainingMs = 300000,
                bRemainingMs = 300000, activeColor = Some W, running = True,
                lastTickAt = Some 1000\<rparr>,
      status = \<lparr>state = Active, winner = None, reason = None\<rparr>\<rparr>"

definition ply :: move where
  "ply = \<lparr>m_from = ''a'', m_to = ''b'', m_promotion = None\<rparr>"

text \<open>The same game after an illegal move sent at the instant 6000 was refused.\<close>

definition demo_refused :: "nat game" where
  "demo_refused = demo\<lparr>clocks := (clocks demo)\<lparr>wRemainingMs := 295000\<rparr>\<rparr>"

text \<open>The same game one move later, after Black has left: the clock is paused.\<close>

definition demo_paused :: "nat game" where
  "demo_paused =
     demo\<lparr>moves := [ply], moveCursor := 1, chess := 1,
          players := (players demo)\<lparr>b_player := vacant\<rparr>,
          clocks := (clocks demo)\<lparr>wRemainingMs := 297000, activeColor := None,
                                   running := False, lastTickAt := None\<rparr>,
          status := reset_status\<rparr>"

text \<open>
  The same game with one move applied and one more in the redo tail, Black to move and
  Black's clock running.
\<close>

definition demo_tail :: "nat game" where
  "demo_tail =
     demo\<lparr>moves := [ply, \<lparr>m_from = ''a'', m_to = ''c'', m_promotion = None\<rparr>],
          moveCursor := 1, chess := 1,
          clocks := (clocks demo)\<lparr>activeColor := Some B\<rparr>\<rparr>"

text \<open>The same game lost by White on time after two moves, the clock stopped.\<close>

definition demo_flagged :: "nat game" where
  "demo_flagged =
     demo\<lparr>moves := [ply, ply], moveCursor := 2, chess := 2,
          clocks := (clocks demo)\<lparr>wRemainingMs := 0, activeColor := None,
                                   running := False, lastTickAt := None\<rparr>,
          status := timeout_for B\<rparr>"

text \<open>The same game after the mating third move, with the status undo and redo leave.\<close>

definition demo_mated :: "nat game" where
  "demo_mated =
     demo\<lparr>moves := [ply, ply, ply], moveCursor := 3, chess := 3,
          clocks := (clocks demo)\<lparr>activeColor := None, running := False, lastTickAt := None\<rparr>,
          status := reset_status\<rparr>"

section \<open>Properties\<close>

subsection \<open>The store as a map\<close>

lemma map_set_same: "map_of S k = Some v \<Longrightarrow> map_set S k v = S"
  by (induction S) (auto split: if_splits)

lemma map_of_map_set: "map_of (map_set S k v) k' = (if k' = k then Some v else map_of S k')"
  by (induction S) auto

lemma computeTermination_None: "computeTermination L c = None \<longleftrightarrow> \<not> isGameOver L c"
  by (simp add: computeTermination_def)

subsection \<open>The projector and the status held\<close>

lemma computeTermination_endings:
  "isGameOver L c \<Longrightarrow> isCheckmate L c \<Longrightarrow>
     computeTermination L c =
       Some \<lparr>t_winner = Some (opponent (chess_turn L c)), t_reason = ''checkmate''\<rparr>"
  "isGameOver L c \<Longrightarrow> \<not> isCheckmate L c \<Longrightarrow> isStalemate L c \<Longrightarrow>
     computeTermination L c = Some \<lparr>t_winner = None, t_reason = ''stalemate''\<rparr>"
  "isGameOver L c \<Longrightarrow> \<not> isCheckmate L c \<Longrightarrow> \<not> isStalemate L c \<Longrightarrow>
   isThreefoldRepetition L c \<Longrightarrow>
     computeTermination L c = Some \<lparr>t_winner = None, t_reason = ''threefold''\<rparr>"
  "isGameOver L c \<Longrightarrow> \<not> isCheckmate L c \<Longrightarrow> \<not> isStalemate L c \<Longrightarrow>
   \<not> isThreefoldRepetition L c \<Longrightarrow> isInsufficientMaterial L c \<Longrightarrow>
     computeTermination L c = Some \<lparr>t_winner = None, t_reason = ''insufficient_material''\<rparr>"
  "isGameOver L c \<Longrightarrow> \<not> isCheckmate L c \<Longrightarrow> \<not> isStalemate L c \<Longrightarrow>
   \<not> isThreefoldRepetition L c \<Longrightarrow> \<not> isInsufficientMaterial L c \<Longrightarrow> isDraw L c \<Longrightarrow>
     computeTermination L c = Some \<lparr>t_winner = None, t_reason = ''draw''\<rparr>"
  "isGameOver L c \<Longrightarrow> \<not> isCheckmate L c \<Longrightarrow> \<not> isStalemate L c \<Longrightarrow>
   \<not> isThreefoldRepetition L c \<Longrightarrow> \<not> isInsufficientMaterial L c \<Longrightarrow> \<not> isDraw L c \<Longrightarrow>
     computeTermination L c = Some \<lparr>t_winner = None, t_reason = ''game_over''\<rparr>"
  by (cases "chess_turn L c"; simp add: computeTermination_def)+

lemma public_status_terminal:
  "computeTermination L (chess g) = Some t \<Longrightarrow>
   pub_status (publicState L g atMs) =
     \<lparr>ps_state = Finished, ps_winner = t_winner t, ps_reason = Some (t_reason t),
      ps_isCheck = isCheck L (chess g)\<rparr>"
  by (simp add: publicState_def Let_def)

lemma public_status_live:
  "computeTermination L (chess g) = None \<Longrightarrow>
   pub_status (publicState L g atMs) =
     \<lparr>ps_state = state (status g), ps_winner = winner (status g),
      ps_reason = reason (status g), ps_isCheck = isCheck L (chess g)\<rparr>"
  by (simp add: publicState_def Let_def)

text \<open>
  Claim C10. The public state of a game in the store is computed from the position held.
  When the rules library reports the game over, the public status is \<open>finished\<close>,
  whatever status is stored, with the winner and reason of the position: a checkmate is
  won by the side not to move, with reason \<open>checkmate\<close>; every other ending has no
  winner, and its reason is the first that applies of \<open>stalemate\<close>, \<open>threefold\<close>,
  \<open>insufficient_material\<close> and \<open>draw\<close>, and \<open>game_over\<close> when none does. When the
  library does not report the game over, the stored state, winner and reason are
  reported as they are. The check flag is the library's in both cases.
\<close>

theorem projector_recomputes_termination:
  assumes "map_of S gameId = Some g"
  shows "\<exists>ps. getGameState L S gameId now = Some ps \<and>
     ps_isCheck (pub_status ps) = isCheck L (chess g) \<and>
     (isGameOver L (chess g) \<longrightarrow>
        ps_state (pub_status ps) = Finished \<and>
        (isCheckmate L (chess g) \<longrightarrow>
           ps_winner (pub_status ps) = Some (opponent (chess_turn L (chess g))) \<and>
           ps_reason (pub_status ps) = Some ''checkmate'') \<and>
        (\<not> isCheckmate L (chess g) \<longrightarrow> ps_winner (pub_status ps) = None) \<and>
        (\<not> isCheckmate L (chess g) \<and> isStalemate L (chess g) \<longrightarrow>
           ps_reason (pub_status ps) = Some ''stalemate'') \<and>
        (\<not> isCheckmate L (chess g) \<and> \<not> isStalemate L (chess g) \<and>
         isThreefoldRepetition L (chess g) \<longrightarrow>
           ps_reason (pub_status ps) = Some ''threefold'') \<and>
        (\<not> isCheckmate L (chess g) \<and> \<not> isStalemate L (chess g) \<and>
         \<not> isThreefoldRepetition L (chess g) \<and> isInsufficientMaterial L (chess g) \<longrightarrow>
           ps_reason (pub_status ps) = Some ''insufficient_material'') \<and>
        (\<not> isCheckmate L (chess g) \<and> \<not> isStalemate L (chess g) \<and>
         \<not> isThreefoldRepetition L (chess g) \<and> \<not> isInsufficientMaterial L (chess g) \<and>
         isDraw L (chess g) \<longrightarrow>
           ps_reason (pub_status ps) = Some ''draw'') \<and>
        (\<not> isCheckmate L (chess g) \<and> \<not> isStalemate L (chess g) \<and>
         \<not> isThreefoldRepetition L (chess g) \<and> \<not> isInsufficientMaterial L (chess g) \<and>
         \<not> isDraw L (chess g) \<longrightarrow>
           ps_reason (pub_status ps) = Some ''game_over'')) \<and>
     (\<not> isGameOver L (chess g) \<longrightarrow>
        ps_state (pub_status ps) = state (status g) \<and>
        ps_winner (pub_status ps) = winner (status g) \<and>
        ps_reason (pub_status ps) = reason (status g))"
proof -
  let ?ps = "publicState L g now"
  have shown: "getGameState L S gameId now = Some ?ps"
    using assms by (simp add: getGameState_def)
  have flag: "ps_isCheck (pub_status ?ps) = isCheck L (chess g)"
    by (cases "computeTermination L (chess g)")
      (simp_all add: public_status_terminal public_status_live)
  have live: "ps_state (pub_status ?ps) = state (status g) \<and>
        ps_winner (pub_status ?ps) = winner (status g) \<and>
        ps_reason (pub_status ?ps) = reason (status g)"
    if "\<not> isGameOver L (chess g)"
  proof -
    from that have "computeTermination L (chess g) = None"
      by (simp add: computeTermination_None)
    then show ?thesis
      by (simp add: public_status_live)
  qed
  have mate: "ps_state (pub_status ?ps) = Finished \<and>
      ps_winner (pub_status ?ps) = Some (opponent (chess_turn L (chess g))) \<and>
      ps_reason (pub_status ?ps) = Some ''checkmate''"
    if "isGameOver L (chess g)" "isCheckmate L (chess g)"
    using public_status_terminal [OF computeTermination_endings(1) [OF that]] by simp
  have stale: "ps_state (pub_status ?ps) = Finished \<and> ps_winner (pub_status ?ps) = None \<and>
      ps_reason (pub_status ?ps) = Some ''stalemate''"
    if "isGameOver L (chess g)" "\<not> isCheckmate L (chess g)" "isStalemate L (chess g)"
    using public_status_terminal [OF computeTermination_endings(2) [OF that]] by simp
  have three: "ps_state (pub_status ?ps) = Finished \<and> ps_winner (pub_status ?ps) = None \<and>
      ps_reason (pub_status ?ps) = Some ''threefold''"
    if "isGameOver L (chess g)" "\<not> isCheckmate L (chess g)" "\<not> isStalemate L (chess g)"
      "isThreefoldRepetition L (chess g)"
    using public_status_terminal [OF computeTermination_endings(3) [OF that]] by simp
  have bare: "ps_state (pub_status ?ps) = Finished \<and> ps_winner (pub_status ?ps) = None \<and>
      ps_reason (pub_status ?ps) = Some ''insufficient_material''"
    if "isGameOver L (chess g)" "\<not> isCheckmate L (chess g)" "\<not> isStalemate L (chess g)"
      "\<not> isThreefoldRepetition L (chess g)" "isInsufficientMaterial L (chess g)"
    using public_status_terminal [OF computeTermination_endings(4) [OF that]] by simp
  have drawn: "ps_state (pub_status ?ps) = Finished \<and> ps_winner (pub_status ?ps) = None \<and>
      ps_reason (pub_status ?ps) = Some ''draw''"
    if "isGameOver L (chess g)" "\<not> isCheckmate L (chess g)" "\<not> isStalemate L (chess g)"
      "\<not> isThreefoldRepetition L (chess g)" "\<not> isInsufficientMaterial L (chess g)"
      "isDraw L (chess g)"
    using public_status_terminal [OF computeTermination_endings(5) [OF that]] by simp
  have other: "ps_state (pub_status ?ps) = Finished \<and> ps_winner (pub_status ?ps) = None \<and>
      ps_reason (pub_status ?ps) = Some ''game_over''"
    if "isGameOver L (chess g)" "\<not> isCheckmate L (chess g)" "\<not> isStalemate L (chess g)"
      "\<not> isThreefoldRepetition L (chess g)" "\<not> isInsufficientMaterial L (chess g)"
      "\<not> isDraw L (chess g)"
    using public_status_terminal [OF computeTermination_endings(6) [OF that]] by simp
  have over: "isGameOver L (chess g) \<longrightarrow>
        ps_state (pub_status ?ps) = Finished \<and>
        (isCheckmate L (chess g) \<longrightarrow>
           ps_winner (pub_status ?ps) = Some (opponent (chess_turn L (chess g))) \<and>
           ps_reason (pub_status ?ps) = Some ''checkmate'') \<and>
        (\<not> isCheckmate L (chess g) \<longrightarrow> ps_winner (pub_status ?ps) = None) \<and>
        (\<not> isCheckmate L (chess g) \<and> isStalemate L (chess g) \<longrightarrow>
           ps_reason (pub_status ?ps) = Some ''stalemate'') \<and>
        (\<not> isCheckmate L (chess g) \<and> \<not> isStalemate L (chess g) \<and>
         isThreefoldRepetition L (chess g) \<longrightarrow>
           ps_reason (pub_status ?ps) = Some ''threefold'') \<and>
        (\<not> isCheckmate L (chess g) \<and> \<not> isStalemate L (chess g) \<and>
         \<not> isThreefoldRepetition L (chess g) \<and> isInsufficientMaterial L (chess g) \<longrightarrow>
           ps_reason (pub_status ?ps) = Some ''insufficient_material'') \<and>
        (\<not> isCheckmate L (chess g) \<and> \<not> isStalemate L (chess g) \<and>
         \<not> isThreefoldRepetition L (chess g) \<and> \<not> isInsufficientMaterial L (chess g) \<and>
         isDraw L (chess g) \<longrightarrow>
           ps_reason (pub_status ?ps) = Some ''draw'') \<and>
        (\<not> isCheckmate L (chess g) \<and> \<not> isStalemate L (chess g) \<and>
         \<not> isThreefoldRepetition L (chess g) \<and> \<not> isInsufficientMaterial L (chess g) \<and>
         \<not> isDraw L (chess g) \<longrightarrow>
           ps_reason (pub_status ?ps) = Some ''game_over'')"
  proof (rule impI)
    assume go: "isGameOver L (chess g)"
    then obtain t where "computeTermination L (chess g) = Some t"
      using computeTermination_None [of L "chess g"]
      by (cases "computeTermination L (chess g)") auto
    then have fin: "ps_state (pub_status ?ps) = Finished"
      by (simp add: public_status_terminal)
    have c1: "isCheckmate L (chess g) \<longrightarrow>
           ps_winner (pub_status ?ps) = Some (opponent (chess_turn L (chess g))) \<and>
           ps_reason (pub_status ?ps) = Some ''checkmate''"
      using mate [OF go] by simp
    have c2: "\<not> isCheckmate L (chess g) \<longrightarrow> ps_winner (pub_status ?ps) = None"
    proof
      assume no: "\<not> isCheckmate L (chess g)"
      show "ps_winner (pub_status ?ps) = None"
      proof (cases "isStalemate L (chess g)")
        case True
        from stale [OF go no True] show ?thesis by simp
      next
        case s: False
        show ?thesis
        proof (cases "isThreefoldRepetition L (chess g)")
          case True
          from three [OF go no s True] show ?thesis by simp
        next
          case r: False
          show ?thesis
          proof (cases "isInsufficientMaterial L (chess g)")
            case True
            from bare [OF go no s r True] show ?thesis by simp
          next
            case m: False
            show ?thesis
            proof (cases "isDraw L (chess g)")
              case True
              from drawn [OF go no s r m True] show ?thesis by simp
            next
              case False
              from other [OF go no s r m False] show ?thesis by simp
            qed
          qed
        qed
      qed
    qed
    have c3: "\<not> isCheckmate L (chess g) \<and> isStalemate L (chess g) \<longrightarrow>
           ps_reason (pub_status ?ps) = Some ''stalemate''"
      using stale [OF go] by simp
    have c4: "\<not> isCheckmate L (chess g) \<and> \<not> isStalemate L (chess g) \<and>
         isThreefoldRepetition L (chess g) \<longrightarrow>
           ps_reason (pub_status ?ps) = Some ''threefold''"
      using three [OF go] by simp
    have c5: "\<not> isCheckmate L (chess g) \<and> \<not> isStalemate L (chess g) \<and>
         \<not> isThreefoldRepetition L (chess g) \<and> isInsufficientMaterial L (chess g) \<longrightarrow>
           ps_reason (pub_status ?ps) = Some ''insufficient_material''"
      using bare [OF go] by simp
    have c6: "\<not> isCheckmate L (chess g) \<and> \<not> isStalemate L (chess g) \<and>
         \<not> isThreefoldRepetition L (chess g) \<and> \<not> isInsufficientMaterial L (chess g) \<and>
         isDraw L (chess g) \<longrightarrow>
           ps_reason (pub_status ?ps) = Some ''draw''"
      using drawn [OF go] by simp
    have c7: "\<not> isCheckmate L (chess g) \<and> \<not> isStalemate L (chess g) \<and>
         \<not> isThreefoldRepetition L (chess g) \<and> \<not> isInsufficientMaterial L (chess g) \<and>
         \<not> isDraw L (chess g) \<longrightarrow>
           ps_reason (pub_status ?ps) = Some ''game_over''"
      using other [OF go] by simp
    from fin c1 c2 c3 c4 c5 c6 c7
    show "ps_state (pub_status ?ps) = Finished \<and>
        (isCheckmate L (chess g) \<longrightarrow>
           ps_winner (pub_status ?ps) = Some (opponent (chess_turn L (chess g))) \<and>
           ps_reason (pub_status ?ps) = Some ''checkmate'') \<and>
        (\<not> isCheckmate L (chess g) \<longrightarrow> ps_winner (pub_status ?ps) = None) \<and>
        (\<not> isCheckmate L (chess g) \<and> isStalemate L (chess g) \<longrightarrow>
           ps_reason (pub_status ?ps) = Some ''stalemate'') \<and>
        (\<not> isCheckmate L (chess g) \<and> \<not> isStalemate L (chess g) \<and>
         isThreefoldRepetition L (chess g) \<longrightarrow>
           ps_reason (pub_status ?ps) = Some ''threefold'') \<and>
        (\<not> isCheckmate L (chess g) \<and> \<not> isStalemate L (chess g) \<and>
         \<not> isThreefoldRepetition L (chess g) \<and> isInsufficientMaterial L (chess g) \<longrightarrow>
           ps_reason (pub_status ?ps) = Some ''insufficient_material'') \<and>
        (\<not> isCheckmate L (chess g) \<and> \<not> isStalemate L (chess g) \<and>
         \<not> isThreefoldRepetition L (chess g) \<and> \<not> isInsufficientMaterial L (chess g) \<and>
         isDraw L (chess g) \<longrightarrow>
           ps_reason (pub_status ?ps) = Some ''draw'') \<and>
        (\<not> isCheckmate L (chess g) \<and> \<not> isStalemate L (chess g) \<and>
         \<not> isThreefoldRepetition L (chess g) \<and> \<not> isInsufficientMaterial L (chess g) \<and>
         \<not> isDraw L (chess g) \<longrightarrow>
           ps_reason (pub_status ?ps) = Some ''game_over'')"
      by (intro conjI)
  qed
  have live': "\<not> isGameOver L (chess g) \<longrightarrow>
        ps_state (pub_status ?ps) = state (status g) \<and>
        ps_winner (pub_status ?ps) = winner (status g) \<and>
        ps_reason (pub_status ?ps) = reason (status g)"
    using live by (rule impI)
  from shown flag over live' show ?thesis
    by (intro exI [of _ ?ps] conjI)
qed

text \<open>
  On the sample game left in \<open>waiting\<close> on a mating position, the projector reports
  \<open>finished\<close>, won by White by checkmate. With a rules library that calls the same
  position a stalemate, it reports \<open>finished\<close> by stalemate with no winner.
\<close>

theorem projector_recomputes_termination_witness:
  "(\<exists>ps. getGameState toyChess [(''g1'', demo_mated)] ''g1'' 0 = Some ps \<and>
      state (status demo_mated) = Waiting \<and>
      isGameOver toyChess (chess demo_mated) \<and>
      ps_state (pub_status ps) = Finished \<and>
      ps_winner (pub_status ps) = Some W \<and>
      ps_reason (pub_status ps) = Some ''checkmate'') \<and>
   (\<exists>ps. getGameState
           (toyChess\<lparr>supports_isCheckmate := None, supports_isStalemate := Some (\<lambda>n. n \<ge> 3)\<rparr>)
           [(''g1'', demo_mated)] ''g1'' 0 = Some ps \<and>
      ps_state (pub_status ps) = Finished \<and>
      ps_winner (pub_status ps) = None \<and>
      ps_reason (pub_status ps) = Some ''stalemate'') \<and>
   (\<exists>ps. getGameState toyChess [(''g1'', demo_flagged)] ''g1'' 0 = Some ps \<and>
      \<not> isGameOver toyChess (chess demo_flagged) \<and>
      ps_state (pub_status ps) = Finished \<and>
      ps_winner (pub_status ps) = Some B \<and>
      ps_reason (pub_status ps) = Some ''timeout'')"
proof -
  let ?staleChess =
    "toyChess\<lparr>supports_isCheckmate := None, supports_isStalemate := Some (\<lambda>n. n \<ge> 3)\<rparr>"
  have held: "map_of [(''g1'', demo_mated)] ''g1'' = Some demo_mated"
    by simp
  have over: "isGameOver toyChess (chess demo_mated)"
    and mate: "isCheckmate toyChess (chess demo_mated)"
    and turn: "chess_turn toyChess (chess demo_mated) = B"
    and st: "state (status demo_mated) = Waiting"
    by (simp_all add: demo_mated_def toyChess_def isGameOver_def isCheckmate_def reset_status_def)
  from projector_recomputes_termination [OF held, of toyChess 0] over mate turn st
  have first: "\<exists>ps. getGameState toyChess [(''g1'', demo_mated)] ''g1'' 0 = Some ps \<and>
      state (status demo_mated) = Waiting \<and>
      isGameOver toyChess (chess demo_mated) \<and>
      ps_state (pub_status ps) = Finished \<and>
      ps_winner (pub_status ps) = Some W \<and>
      ps_reason (pub_status ps) = Some ''checkmate''"
    by auto
  have over': "isGameOver ?staleChess (chess demo_mated)"
    and mate': "\<not> isCheckmate ?staleChess (chess demo_mated)"
    and stale': "isStalemate ?staleChess (chess demo_mated)"
    by (simp_all add: demo_mated_def toyChess_def isGameOver_def isCheckmate_def isStalemate_def)
  from projector_recomputes_termination [OF held, of ?staleChess 0] over' mate' stale'
  have second: "\<exists>ps. getGameState ?staleChess [(''g1'', demo_mated)] ''g1'' 0 = Some ps \<and>
      ps_state (pub_status ps) = Finished \<and>
      ps_winner (pub_status ps) = None \<and>
      ps_reason (pub_status ps) = Some ''stalemate''"
    by auto
  have held3: "map_of [(''g1'', demo_flagged)] ''g1'' = Some demo_flagged"
    by simp
  have live3: "\<not> isGameOver toyChess (chess demo_flagged)"
    and st3: "status demo_flagged = \<lparr>state = Finished, winner = Some B, reason = Some ''timeout''\<rparr>"
    by (simp_all add: demo_flagged_def toyChess_def isGameOver_def timeout_for_def)
  from projector_recomputes_termination [OF held3, of toyChess 0] live3 st3
  have third: "\<exists>ps. getGameState toyChess [(''g1'', demo_flagged)] ''g1'' 0 = Some ps \<and>
      \<not> isGameOver toyChess (chess demo_flagged) \<and>
      ps_state (pub_status ps) = Finished \<and>
      ps_winner (pub_status ps) = Some B \<and>
      ps_reason (pub_status ps) = Some ''timeout''"
    by auto
  from first second third show ?thesis
    by blast
qed

subsection \<open>Preconditions of a move\<close>

lemma failure_kinds:
  "kind_of not_found = NotFound"
  "kind_of playerId_required = ValidationError"
  "kind_of (not_active st) = Conflict"
  "kind_of only_players_may_move = Forbidden"
  "kind_of not_your_turn = Conflict"
  by (simp_all add: kind_of_def not_found_def playerId_required_def not_active_def
      only_players_may_move_def not_your_turn_def)

lemma failures_distinct:
  "distinct [not_found, playerId_required, not_active st, only_players_may_move, not_your_turn]"
  by (simp add: not_found_def playerId_required_def not_active_def
      only_players_may_move_def not_your_turn_def)

lemma makeMove_rejected_early:
  assumes "map_of S gameId = Some g" and "assertPlayerCanMove L g playerId = Inl f"
  shows "makeMove L S gameId playerId src dst promotion atMs stamp = (S, Rejected f)"
  using assms by (simp add: makeMove_def makeMove_on_def map_set_same)

text \<open>
  Claim C5. \<open>makeMove\<close> checks, in this order: the game exists (else NotFound), a
  \<open>playerId\<close> is given (else ValidationError), the state is \<open>active\<close> (else Conflict),
  the \<open>playerId\<close> is that of a colour slot (else Forbidden), and that colour is the one to
  move (else Conflict). A failed check returns its own failure object and the store as it
  was. When all five hold, and only then, the call is the clock commit and the rest of the
  pipeline, \<open>commit_and_apply\<close>, on the game. The five failure objects are pairwise
  different.
\<close>

theorem makeMove_preconditions_in_order:
  "(map_of S gameId = None \<longrightarrow>
      makeMove L S gameId playerId src dst promotion atMs stamp = (S, Rejected not_found)) \<and>
   (\<forall>g. map_of S gameId = Some g \<longrightarrow>
      (\<not> truthy_id playerId \<longrightarrow>
         makeMove L S gameId playerId src dst promotion atMs stamp =
           (S, Rejected playerId_required)) \<and>
      (truthy_id playerId \<and> state (status g) \<noteq> Active \<longrightarrow>
         makeMove L S gameId playerId src dst promotion atMs stamp =
           (S, Rejected (not_active (state (status g))))) \<and>
      (truthy_id playerId \<and> state (status g) = Active \<and> seat_of g playerId = None \<longrightarrow>
         makeMove L S gameId playerId src dst promotion atMs stamp =
           (S, Rejected only_players_may_move)) \<and>
      (\<forall>c. truthy_id playerId \<and> state (status g) = Active \<and> seat_of g playerId = Some c \<and>
           chess_turn L (chess g) \<noteq> c \<longrightarrow>
         makeMove L S gameId playerId src dst promotion atMs stamp =
           (S, Rejected not_your_turn)) \<and>
      (\<forall>c. truthy_id playerId \<and> state (status g) = Active \<and> seat_of g playerId = Some c \<and>
           chess_turn L (chess g) = c \<longrightarrow>
         makeMove L S gameId playerId src dst promotion atMs stamp =
           (map_set S gameId (fst (commit_and_apply L g c src dst promotion atMs stamp)),
            snd (commit_and_apply L g c src dst promotion atMs stamp)))) \<and>
   kind_of not_found = NotFound \<and>
   kind_of playerId_required = ValidationError \<and>
   (\<forall>st. kind_of (not_active st) = Conflict) \<and>
   kind_of only_players_may_move = Forbidden \<and>
   kind_of not_your_turn = Conflict \<and>
   (\<forall>st. distinct [not_found, playerId_required, not_active st, only_players_may_move,
                  not_your_turn])"
proof -
  have absent: "map_of S gameId = None \<Longrightarrow>
      makeMove L S gameId playerId src dst promotion atMs stamp = (S, Rejected not_found)"
    by (simp add: makeMove_def)
  have found: "makeMove L S gameId playerId src dst promotion atMs stamp =
        (map_set S gameId (fst (commit_and_apply L g c src dst promotion atMs stamp)),
         snd (commit_and_apply L g c src dst promotion atMs stamp))"
    if "map_of S gameId = Some g" "assertPlayerCanMove L g playerId = Inr c" for g c
    using that by (simp add: makeMove_def makeMove_on_def split: prod.splits)
  have p2: "\<not> truthy_id playerId \<Longrightarrow> assertPlayerCanMove L g playerId = Inl playerId_required"
    for g by (simp add: assertPlayerCanMove_def)
  have p3: "truthy_id playerId \<Longrightarrow> state (status g) \<noteq> Active \<Longrightarrow>
      assertPlayerCanMove L g playerId = Inl (not_active (state (status g)))"
    for g by (simp add: assertPlayerCanMove_def)
  have p4: "truthy_id playerId \<Longrightarrow> state (status g) = Active \<Longrightarrow> seat_of g playerId = None \<Longrightarrow>
      assertPlayerCanMove L g playerId = Inl only_players_may_move"
    for g by (simp add: assertPlayerCanMove_def)
  have p5: "truthy_id playerId \<Longrightarrow> state (status g) = Active \<Longrightarrow> seat_of g playerId = Some c \<Longrightarrow>
      chess_turn L (chess g) \<noteq> c \<Longrightarrow> assertPlayerCanMove L g playerId = Inl not_your_turn"
    for g c by (simp add: assertPlayerCanMove_def)
  have p6: "truthy_id playerId \<Longrightarrow> state (status g) = Active \<Longrightarrow> seat_of g playerId = Some c \<Longrightarrow>
      chess_turn L (chess g) = c \<Longrightarrow> assertPlayerCanMove L g playerId = Inr c"
    for g c by (simp add: assertPlayerCanMove_def)
  have rej: "makeMove L S gameId playerId src dst promotion atMs stamp = (S, Rejected f)"
    if "map_of S gameId = Some g" "assertPlayerCanMove L g playerId = Inl f" for g f
    using that by (rule makeMove_rejected_early)
  have found_all: "\<forall>g. map_of S gameId = Some g \<longrightarrow>
      (\<not> truthy_id playerId \<longrightarrow>
         makeMove L S gameId playerId src dst promotion atMs stamp =
           (S, Rejected playerId_required)) \<and>
      (truthy_id playerId \<and> state (status g) \<noteq> Active \<longrightarrow>
         makeMove L S gameId playerId src dst promotion atMs stamp =
           (S, Rejected (not_active (state (status g))))) \<and>
      (truthy_id playerId \<and> state (status g) = Active \<and> seat_of g playerId = None \<longrightarrow>
         makeMove L S gameId playerId src dst promotion atMs stamp =
           (S, Rejected only_players_may_move)) \<and>
      (\<forall>c. truthy_id playerId \<and> state (status g) = Active \<and> seat_of g playerId = Some c \<and>
           chess_turn L (chess g) \<noteq> c \<longrightarrow>
         makeMove L S gameId playerId src dst promotion atMs stamp =
           (S, Rejected not_your_turn)) \<and>
      (\<forall>c. truthy_id playerId \<and> state (status g) = Active \<and> seat_of g playerId = Some c \<and>
           chess_turn L (chess g) = c \<longrightarrow>
         makeMove L S gameId playerId src dst promotion atMs stamp =
           (map_set S gameId (fst (commit_and_apply L g c src dst promotion atMs stamp)),
            snd (commit_and_apply L g c src dst promotion atMs stamp)))"
    using rej found p2 p3 p4 p5 p6 by blast
  show ?thesis
    using absent found_all failure_kinds failures_distinct by blast
qed


lemma demo_facts:
  "state (status demo) = Active"
  "seat_of demo (Str ''pw'') = Some W"
  "seat_of demo (Str ''pb'') = Some B"
  "seat_of demo (Str ''zz'') = None"
  "chess_turn toyChess (chess demo) = W"
  "state (status demo_paused) = Waiting"
  by (simp_all add: demo_def demo_paused_def seat_of_def toyChess_def reset_status_def)

text \<open>One call for each of the five checks failing, and one passing them all.\<close>

theorem makeMove_preconditions_in_order_witness:
  "makeMove toyChess [] ''g1'' (Str ''pw'') ''a'' ''b'' None 6000 ''t2'' = ([], Rejected not_found) \<and>
   makeMove toyChess [(''g1'', demo)] ''g1'' Undefined ''a'' ''b'' None 6000 ''t2'' =
     ([(''g1'', demo)], Rejected playerId_required) \<and>
   makeMove toyChess [(''g1'', demo_paused)] ''g1'' (Str ''pw'') ''a'' ''b'' None 6000 ''t2'' =
     ([(''g1'', demo_paused)], Rejected (not_active Waiting)) \<and>
   makeMove toyChess [(''g1'', demo)] ''g1'' (Str ''zz'') ''a'' ''b'' None 6000 ''t2'' =
     ([(''g1'', demo)], Rejected only_players_may_move) \<and>
   makeMove toyChess [(''g1'', demo)] ''g1'' (Str ''pb'') ''a'' ''b'' None 6000 ''t2'' =
     ([(''g1'', demo)], Rejected not_your_turn) \<and>
   makeMove toyChess [(''g1'', demo)] ''g1'' (Str ''pw'') ''a'' ''b'' None 6000 ''t2'' =
     ([(''g1'', fst (commit_and_apply toyChess demo W ''a'' ''b'' None 6000 ''t2''))],
      snd (commit_and_apply toyChess demo W ''a'' ''b'' None 6000 ''t2''))"
proof -
  have a1: "makeMove toyChess [] ''g1'' (Str ''pw'') ''a'' ''b'' None 6000 ''t2'' =
      ([], Rejected not_found)"
    using makeMove_preconditions_in_order [of "[]" "''g1''" toyChess "Str ''pw''"] by simp
  have a2: "makeMove toyChess [(''g1'', demo)] ''g1'' Undefined ''a'' ''b'' None 6000 ''t2'' =
      ([(''g1'', demo)], Rejected playerId_required)"
    using makeMove_preconditions_in_order [of "[(''g1'', demo)]" "''g1''" toyChess Undefined]
    by simp
  have a3: "makeMove toyChess [(''g1'', demo_paused)] ''g1'' (Str ''pw'') ''a'' ''b'' None 6000 ''t2'' =
      ([(''g1'', demo_paused)], Rejected (not_active Waiting))"
    using makeMove_preconditions_in_order
      [of "[(''g1'', demo_paused)]" "''g1''" toyChess "Str ''pw''" "''a''" "''b''" None 6000 "''t2''"]
    by (simp add: demo_facts)
  have a4: "makeMove toyChess [(''g1'', demo)] ''g1'' (Str ''zz'') ''a'' ''b'' None 6000 ''t2'' =
      ([(''g1'', demo)], Rejected only_players_may_move)"
    using makeMove_preconditions_in_order
      [of "[(''g1'', demo)]" "''g1''" toyChess "Str ''zz''" "''a''" "''b''" None 6000 "''t2''"]
    by (simp add: demo_facts)
  have a5: "makeMove toyChess [(''g1'', demo)] ''g1'' (Str ''pb'') ''a'' ''b'' None 6000 ''t2'' =
      ([(''g1'', demo)], Rejected not_your_turn)"
    using makeMove_preconditions_in_order
      [of "[(''g1'', demo)]" "''g1''" toyChess "Str ''pb''" "''a''" "''b''" None 6000 "''t2''"]
    by (simp add: demo_facts)
  have a6: "makeMove toyChess [(''g1'', demo)] ''g1'' (Str ''pw'') ''a'' ''b'' None 6000 ''t2'' =
      ([(''g1'', fst (commit_and_apply toyChess demo W ''a'' ''b'' None 6000 ''t2''))],
       snd (commit_and_apply toyChess demo W ''a'' ''b'' None 6000 ''t2''))"
    using makeMove_preconditions_in_order
      [of "[(''g1'', demo)]" "''g1''" toyChess "Str ''pw''" "''a''" "''b''" None 6000 "''t2''"]
    by (simp add: demo_facts)
  from a1 a2 a3 a4 a5 a6 show ?thesis by blast
qed

subsection \<open>The persisted record\<close>

lemma serialized_players: "s_players (serializeGame g) = players g"
  by (simp add: serializeGame_def)

lemma serialized_spectators: "s_spectators (serializeGame g) = spectators g"
proof -
  have "map (\<lambda>(k, n). (k, n)) xs = xs" for xs :: "(string \<times> string option) list"
    by (induction xs) auto
  then show ?thesis by (simp add: serializeGame_def)
qed

text \<open>
  Claim C9, as stated, fails: the record written for a player slot holds the \<open>present\<close>
  flag with the value the live game has. Two games that differ in that flag only are
  written as different records.
\<close>

theorem serialized_slot_has_present_counterexample:
  "present (w_player (s_players (serializeGame demo))) \<and>
   \<not> present (w_player (s_players (serializeGame
        (demo\<lparr>players := (players demo)\<lparr>w_player := (w_player (players demo))\<lparr>present := False\<rparr>\<rparr>\<rparr>)))) \<and>
   serializeGame demo \<noteq>
     serializeGame
       (demo\<lparr>players := (players demo)\<lparr>w_player := (w_player (players demo))\<lparr>present := False\<rparr>\<rparr>\<rparr>)"
  by (auto simp: serializeGame_def demo_def)

text \<open>
  Claim C9, amended. The record written for a game holds its id, both time stamps, the
  initial position token, the whole move list, the cursor, the spectator list, the
  status, the clock totals and the active colour, with \<open>running\<close> written as false and
  \<open>lastTickAt\<close> as null; both player slots are written whole: id, name and the
  \<open>present\<close> flag. \<open>saveToDisk\<close> writes this record for every game of the store, in order.
\<close>

theorem serializeGame_contents:
  "s_id (serializeGame g) = g_id g \<and>
   s_createdAt (serializeGame g) = createdAt g \<and>
   s_updatedAt (serializeGame g) = updatedAt g \<and>
   s_initialFen (serializeGame g) = initialFen g \<and>
   s_moves (serializeGame g) = moves g \<and>
   s_moveCursor (serializeGame g) = Some (moveCursor g) \<and>
   s_spectators (serializeGame g) = spectators g \<and>
   s_status (serializeGame g) = status g \<and>
   sc_initialMs (s_clocks (serializeGame g)) = Some (initialMs (clocks g)) \<and>
   sc_incrementMs (s_clocks (serializeGame g)) = Some (incrementMs (clocks g)) \<and>
   sc_wRemainingMs (s_clocks (serializeGame g)) = Some (wRemainingMs (clocks g)) \<and>
   sc_bRemainingMs (s_clocks (serializeGame g)) = Some (bRemainingMs (clocks g)) \<and>
   sc_activeColor (s_clocks (serializeGame g)) = activeColor (clocks g) \<and>
   sc_running (s_clocks (serializeGame g)) = False \<and>
   sc_lastTickAt (s_clocks (serializeGame g)) = None \<and>
   s_players (serializeGame g) = players g \<and>
   present (w_player (s_players (serializeGame g))) = present (w_player (players g)) \<and>
   present (b_player (s_players (serializeGame g))) = present (b_player (players g)) \<and>
   saveToDisk S = map (\<lambda>kg. serializeGame (snd kg)) S"
proof -
  have clocks_written:
    "s_clocks (serializeGame g) =
       \<lparr>sc_initialMs = Some (initialMs (clocks g)),
        sc_incrementMs = Some (incrementMs (clocks g)),
        sc_wRemainingMs = Some (wRemainingMs (clocks g)),
        sc_bRemainingMs = Some (bRemainingMs (clocks g)),
        sc_activeColor = activeColor (clocks g),
        sc_running = False, sc_lastTickAt = None\<rparr>"
    by (simp add: serializeGame_def)
  have plain:
    "s_id (serializeGame g) = g_id g" "s_createdAt (serializeGame g) = createdAt g"
    "s_updatedAt (serializeGame g) = updatedAt g" "s_initialFen (serializeGame g) = initialFen g"
    "s_moves (serializeGame g) = moves g" "s_moveCursor (serializeGame g) = Some (moveCursor g)"
    "s_status (serializeGame g) = status g"
    by (simp_all add: serializeGame_def)
  have all: "saveToDisk S = map (\<lambda>kg. serializeGame (snd kg)) S"
    by (simp add: saveToDisk_def case_prod_unfold)
  show ?thesis
    by (simp add: plain clocks_written serialized_players serialized_spectators all)
qed

subsection \<open>Who may undo and redo\<close>

text \<open>
  Claim C6 holds for every caller whose \<open>playerId\<close> is a string, and fails on the code for
  the \<open>playerId\<close> \<open>null\<close>: the test \<open>playerId === game.players.b.id\<close> is true when the black
  slot is vacant, since a vacant slot's id is \<open>null\<close>. On the paused sample game, whose
  only seated id is \<open>pw\<close>, an undo sent with \<open>playerId: null\<close> is not refused as Forbidden:
  it takes the move back, and the redo sent the same way plays it again.
\<close>

theorem undo_redo_accept_null_playerId:
  "p_id (w_player (players demo_paused)) = Some ''pw'' \<and>
   p_id (b_player (players demo_paused)) = None \<and>
   fst (undo toyChess [(''g1'', demo_paused)] ''g1'' Null ''t3'' 9000) =
     [(''g1'', demo_paused\<lparr>moveCursor := 0, chess := 0, updatedAt := ''t3''\<rparr>)] \<and>
   snd (undo toyChess [(''g1'', demo_paused)] ''g1'' Null ''t3'' 9000) =
     Returned (publicState toyChess
                 (demo_paused\<lparr>moveCursor := 0, chess := 0, updatedAt := ''t3''\<rparr>) 9000) \<and>
   fst (redo toyChess
          [(''g1'', demo_paused\<lparr>moveCursor := 0, chess := 0, updatedAt := ''t3''\<rparr>)]
          ''g1'' Null ''t4'' 9500) =
     [(''g1'', demo_paused\<lparr>updatedAt := ''t4''\<rparr>)] \<and>
   snd (redo toyChess
          [(''g1'', demo_paused\<lparr>moveCursor := 0, chess := 0, updatedAt := ''t3''\<rparr>)]
          ''g1'' Null ''t4'' 9500) =
     Returned (publicState toyChess (demo_paused\<lparr>updatedAt := ''t4''\<rparr>) 9500)"
  by (simp add: undo_def redo_def undo_on_def redo_on_def isPlayer_def rebuild_and_reset_def
      rebuildChess_def replay_from.simps replay_move_def demo_paused_def demo_def vacant_def
      reset_status_def ply_def toyChess_def Let_def)

subsection \<open>Reading the clock\<close>

lemma publicState_fields:
  "pub_gameId (publicState L g atMs) = g_id g"
  "pub_fen (publicState L g atMs) = chess_fen L (chess g)"
  "pub_turn (publicState L g atMs) = chess_turn L (chess g)"
  "pub_moveCursor (publicState L g atMs) = moveCursor g"
  "pub_players (publicState L g atMs) = publicPlayers g"
  "pub_clocks (publicState L g atMs) = effectiveClocksSnapshot g atMs"
  "pub_createdAt (publicState L g atMs) = createdAt g"
  "pub_updatedAt (publicState L g atMs) = updatedAt g"
  by (simp_all add: publicState_def Let_def)

lemma getGameState_found:
  "map_of S gameId = Some g \<Longrightarrow> getGameState L S gameId now = Some (publicState L g now)"
  by (simp add: getGameState_def)

text \<open>The reading of a running clock whose anchor is a number.\<close>

lemma snapshot_running:
  assumes "running (clocks g)" and "activeColor (clocks g) = Some c"
    and "lastTickAt (clocks g) = Some t"
  shows "cv_wRemainingMs (effectiveClocksSnapshot g atMs) =
       max 0 (if c = W then wRemainingMs (clocks g) - max 0 (atMs - t) else wRemainingMs (clocks g))"
    and "cv_bRemainingMs (effectiveClocksSnapshot g atMs) =
       max 0 (if c = B then bRemainingMs (clocks g) - max 0 (atMs - t) else bRemainingMs (clocks g))"
  using assms by (simp_all add: effectiveClocksSnapshot_def Let_def)

lemma snapshot_stopped:
  assumes "\<not> running (clocks g) \<or> activeColor (clocks g) = None \<or> lastTickAt (clocks g) = None"
  shows "cv_wRemainingMs (effectiveClocksSnapshot g atMs) = max 0 (wRemainingMs (clocks g))"
    and "cv_bRemainingMs (effectiveClocksSnapshot g atMs) = max 0 (bRemainingMs (clocks g))"
  using assms by (auto simp: effectiveClocksSnapshot_def Let_def split: option.splits)

lemma snapshot_other_fields:
  "cv_initialMs (effectiveClocksSnapshot g atMs) = initialMs (clocks g)"
  "cv_incrementMs (effectiveClocksSnapshot g atMs) = incrementMs (clocks g)"
  "cv_activeColor (effectiveClocksSnapshot g atMs) = activeColor (clocks g)"
  "cv_running (effectiveClocksSnapshot g atMs) = running (clocks g)"
  by (simp_all add: effectiveClocksSnapshot_def Let_def)

lemma snapshot_depends_on_clocks:
  "clocks g' = clocks g \<Longrightarrow> effectiveClocksSnapshot g' atMs = effectiveClocksSnapshot g atMs"
  by (simp add: effectiveClocksSnapshot_def)

subsection \<open>The commit before a move\<close>

lemma commit_no_timeout:
  assumes "0 < cv_wRemainingMs (effectiveClocksSnapshot g atMs)"
    and "0 < cv_bRemainingMs (effectiveClocksSnapshot g atMs)"
  shows "commitClockBeforeMove g atMs =
     (g\<lparr>clocks := (clocks g)\<lparr>wRemainingMs := cv_wRemainingMs (effectiveClocksSnapshot g atMs),
                              bRemainingMs := cv_bRemainingMs (effectiveClocksSnapshot g atMs)\<rparr>\<rparr>,
      False)"
  using assms by (simp add: commitClockBeforeMove_def Let_def)

lemma commit_timeout_white:
  assumes "cv_wRemainingMs (effectiveClocksSnapshot g atMs) \<le> 0"
  shows "commitClockBeforeMove g atMs =
     (g\<lparr>clocks := stop_clock
            ((clocks g)\<lparr>wRemainingMs := cv_wRemainingMs (effectiveClocksSnapshot g atMs),
                       bRemainingMs := cv_bRemainingMs (effectiveClocksSnapshot g atMs)\<rparr>),
        status := timeout_for B\<rparr>,
      True)"
  using assms by (simp add: commitClockBeforeMove_def Let_def)

lemma commit_timeout_black:
  assumes "0 < cv_wRemainingMs (effectiveClocksSnapshot g atMs)"
    and "cv_bRemainingMs (effectiveClocksSnapshot g atMs) \<le> 0"
  shows "commitClockBeforeMove g atMs =
     (g\<lparr>clocks := stop_clock
            ((clocks g)\<lparr>wRemainingMs := cv_wRemainingMs (effectiveClocksSnapshot g atMs),
                       bRemainingMs := cv_bRemainingMs (effectiveClocksSnapshot g atMs)\<rparr>),
        status := timeout_for W\<rparr>,
      True)"
  using assms by (simp add: commitClockBeforeMove_def Let_def)

subsection \<open>The replay loop\<close>

lemma replay_from_take:
  "int i \<le> cursor \<Longrightarrow> cursor \<le> int (length ms) \<Longrightarrow>
   replay_from L ms cursor i c =
     Some (foldl (replay_move L) c (take (nat cursor - i) (drop i ms)))"
proof (induction L ms cursor i c rule: replay_from.induct)
  case (1 L ms cursor i c)
  show ?case
  proof (cases "int i < cursor")
    case True
    with "1.prems" have inside: "i < length ms" by linarith
    from True have more: "nat cursor - i = Suc (nat cursor - Suc i)" by linarith
    from True have "int (Suc i) \<le> cursor" by simp
    with "1.IH" [OF True inside] "1.prems"
    have "replay_from L ms cursor (Suc i) (replay_move L c (ms ! i)) =
        Some (foldl (replay_move L) (replay_move L c (ms ! i))
                (take (nat cursor - Suc i) (drop (Suc i) ms)))"
      by simp
    moreover have "drop i ms = ms ! i # drop (Suc i) ms"
      using inside by (simp add: Cons_nth_drop_Suc)
    ultimately show ?thesis
      using True inside more by (subst replay_from.simps) simp
  next
    case False
    with "1.prems" have "nat cursor - i = 0" by linarith
    with False show ?thesis by (subst replay_from.simps) simp
  qed
qed

lemma replay_from_start:
  "cursor_ok g \<Longrightarrow>
   replay_from L (moves g) (moveCursor g) 0 (chess_load L (initialFen g)) =
     Some (replayed L (initialFen g) (take (nat (moveCursor g)) (moves g)))"
  using replay_from_take [of 0 "moveCursor g" "moves g" L "chess_load L (initialFen g)"]
  by (simp add: cursor_ok_def replayed_def)

lemma rebuildChess_total:
  "cursor_ok g \<Longrightarrow>
   rebuildChess L g =
     Some (g\<lparr>chess := replayed L (initialFen g) (take (nat (moveCursor g)) (moves g))\<rparr>)"
  by (simp add: rebuildChess_def replay_from_start)

lemma position_ok_replayed:
  "cursor_ok g \<Longrightarrow>
   position_ok L g \<longleftrightarrow> chess g = replayed L (initialFen g) (take (nat (moveCursor g)) (moves g))"
  by (auto simp: position_ok_def replay_from_start)

lemma cursor_ok_step:
  "cursor_ok g \<Longrightarrow> 0 < moveCursor g \<Longrightarrow> cursor_ok (g\<lparr>moveCursor := moveCursor g - 1\<rparr>)"
  "cursor_ok g \<Longrightarrow> moveCursor g < int (length (moves g)) \<Longrightarrow>
     cursor_ok (g\<lparr>moveCursor := moveCursor g + 1\<rparr>)"
  by (simp_all add: cursor_ok_def)

text \<open>What a successful undo or redo leaves: the game with the cursor at \<open>k\<close>.\<close>

lemma rebuild_and_reset_at:
  assumes "cursor_ok (g\<lparr>moveCursor := k\<rparr>)"
  shows "rebuild_and_reset L (g\<lparr>moveCursor := k\<rparr>) stamp now =
     (g\<lparr>moveCursor := k, chess := replayed L (initialFen g) (take (nat k) (moves g)),
        status := reset_status, updatedAt := stamp\<rparr>,
      Returned (publicState L
        (g\<lparr>moveCursor := k, chess := replayed L (initialFen g) (take (nat k) (moves g)),
           status := reset_status, updatedAt := stamp\<rparr>) now))"
  using rebuildChess_total [OF assms, of L]
  by (simp add: rebuild_and_reset_def Let_def)

lemma undo_on_cases:
  assumes "cursor_ok g"
  shows "undo_on L g playerId stamp now =
     (if running (clocks g) then
        (g, Rejected \<lparr>error = ''Undo is disabled while clocks are running'', statusCode = 409\<rparr>)
      else if \<not> isPlayer g playerId then
        (g, Rejected \<lparr>error = ''Only players may undo'', statusCode = 403\<rparr>)
      else if moveCursor g \<le> 0 then
        (g, Rejected \<lparr>error = ''Nothing to undo'', statusCode = 409\<rparr>)
      else
        (g\<lparr>moveCursor := moveCursor g - 1,
           chess := replayed L (initialFen g) (take (nat (moveCursor g - 1)) (moves g)),
           status := reset_status, updatedAt := stamp\<rparr>,
         Returned (publicState L
           (g\<lparr>moveCursor := moveCursor g - 1,
              chess := replayed L (initialFen g) (take (nat (moveCursor g - 1)) (moves g)),
              status := reset_status, updatedAt := stamp\<rparr>) now)))"
proof (cases "running (clocks g) \<or> \<not> isPlayer g playerId \<or> moveCursor g \<le> 0")
  case True
  then show ?thesis by (auto simp: undo_on_def)
next
  case False
  then have "cursor_ok (g\<lparr>moveCursor := moveCursor g - 1\<rparr>)"
    using assms by (simp add: cursor_ok_step)
  from rebuild_and_reset_at [OF this] False show ?thesis
    by (simp add: undo_on_def)
qed

lemma redo_on_cases:
  assumes "cursor_ok g"
  shows "redo_on L g playerId stamp now =
     (if running (clocks g) then
        (g, Rejected \<lparr>error = ''Redo is disabled while clocks are running'', statusCode = 409\<rparr>)
      else if \<not> isPlayer g playerId then
        (g, Rejected \<lparr>error = ''Only players may redo'', statusCode = 403\<rparr>)
      else if moveCursor g \<ge> int (length (moves g)) then
        (g, Rejected \<lparr>error = ''Nothing to redo'', statusCode = 409\<rparr>)
      else
        (g\<lparr>moveCursor := moveCursor g + 1,
           chess := replayed L (initialFen g) (take (nat (moveCursor g + 1)) (moves g)),
           status := reset_status, updatedAt := stamp\<rparr>,
         Returned (publicState L
           (g\<lparr>moveCursor := moveCursor g + 1,
              chess := replayed L (initialFen g) (take (nat (moveCursor g + 1)) (moves g)),
              status := reset_status, updatedAt := stamp\<rparr>) now)))"
proof (cases "running (clocks g) \<or> \<not> isPlayer g playerId \<or> moveCursor g \<ge> int (length (moves g))")
  case True
  then show ?thesis by (auto simp: redo_on_def)
next
  case False
  then have "cursor_ok (g\<lparr>moveCursor := moveCursor g + 1\<rparr>)"
    using assms by (simp add: cursor_ok_step)
  from rebuild_and_reset_at [OF this] False show ?thesis
    by (simp add: redo_on_def)
qed


subsection \<open>Undo, then redo\<close>

lemma isPlayer_players: "players g' = players g \<Longrightarrow> isPlayer g' playerId = isPlayer g playerId"
  by (simp add: isPlayer_def)

lemma undo_Returned:
  assumes "cursor_ok g" and "undo_on L g playerId stamp now = (g1, Returned ps1)"
  shows "\<not> running (clocks g) \<and> isPlayer g playerId \<and> 0 < moveCursor g \<and>
     g1 = g\<lparr>moveCursor := moveCursor g - 1,
            chess := replayed L (initialFen g) (take (nat (moveCursor g - 1)) (moves g)),
            status := reset_status, updatedAt := stamp\<rparr>"
  using assms(2) unfolding undo_on_cases [OF assms(1)]
  by (auto split: if_splits)

text \<open>
  Claim C4. Take a game of the store that satisfies the invariants of a session (the
  cursor within the move list, the position held being the replay of the applied prefix).
  When \<open>undo\<close> succeeds on it, a \<open>redo\<close> by the same caller right after succeeds too, and
  leaves the game with the position held before the undo (hence the same position
  token), the same cursor and the same move list, so the same applied prefix.
\<close>

theorem undo_then_redo_restores:
  assumes found: "map_of S gameId = Some g"
    and cur: "cursor_ok g"
    and pos: "position_ok L g"
    and undone: "undo L S gameId playerId stamp now = (S1, Returned ps1)"
  shows "\<exists>g1 S2 g2 ps2.
     map_of S1 gameId = Some g1 \<and> moveCursor g1 = moveCursor g - 1 \<and>
     redo L S1 gameId playerId stamp' now' = (S2, Returned ps2) \<and>
     map_of S2 gameId = Some g2 \<and>
     chess g2 = chess g \<and>
     chess_fen L (chess g2) = chess_fen L (chess g) \<and>
     moveCursor g2 = moveCursor g \<and>
     moves g2 = moves g \<and>
     take (nat (moveCursor g2)) (moves g2) = take (nat (moveCursor g)) (moves g) \<and>
     pub_fen ps2 = chess_fen L (chess g) \<and>
     pub_moveCursor ps2 = moveCursor g"
proof -
  obtain g1 r1 where on: "undo_on L g playerId stamp now = (g1, r1)"
    by (cases "undo_on L g playerId stamp now")
  with found undone have S1: "S1 = map_set S gameId g1" and r1: "r1 = Returned ps1"
    by (simp_all add: undo_def)
  from undo_Returned [OF cur on [unfolded r1]]
  have stopped: "\<not> running (clocks g)" and seated: "isPlayer g playerId"
    and some: "0 < moveCursor g"
    and g1: "g1 = g\<lparr>moveCursor := moveCursor g - 1,
            chess := replayed L (initialFen g) (take (nat (moveCursor g - 1)) (moves g)),
            status := reset_status, updatedAt := stamp\<rparr>"
    by simp_all
  have cur1: "cursor_ok g1"
    using cur some by (simp add: g1 cursor_ok_def)
  have held: "chess g = replayed L (initialFen g) (take (nat (moveCursor g)) (moves g))"
    using pos cur by (simp add: position_ok_replayed)
  define g2 where "g2 = g1\<lparr>moveCursor := moveCursor g1 + 1,
           chess := replayed L (initialFen g1) (take (nat (moveCursor g1 + 1)) (moves g1)),
           status := reset_status, updatedAt := stamp'\<rparr>"
  have guards: "\<not> running (clocks g1)" "isPlayer g1 playerId"
    "\<not> moveCursor g1 \<ge> int (length (moves g1))"
    using stopped seated cur some by (simp_all add: g1 isPlayer_def cursor_ok_def)
  have redone: "redo_on L g1 playerId stamp' now' = (g2, Returned (publicState L g2 now'))"
    unfolding redo_on_cases [OF cur1] g2_def using guards by simp
  have in1: "map_of S1 gameId = Some g1"
    by (simp add: S1 map_of_map_set)
  have same: "chess g2 = chess g" "moveCursor g2 = moveCursor g" "moves g2 = moves g"
    using held by (simp_all add: g2_def g1)
  have "redo L S1 gameId playerId stamp' now' =
      (map_set S1 gameId g2, Returned (publicState L g2 now'))"
    using in1 redone by (simp add: redo_def)
  moreover have "map_of (map_set S1 gameId g2) gameId = Some g2"
    by (simp add: map_of_map_set)
  moreover have "pub_fen (publicState L g2 now') = chess_fen L (chess g)"
    "pub_moveCursor (publicState L g2 now') = moveCursor g"
    using same by (simp_all add: publicState_def Let_def)
  moreover have "moveCursor g1 = moveCursor g - 1"
    by (simp add: g1)
  ultimately show ?thesis
    using in1 same by auto
qed

lemma demo_paused_ok:
  "cursor_ok demo_paused" "position_ok toyChess demo_paused"
  by (simp_all add: cursor_ok_def position_ok_def replay_from.simps replay_move_def
      demo_paused_def demo_def ply_def toyChess_def)

text \<open>White takes back the one move of the paused sample game and plays it again.\<close>

theorem undo_then_redo_restores_witness:
  "cursor_ok demo_paused \<and> position_ok toyChess demo_paused \<and>
   (\<exists>S1 ps1 S2 g2 ps2.
      undo toyChess [(''g1'', demo_paused)] ''g1'' (Str ''pw'') ''t3'' 9000 = (S1, Returned ps1) \<and>
      pub_moveCursor ps1 = 0 \<and>
      redo toyChess S1 ''g1'' (Str ''pw'') ''t4'' 9500 = (S2, Returned ps2) \<and>
      map_of S2 ''g1'' = Some g2 \<and>
      chess g2 = 1 \<and> moveCursor g2 = 1 \<and> moves g2 = [ply] \<and> pub_fen ps2 = ''px'')"
proof -
  have found: "map_of [(''g1'', demo_paused)] ''g1'' = Some demo_paused"
    by simp
  obtain S1 r1 where u: "undo toyChess [(''g1'', demo_paused)] ''g1'' (Str ''pw'') ''t3'' 9000 = (S1, r1)"
    by (cases "undo toyChess [(''g1'', demo_paused)] ''g1'' (Str ''pw'') ''t3'' 9000")
  have r1: "r1 = Returned (publicState toyChess
        (demo_paused\<lparr>moveCursor := 0, chess := 0, updatedAt := ''t3''\<rparr>) 9000)"
    using u
    by (simp add: undo_def undo_on_def isPlayer_def rebuild_and_reset_def
      rebuildChess_def replay_from.simps replay_move_def demo_paused_def demo_def vacant_def
      reset_status_def ply_def toyChess_def Let_def)
  have c1: "pub_moveCursor (publicState toyChess
        (demo_paused\<lparr>moveCursor := 0, chess := 0, updatedAt := ''t3''\<rparr>) 9000) = 0"
    by (simp add: publicState_def Let_def)
  have vals: "chess demo_paused = 1" "moveCursor demo_paused = 1" "moves demo_paused = [ply]"
    "chess_fen toyChess (chess demo_paused) = ''px''"
    by (simp_all add: demo_paused_def toyChess_def)
  from undo_then_redo_restores [OF found demo_paused_ok u [unfolded r1], of "''t4''" 9500]
    u r1 c1 vals demo_paused_ok
  show ?thesis by auto
qed

subsection \<open>A refused move and the clock\<close>

lemma demo_clock:
  "running (clocks demo)" "activeColor (clocks demo) = Some W"
  "lastTickAt (clocks demo) = Some 1000" "wRemainingMs (clocks demo) = 300000"
  "bRemainingMs (clocks demo) = 300000" "incrementMs (clocks demo) = 2000"
  by (simp_all add: demo_def)

lemma demo_reading:
  "cv_wRemainingMs (effectiveClocksSnapshot demo 6000) = 295000"
  "cv_bRemainingMs (effectiveClocksSnapshot demo 6000) = 300000"
  by (simp_all add: snapshot_running [of demo W 1000] demo_clock)

lemma demo_may_move: "assertPlayerCanMove toyChess demo (Str ''pw'') = Inr W"
  by (simp add: assertPlayerCanMove_def demo_facts)

lemma demo_commit: "commitClockBeforeMove demo 6000 = (demo_refused, False)"
proof -
  have "(clocks demo)\<lparr>wRemainingMs := 295000, bRemainingMs := 300000\<rparr> =
      (clocks demo)\<lparr>wRemainingMs := 295000\<rparr>"
    by (simp add: demo_def)
  then show ?thesis
    by (simp add: commit_no_timeout demo_reading demo_refused_def)
qed

lemma demo_refusal:
  "commit_and_apply toyChess demo W ''z'' ''b'' None 6000 ''t2'' = (demo_refused, Rejected illegal_move)"
proof -
  have "chess_move toyChess (chess demo_refused)
      \<lparr>m_from = ''z'', m_to = ''b'', m_promotion = safePromotion None\<rparr> = None"
    by (simp add: toyChess_def)
  then show ?thesis
    by (simp add: commit_and_apply_def demo_commit)
qed

lemma demo_refused_clock:
  "running (clocks demo_refused)" "activeColor (clocks demo_refused) = Some W"
  "lastTickAt (clocks demo_refused) = Some 1000" "wRemainingMs (clocks demo_refused) = 295000"
  "bRemainingMs (clocks demo_refused) = 300000" "incrementMs (clocks demo_refused) = 2000"
  by (simp_all add: demo_refused_def demo_def)

lemma demo_refused_reading:
  "cv_wRemainingMs (effectiveClocksSnapshot demo_refused 6000) = 290000"
  "cv_bRemainingMs (effectiveClocksSnapshot demo_refused 6000) = 300000"
  by (simp_all add: snapshot_running [of demo_refused W 1000] demo_refused_clock)


lemma commit_and_apply_accepted:
  assumes "commitClockBeforeMove g atMs = (g1, False)"
    and "chess_move L (chess g1)
           \<lparr>m_from = src, m_to = dst, m_promotion = safePromotion promotion\<rparr> = Some (c', mv)"
  shows "commit_and_apply L g col src dst promotion atMs stamp =
     ((settle L (applied g1 c' mv) col atMs)\<lparr>updatedAt := stamp\<rparr>,
      Returned (publicState L ((settle L (applied g1 c' mv) col atMs)\<lparr>updatedAt := stamp\<rparr>) atMs))"
  using assms by (simp add: commit_and_apply_def Let_def)

lemma commit_and_apply_refused:
  assumes "commitClockBeforeMove g atMs = (g1, False)"
    and "chess_move L (chess g1)
           \<lparr>m_from = src, m_to = dst, m_promotion = safePromotion promotion\<rparr> = None"
  shows "commit_and_apply L g col src dst promotion atMs stamp = (g1, Rejected illegal_move)"
  using assms by (simp add: commit_and_apply_def)

lemma commit_and_apply_timed_out:
  assumes "commitClockBeforeMove g atMs = (g1, True)"
  shows "commit_and_apply L g col src dst promotion atMs stamp =
     (g1\<lparr>updatedAt := stamp\<rparr>, Returned (publicState L (g1\<lparr>updatedAt := stamp\<rparr>) atMs))"
  using assms by (simp add: commit_and_apply_def Let_def)

lemma settle_clocks_live:
  "computeTermination L (chess g) = None \<Longrightarrow>
   clocks (settle L g col atMs) =
     (credit col (clocks g))\<lparr>activeColor := Some (chess_turn L (chess g)),
                             lastTickAt := Some atMs, running := True\<rparr>"
  by (simp add: settle_def)

lemma settle_clocks_over:
  "computeTermination L (chess g) = Some t \<Longrightarrow>
   clocks (settle L g col atMs) = stop_clock (credit col (clocks g))"
  by (simp add: settle_def)

lemma settle_keeps:
  "moves (settle L g col atMs) = moves g"
  "moveCursor (settle L g col atMs) = moveCursor g"
  "chess (settle L g col atMs) = chess g"
  "players (settle L g col atMs) = players g"
  by (simp_all add: settle_def split: option.splits)

lemma applied_fields:
  "moves (applied g c' mv) = kept_moves g @ [move_record mv]"
  "moveCursor (applied g c' mv) = int (length (moves (applied g c' mv)))"
  "chess (applied g c' mv) = c'"
  "clocks (applied g c' mv) = clocks g"
  "players (applied g c' mv) = players g"
  "status (applied g c' mv) = status g"
  by (simp_all add: applied_def)

lemma credit_fields:
  "wRemainingMs (credit col cl) = (if col = W then wRemainingMs cl + incrementMs cl else wRemainingMs cl)"
  "bRemainingMs (credit col cl) = (if col = B then bRemainingMs cl + incrementMs cl else bRemainingMs cl)"
  "incrementMs (credit col cl) = incrementMs cl"
  "initialMs (credit col cl) = initialMs cl"
  by (simp_all add: credit_def)

lemma demo_refused_commit:
  "commitClockBeforeMove demo_refused 6000 =
     (demo_refused\<lparr>clocks := (clocks demo_refused)\<lparr>wRemainingMs := 290000\<rparr>\<rparr>, False)"
proof -
  have "(clocks demo_refused)\<lparr>wRemainingMs := 290000, bRemainingMs := 300000\<rparr> =
      (clocks demo_refused)\<lparr>wRemainingMs := 290000\<rparr>"
    by (simp add: demo_refused_def demo_def)
  then show ?thesis
    by (simp add: commit_no_timeout demo_refused_reading)
qed

lemma demo_refused_then_legal:
  "wRemainingMs (clocks (fst (commit_and_apply toyChess demo_refused W ''a'' ''b'' None 6000 ''t2''))) =
     292000"
proof -
  let ?g1 = "demo_refused\<lparr>clocks := (clocks demo_refused)\<lparr>wRemainingMs := 290000\<rparr>\<rparr>"
  have legal: "chess_move toyChess (chess ?g1)
      \<lparr>m_from = ''a'', m_to = ''b'', m_promotion = safePromotion None\<rparr> =
      Some (1, \<lparr>m_from = ''a'', m_to = ''b'', m_promotion = None\<rparr>)"
    by (simp add: toyChess_def demo_refused_def demo_def safePromotion_def)
  have live: "computeTermination toyChess (Suc 0) = None"
    by (simp add: computeTermination_def isGameOver_def toyChess_def)
  show ?thesis
    unfolding commit_and_apply_accepted [OF demo_refused_commit legal]
    by (simp add: settle_clocks_live applied_fields live credit_fields demo_refused_clock)
qed


lemma demo_refused_may_move: "assertPlayerCanMove toyChess demo_refused (Str ''pw'') = Inr W"
  by (simp add: assertPlayerCanMove_def seat_of_def demo_refused_def demo_def toyChess_def)

text \<open>
  Claim C2 fails on the code after a refused move. \<open>makeMove\<close> commits the elapsed time
  before it asks the rules library, and returns on a refusal without moving \<open>lastTickAt\<close>:
  the interval already taken off the stored total is then taken off again by every later
  reading. On the sample game White has 300000 ms at the instant 1000. An illegal move
  sent at 6000 is refused; the projector, asked at the same instant 6000, reports 290000
  where 295000 are left, and a legal move sent at that instant leaves White with
  292000 where 297000 are due.
\<close>

theorem refused_move_counts_elapsed_twice:
  "map_option (\<lambda>ps. cv_wRemainingMs (pub_clocks ps))
     (getGameState toyChess [(''g1'', demo)] ''g1'' 6000) = Some 295000 \<and>
   makeMove toyChess [(''g1'', demo)] ''g1'' (Str ''pw'') ''z'' ''b'' None 6000 ''t2'' =
     ([(''g1'', demo_refused)], Rejected illegal_move) \<and>
   wRemainingMs (clocks demo_refused) = 295000 \<and>
   lastTickAt (clocks demo_refused) = Some 1000 \<and>
   map_option (\<lambda>ps. cv_wRemainingMs (pub_clocks ps))
     (getGameState toyChess [(''g1'', demo_refused)] ''g1'' 6000) = Some 290000 \<and>
   map (\<lambda>kg. wRemainingMs (clocks (snd kg)))
     (fst (makeMove toyChess [(''g1'', demo_refused)] ''g1'' (Str ''pw'') ''a'' ''b'' None 6000 ''t2'')) =
     [292000]"
proof -
  have before: "map_option (\<lambda>ps. cv_wRemainingMs (pub_clocks ps))
      (getGameState toyChess [(''g1'', demo)] ''g1'' 6000) = Some 295000"
    by (simp add: getGameState_def publicState_fields demo_reading)
  have refusal: "makeMove toyChess [(''g1'', demo)] ''g1'' (Str ''pw'') ''z'' ''b'' None 6000 ''t2'' =
      ([(''g1'', demo_refused)], Rejected illegal_move)"
    by (simp add: makeMove_def makeMove_on_def demo_may_move demo_refusal)
  have after: "map_option (\<lambda>ps. cv_wRemainingMs (pub_clocks ps))
      (getGameState toyChess [(''g1'', demo_refused)] ''g1'' 6000) = Some 290000"
    by (simp add: getGameState_def publicState_fields demo_refused_reading)
  have next_move: "map (\<lambda>kg. wRemainingMs (clocks (snd kg)))
      (fst (makeMove toyChess [(''g1'', demo_refused)] ''g1'' (Str ''pw'') ''a'' ''b'' None 6000 ''t2'')) =
      [292000]"
    using demo_refused_then_legal
    by (auto simp: makeMove_def makeMove_on_def demo_refused_may_move split: prod.splits)
  from before refusal after next_move show ?thesis
    by (simp add: demo_refused_clock)
qed

text \<open>
  An accepted move, for comparison: on a running clock whose commit does not time out, the
  mover's stored total becomes the reading at the commit plus the increment, once, the
  other total is the reading of the other side, and the clock is anchored at the instant
  of the move.
\<close>

lemma accepted_move_credits_once:
  assumes "commitClockBeforeMove g atMs = (g1, False)"
    and "chess_move L (chess g1)
           \<lparr>m_from = src, m_to = dst, m_promotion = safePromotion promotion\<rparr> = Some (c', mv)"
    and "computeTermination L c' = None"
    and "commit_and_apply L g col src dst promotion atMs stamp = (g', r)"
  shows "stored_remaining col (clocks g') =
       remaining_of col (effectiveClocksSnapshot g atMs) + incrementMs (clocks g)"
    and "stored_remaining (opponent col) (clocks g') =
       remaining_of (opponent col) (effectiveClocksSnapshot g atMs)"
    and "lastTickAt (clocks g') = Some atMs"
    and "running (clocks g')"
    and "activeColor (clocks g') = Some (chess_turn L c')"
proof -
  from assms(1) have g1: "clocks g1 =
      (clocks g)\<lparr>wRemainingMs := cv_wRemainingMs (effectiveClocksSnapshot g atMs),
                 bRemainingMs := cv_bRemainingMs (effectiveClocksSnapshot g atMs)\<rparr>"
    by (auto simp: commitClockBeforeMove_def Let_def split: if_splits)
  from assms(4) have g': "g' = (settle L (applied g1 c' mv) col atMs)\<lparr>updatedAt := stamp\<rparr>"
    unfolding commit_and_apply_accepted [OF assms(1,2)] by simp
  have cl: "clocks g' = (credit col (clocks g1))\<lparr>activeColor := Some (chess_turn L c'),
      lastTickAt := Some atMs, running := True\<rparr>"
    using assms(3) by (simp add: g' settle_clocks_live applied_fields)
  show "stored_remaining col (clocks g') =
       remaining_of col (effectiveClocksSnapshot g atMs) + incrementMs (clocks g)"
    by (cases col) (simp_all add: cl g1 stored_remaining_def remaining_of_def credit_def)
  show "stored_remaining (opponent col) (clocks g') =
       remaining_of (opponent col) (effectiveClocksSnapshot g atMs)"
    by (cases col) (simp_all add: cl g1 stored_remaining_def remaining_of_def credit_def)
  show "lastTickAt (clocks g') = Some atMs" "running (clocks g')"
    "activeColor (clocks g') = Some (chess_turn L c')"
    by (simp_all add: cl)
qed

subsection \<open>Start and pause\<close>

lemma maybeStartGame_finished:
  "state (status g) = Finished \<Longrightarrow> maybeStartGame L g now = g"
  by (simp add: maybeStartGame_def)

lemma maybeStartGame_start:
  assumes "state (status g) \<noteq> Finished" and "both_seated g" and "\<not> running (clocks g)"
  shows "maybeStartGame L g now =
     g\<lparr>status := (status g)\<lparr>state := Active\<rparr>,
       clocks := (clocks g)\<lparr>running := True, activeColor := Some (chess_turn L (chess g)),
                            lastTickAt := Some now\<rparr>\<rparr>"
  using assms by (simp add: maybeStartGame_def both_seated_def Let_def)

lemma maybeStartGame_continue:
  assumes "state (status g) \<noteq> Finished" and "both_seated g" and "running (clocks g)"
  shows "maybeStartGame L g now = g\<lparr>status := (status g)\<lparr>state := Active\<rparr>\<rparr>"
  using assms by (simp add: maybeStartGame_def both_seated_def Let_def)

lemma maybeStartGame_pause:
  assumes "state (status g) \<noteq> Finished" and "\<not> both_seated g" and "running (clocks g)"
  shows "maybeStartGame L g now =
     g\<lparr>status := (status g)\<lparr>state := Waiting\<rparr>,
       clocks := stop_clock
         ((clocks g)\<lparr>wRemainingMs := cv_wRemainingMs (effectiveClocksSnapshot g now),
                    bRemainingMs := cv_bRemainingMs (effectiveClocksSnapshot g now)\<rparr>)\<rparr>"
proof -
  let ?g1 = "g\<lparr>status := (status g)\<lparr>state := Waiting\<rparr>\<rparr>"
  have same: "effectiveClocksSnapshot ?g1 now = effectiveClocksSnapshot g now"
    by (rule snapshot_depends_on_clocks) simp
  have "maybeStartGame L g now =
      ?g1\<lparr>clocks := (clocks ?g1)\<lparr>wRemainingMs := cv_wRemainingMs (effectiveClocksSnapshot ?g1 now),
                                  bRemainingMs := cv_bRemainingMs (effectiveClocksSnapshot ?g1 now),
                                  running := False, activeColor := None, lastTickAt := None\<rparr>\<rparr>"
    using assms unfolding maybeStartGame_def both_seated_def Let_def by auto
  also have "\<dots> = g\<lparr>status := (status g)\<lparr>state := Waiting\<rparr>,
       clocks := stop_clock
         ((clocks g)\<lparr>wRemainingMs := cv_wRemainingMs (effectiveClocksSnapshot g now),
                    bRemainingMs := cv_bRemainingMs (effectiveClocksSnapshot g now)\<rparr>)\<rparr>"
    unfolding same by (simp add: stop_clock_def)
  finally show ?thesis .
qed

lemma maybeStartGame_wait:
  assumes "state (status g) \<noteq> Finished" and "\<not> both_seated g" and "\<not> running (clocks g)"
  shows "maybeStartGame L g now = g\<lparr>status := (status g)\<lparr>state := Waiting\<rparr>\<rparr>"
  using assms by (auto simp: maybeStartGame_def both_seated_def Let_def)

lemma maybeStartGame_keeps:
  "moves (maybeStartGame L g now) = moves g"
  "moveCursor (maybeStartGame L g now) = moveCursor g"
  "chess (maybeStartGame L g now) = chess g"
  "players (maybeStartGame L g now) = players g"
  "initialFen (maybeStartGame L g now) = initialFen g"
  "g_id (maybeStartGame L g now) = g_id g"
  by (simp_all add: maybeStartGame_def Let_def)

subsection \<open>Running out of time\<close>

lemma flagged_fields:
  "status (flagged g c atMs) = \<lparr>state = Finished, winner = Some (opponent c), reason = Some ''timeout''\<rparr>"
  "running (clocks (flagged g c atMs)) = False"
  "activeColor (clocks (flagged g c atMs)) = None"
  "lastTickAt (clocks (flagged g c atMs)) = None"
  "wRemainingMs (clocks (flagged g c atMs)) = cv_wRemainingMs (effectiveClocksSnapshot g atMs)"
  "bRemainingMs (clocks (flagged g c atMs)) = cv_bRemainingMs (effectiveClocksSnapshot g atMs)"
  "chess (flagged g c atMs) = chess g"
  "moves (flagged g c atMs) = moves g"
  "moveCursor (flagged g c atMs) = moveCursor g"
  by (simp_all add: flagged_def stop_clock_def timeout_for_def)

lemma white_reading_when_black_runs:
  "activeColor (clocks g) = Some B \<Longrightarrow>
   cv_wRemainingMs (effectiveClocksSnapshot g atMs) = max 0 (wRemainingMs (clocks g))"
  by (simp add: effectiveClocksSnapshot_def Let_def)

lemma commit_flags:
  assumes "activeColor (clocks g) = Some c"
    and "remaining_of c (effectiveClocksSnapshot g atMs) \<le> 0"
    and "c = B \<longrightarrow> 0 < wRemainingMs (clocks g)"
  shows "commitClockBeforeMove g atMs = (flagged g c atMs, True)"
proof (cases c)
  case W
  with assms(2) show ?thesis
    by (simp add: commit_timeout_white remaining_of_def flagged_def)
next
  case B
  with assms have "0 < cv_wRemainingMs (effectiveClocksSnapshot g atMs)"
    by (simp add: white_reading_when_black_runs)
  moreover from B assms(2) have "cv_bRemainingMs (effectiveClocksSnapshot g atMs) \<le> 0"
    by (simp add: remaining_of_def)
  ultimately show ?thesis
    using B by (simp add: commit_timeout_black flagged_def)
qed

lemma tick_flags:
  assumes "activeColor (clocks g) = Some c"
    and "remaining_of c (effectiveClocksSnapshot g atMs) \<le> 0"
    and "running (clocks g)" and "state (status g) = Active"
  shows "tick_on g atMs stamp = ((flagged g c atMs)\<lparr>updatedAt := stamp\<rparr>, True)"
  using assms by (cases c) (simp_all add: tick_on_def Let_def remaining_of_def flagged_def)

lemma pause_does_not_flag:
  assumes "activeColor (clocks g) = Some c"
    and "remaining_of c (effectiveClocksSnapshot g atMs) \<le> 0"
    and "running (clocks g)" and "state (status g) \<noteq> Finished" and "\<not> both_seated g"
  shows "status (maybeStartGame L g atMs) = (status g)\<lparr>state := Waiting\<rparr>"
    and "clocks (maybeStartGame L g atMs) =
      stop_clock ((clocks g)\<lparr>wRemainingMs := cv_wRemainingMs (effectiveClocksSnapshot g atMs),
                             bRemainingMs := cv_bRemainingMs (effectiveClocksSnapshot g atMs)\<rparr>)"
    and "stored_remaining c (clocks (maybeStartGame L g atMs)) = 0"
proof -
  note eq = maybeStartGame_pause [OF assms(4,5,3), of L atMs]
  show "status (maybeStartGame L g atMs) = (status g)\<lparr>state := Waiting\<rparr>"
    by (simp add: eq)
  show "clocks (maybeStartGame L g atMs) =
      stop_clock ((clocks g)\<lparr>wRemainingMs := cv_wRemainingMs (effectiveClocksSnapshot g atMs),
                             bRemainingMs := cv_bRemainingMs (effectiveClocksSnapshot g atMs)\<rparr>)"
    by (simp add: eq)
  have "0 \<le> remaining_of c (effectiveClocksSnapshot g atMs)"
    by (simp add: remaining_of_def effectiveClocksSnapshot_def Let_def)
  with assms(2) have "remaining_of c (effectiveClocksSnapshot g atMs) = 0"
    by simp
  then show "stored_remaining c (clocks (maybeStartGame L g atMs)) = 0"
    by (cases c) (simp_all add: eq stored_remaining_def remaining_of_def stop_clock_def)
qed

lemma tickClocks_at:
  "map_of (fst (tickClocks S atMs stamp)) gameId =
     map_option (\<lambda>g. fst (tick_on g atMs stamp)) (map_of S gameId)"
  by (induction S) (auto simp: tickClocks_def)

lemma may_move:
  assumes "truthy_id playerId" and "state (status g) = Active"
    and "seat_of g playerId = Some (chess_turn L (chess g))"
  shows "assertPlayerCanMove L g playerId = Inr (chess_turn L (chess g))"
  using assms by (simp add: assertPlayerCanMove_def)

text \<open>
  Claim C1, as stated, fails at the commit made when a seated slot becomes vacant. On the
  sample game White's clock runs from the instant 1000 with 300000 ms; Black leaves at the
  instant 400000, when nothing is left. The pause commits the reading 0 and stops the
  clock, and the game is \<open>waiting\<close>, with no winner and no reason: it is not finalized.
\<close>

theorem pause_commit_does_not_finalize_counterexample:
  "activeColor (clocks demo) = Some W \<and>
   running (clocks demo) \<and>
   remaining_of W (effectiveClocksSnapshot demo 400000) \<le> 0 \<and>
   fst (leaveGame toyChess [(''g1'', demo)] ''g1'' (Str ''pb'') ''t2'' 400000) =
     [(''g1'',
       demo\<lparr>updatedAt := ''t2'',
            players := (players demo)\<lparr>b_player := vacant\<rparr>,
            clocks := (clocks demo)\<lparr>wRemainingMs := 0, running := False, activeColor := None,
                                     lastTickAt := None\<rparr>,
            status := \<lparr>state = Waiting, winner = None, reason = None\<rparr>\<rparr>)] \<and>
   state (status (fst (leaveGame_on toyChess demo (Str ''pb'') ''t2'' 400000))) \<noteq> Finished"
proof -
  let ?g0 = "demo\<lparr>players := (players demo)\<lparr>b_player := vacant\<rparr>, updatedAt := ''t2''\<rparr>"
  have reading: "cv_wRemainingMs (effectiveClocksSnapshot ?g0 400000) = 0"
    "cv_bRemainingMs (effectiveClocksSnapshot ?g0 400000) = 300000"
    by (simp_all add: snapshot_running [of ?g0 W 1000] demo_clock)
  have pre: "state (status ?g0) \<noteq> Finished" "\<not> both_seated ?g0" "running (clocks ?g0)"
    by (simp_all add: demo_facts demo_clock both_seated_def vacant_def)
  have paused: "maybeStartGame toyChess ?g0 400000 =
      demo\<lparr>updatedAt := ''t2'',
           players := (players demo)\<lparr>b_player := vacant\<rparr>,
           clocks := (clocks demo)\<lparr>wRemainingMs := 0, running := False, activeColor := None,
                                    lastTickAt := None\<rparr>,
           status := \<lparr>state = Waiting, winner = None, reason = None\<rparr>\<rparr>"
    unfolding maybeStartGame_pause [OF pre] reading
    by (simp add: stop_clock_def demo_def)
  have ids: "\<not> strict_eq (Str ''pb'') (p_id (w_player (players demo)))"
    "strict_eq (Str ''pb'') (p_id (b_player (players demo)))"
    by (simp_all add: demo_def)
  have on: "fst (leaveGame_on toyChess demo (Str ''pb'') ''t2'' 400000) =
      maybeStartGame toyChess ?g0 400000"
    using ids by (simp add: leaveGame_on_def Let_def)
  have store: "fst (leaveGame toyChess [(''g1'', demo)] ''g1'' (Str ''pb'') ''t2'' 400000) =
      [(''g1'', fst (leaveGame_on toyChess demo (Str ''pb'') ''t2'' 400000))]"
    by (simp add: leaveGame_def split: prod.splits)
  have out: "remaining_of W (effectiveClocksSnapshot demo 400000) \<le> 0"
    by (simp add: remaining_of_def snapshot_running [of demo W 1000] demo_clock)
  show ?thesis
    using out by (simp add: store on paused demo_clock)
qed

text \<open>
  Claim C1, amended. Let the reading of the active colour \<open>c\<close> at the instant of a commit
  be at most 0. At the commit before a move, sent by the player seated on the colour to
  move in an active game, the game is finalized (provided, when \<open>c\<close> is Black, that
  White's stored time is positive): \<open>makeMove\<close> returns the public state of the finalized
  game and the move is not applied. At the sweep, a running active game is finalized.
  Finalized means: state \<open>finished\<close>, reason \<open>timeout\<close>, the opponent of \<open>c\<close> the winner,
  \<open>running\<close> false, \<open>activeColor\<close> and \<open>lastTickAt\<close> null, with position, move list and
  cursor as they were. The commit made when a slot becomes vacant does not finalize: it
  stores the reading 0 for \<open>c\<close>, stops the clock and leaves the game \<open>waiting\<close> with the
  winner and reason it had.
\<close>

theorem timeout_finalized_at_move_and_sweep:
  assumes "activeColor (clocks g) = Some c"
    and "remaining_of c (effectiveClocksSnapshot g atMs) \<le> 0"
  shows
   "(map_of S gameId = Some g \<and> truthy_id playerId \<and> state (status g) = Active \<and>
       seat_of g playerId = Some (chess_turn L (chess g)) \<and>
       (c = B \<longrightarrow> 0 < wRemainingMs (clocks g)) \<longrightarrow>
       makeMove L S gameId playerId src dst promotion atMs stamp =
         (map_set S gameId ((flagged g c atMs)\<lparr>updatedAt := stamp\<rparr>),
          Returned (publicState L ((flagged g c atMs)\<lparr>updatedAt := stamp\<rparr>) atMs))) \<and>
    (map_of S gameId = Some g \<and> running (clocks g) \<and> state (status g) = Active \<longrightarrow>
       map_of (fst (tickClocks S atMs stamp)) gameId =
         Some ((flagged g c atMs)\<lparr>updatedAt := stamp\<rparr>)) \<and>
    status (flagged g c atMs) =
      \<lparr>state = Finished, winner = Some (opponent c), reason = Some ''timeout''\<rparr> \<and>
    \<not> running (clocks (flagged g c atMs)) \<and>
    activeColor (clocks (flagged g c atMs)) = None \<and>
    lastTickAt (clocks (flagged g c atMs)) = None \<and>
    chess (flagged g c atMs) = chess g \<and>
    moves (flagged g c atMs) = moves g \<and>
    moveCursor (flagged g c atMs) = moveCursor g \<and>
    (running (clocks g) \<and> state (status g) \<noteq> Finished \<and> \<not> both_seated g \<longrightarrow>
       status (maybeStartGame L g atMs) = (status g)\<lparr>state := Waiting\<rparr> \<and>
       \<not> running (clocks (maybeStartGame L g atMs)) \<and>
       activeColor (clocks (maybeStartGame L g atMs)) = None \<and>
       lastTickAt (clocks (maybeStartGame L g atMs)) = None \<and>
       stored_remaining c (clocks (maybeStartGame L g atMs)) = 0)"
proof -
  have move: "makeMove L S gameId playerId src dst promotion atMs stamp =
         (map_set S gameId ((flagged g c atMs)\<lparr>updatedAt := stamp\<rparr>),
          Returned (publicState L ((flagged g c atMs)\<lparr>updatedAt := stamp\<rparr>) atMs))"
    if "map_of S gameId = Some g" "truthy_id playerId" "state (status g) = Active"
      "seat_of g playerId = Some (chess_turn L (chess g))" "c = B \<longrightarrow> 0 < wRemainingMs (clocks g)"
  proof -
    have "commitClockBeforeMove g atMs = (flagged g c atMs, True)"
      using assms that(5) by (rule commit_flags)
    from commit_and_apply_timed_out [OF this] may_move [OF that(2,3,4)] that(1)
    show ?thesis by (simp add: makeMove_def makeMove_on_def)
  qed
  have sweep: "map_of (fst (tickClocks S atMs stamp)) gameId =
         Some ((flagged g c atMs)\<lparr>updatedAt := stamp\<rparr>)"
    if "map_of S gameId = Some g" "running (clocks g)" "state (status g) = Active"
    using tick_flags [OF assms that(2,3)] that(1) by (simp add: tickClocks_at)
  have pause: "status (maybeStartGame L g atMs) = (status g)\<lparr>state := Waiting\<rparr> \<and>
       \<not> running (clocks (maybeStartGame L g atMs)) \<and>
       activeColor (clocks (maybeStartGame L g atMs)) = None \<and>
       lastTickAt (clocks (maybeStartGame L g atMs)) = None \<and>
       stored_remaining c (clocks (maybeStartGame L g atMs)) = 0"
    if "running (clocks g)" "state (status g) \<noteq> Finished" "\<not> both_seated g"
    using pause_does_not_flag [OF assms that] by (simp add: stop_clock_def)
  show ?thesis
    using move sweep pause by (simp add: flagged_fields)
qed


text \<open>
  White's flag falls on the sample game at the instant 400000: a move by White and the
  sweep both finalize it for Black, and the pause after Black's seat is vacated does not.
\<close>

theorem timeout_finalized_at_move_and_sweep_witness:
  "activeColor (clocks demo) = Some W \<and>
   remaining_of W (effectiveClocksSnapshot demo 400000) \<le> 0 \<and>
   makeMove toyChess [(''g1'', demo)] ''g1'' (Str ''pw'') ''a'' ''b'' None 400000 ''t2'' =
     ([(''g1'', (flagged demo W 400000)\<lparr>updatedAt := ''t2''\<rparr>)],
      Returned (publicState toyChess ((flagged demo W 400000)\<lparr>updatedAt := ''t2''\<rparr>) 400000)) \<and>
   map_of (fst (tickClocks [(''g1'', demo)] 400000 ''t2'')) ''g1'' =
     Some ((flagged demo W 400000)\<lparr>updatedAt := ''t2''\<rparr>) \<and>
   status (flagged demo W 400000) =
     \<lparr>state = Finished, winner = Some B, reason = Some ''timeout''\<rparr> \<and>
   moves (flagged demo W 400000) = [] \<and>
   chess (flagged demo W 400000) = 0 \<and>
   status (maybeStartGame toyChess (demo\<lparr>players := (players demo)\<lparr>b_player := vacant\<rparr>\<rparr>) 400000) =
     \<lparr>state = Waiting, winner = None, reason = None\<rparr> \<and>
   stored_remaining W
     (clocks (maybeStartGame toyChess (demo\<lparr>players := (players demo)\<lparr>b_player := vacant\<rparr>\<rparr>)
        400000)) = 0"
proof -
  let ?v = "demo\<lparr>players := (players demo)\<lparr>b_player := vacant\<rparr>\<rparr>"
  have act: "activeColor (clocks demo) = Some W" "activeColor (clocks ?v) = Some W"
    by (simp_all add: demo_clock)
  have out: "remaining_of W (effectiveClocksSnapshot demo 400000) \<le> 0"
    "remaining_of W (effectiveClocksSnapshot ?v 400000) \<le> 0"
    by (simp_all add: remaining_of_def snapshot_running [of _ W 1000] demo_clock)
  have pre: "map_of [(''g1'', demo)] ''g1'' = Some demo" "truthy_id (Str ''pw'')"
    "state (status demo) = Active" "seat_of demo (Str ''pw'') = Some (chess_turn toyChess (chess demo))"
    "running (clocks demo)"
    by (simp_all add: demo_facts demo_clock)
  have prev: "running (clocks ?v)" "state (status ?v) \<noteq> Finished" "\<not> both_seated ?v"
    "status ?v = \<lparr>state = Active, winner = None, reason = None\<rparr>"
    by (simp_all add: demo_clock demo_facts both_seated_def vacant_def) (simp add: demo_def)
  have vals: "moves demo = []" "chess demo = 0"
    by (simp_all add: demo_def)
  note live = timeout_finalized_at_move_and_sweep [OF act(1) out(1),
      where S = "[(''g1'', demo)]" and gameId = "''g1''" and playerId = "Str ''pw''"
        and L = toyChess and src = "''a''" and dst = "''b''" and promotion = None
        and stamp = "''t2''"]
  note left = timeout_finalized_at_move_and_sweep [OF act(2) out(2), where L = toyChess]
  have c1: "makeMove toyChess [(''g1'', demo)] ''g1'' (Str ''pw'') ''a'' ''b'' None 400000 ''t2'' =
     ([(''g1'', (flagged demo W 400000)\<lparr>updatedAt := ''t2''\<rparr>)],
      Returned (publicState toyChess ((flagged demo W 400000)\<lparr>updatedAt := ''t2''\<rparr>) 400000))"
  proof -
    have "makeMove toyChess [(''g1'', demo)] ''g1'' (Str ''pw'') ''a'' ''b'' None 400000 ''t2'' =
       (map_set [(''g1'', demo)] ''g1'' ((flagged demo W 400000)\<lparr>updatedAt := ''t2''\<rparr>),
        Returned (publicState toyChess ((flagged demo W 400000)\<lparr>updatedAt := ''t2''\<rparr>) 400000))"
      using live pre by blast
    then show ?thesis by simp
  qed
  have c2: "map_of (fst (tickClocks [(''g1'', demo)] 400000 ''t2'')) ''g1'' =
     Some ((flagged demo W 400000)\<lparr>updatedAt := ''t2''\<rparr>)"
    using live pre by blast
  have c3: "status (flagged demo W 400000) =
     \<lparr>state = Finished, winner = Some (opponent W), reason = Some ''timeout''\<rparr>"
    "moves (flagged demo W 400000) = moves demo" "chess (flagged demo W 400000) = chess demo"
    using live by blast+
  have c4: "status (maybeStartGame toyChess ?v 400000) = (status ?v)\<lparr>state := Waiting\<rparr>"
    "stored_remaining W (clocks (maybeStartGame toyChess ?v 400000)) = 0"
    using left prev(1,2,3) by blast+
  have c5: "(status ?v)\<lparr>state := Waiting\<rparr> = \<lparr>state = Waiting, winner = None, reason = None\<rparr>"
    by (simp add: prev(4))
  show ?thesis
    using act(1) out(1) c1 c2 c3 c4 [unfolded c5] by (simp add: vals)
qed

text \<open>
  The proviso on White's stored time is needed: \<open>_commitClockBeforeMove\<close> tests White's
  reading first, whichever colour is active. With White's stored time at 0 and Black's
  clock run out, the commit names Black the winner.
\<close>

lemma commit_tests_white_first:
  "commitClockBeforeMove
     (demo\<lparr>clocks := (clocks demo)\<lparr>wRemainingMs := 0, activeColor := Some B\<rparr>\<rparr>) 400000 =
   (demo\<lparr>clocks := (clocks demo)\<lparr>wRemainingMs := 0, bRemainingMs := 0, running := False,
                                  activeColor := None, lastTickAt := None\<rparr>,
         status := timeout_for B\<rparr>, True)"
proof -
  let ?g = "demo\<lparr>clocks := (clocks demo)\<lparr>wRemainingMs := 0, activeColor := Some B\<rparr>\<rparr>"
  have r: "cv_wRemainingMs (effectiveClocksSnapshot ?g 400000) = 0"
    "cv_bRemainingMs (effectiveClocksSnapshot ?g 400000) = 0"
    by (simp_all add: snapshot_running [of ?g B 1000] demo_clock)
  show ?thesis
    unfolding commit_timeout_white [of ?g 400000, unfolded r, simplified]
    by (simp add: stop_clock_def)
qed

subsection \<open>Save, then load\<close>

lemma serialized_fields:
  "s_id (serializeGame g) = g_id g"
  "s_createdAt (serializeGame g) = createdAt g"
  "s_updatedAt (serializeGame g) = updatedAt g"
  "s_initialFen (serializeGame g) = initialFen g"
  "s_moves (serializeGame g) = moves g"
  "s_moveCursor (serializeGame g) = Some (moveCursor g)"
  "sc_initialMs (s_clocks (serializeGame g)) = Some (initialMs (clocks g))"
  "sc_incrementMs (s_clocks (serializeGame g)) = Some (incrementMs (clocks g))"
  "sc_wRemainingMs (s_clocks (serializeGame g)) = Some (wRemainingMs (clocks g))"
  "sc_bRemainingMs (s_clocks (serializeGame g)) = Some (bRemainingMs (clocks g))"
  by (simp_all add: serializeGame_def)

lemma or_null_id: "x \<noteq> Some [] \<Longrightarrow> or_null x = x"
  by (cases x) (simp_all add: or_null_def)

lemma or_string_id: "x \<noteq> [] \<Longrightarrow> or_string x d = x"
  by (simp add: or_string_def)

lemma loaded_slot:
  "p_id p \<noteq> Some [] \<Longrightarrow> p_name p \<noteq> Some [] \<Longrightarrow>
   \<lparr>p_id = or_null (p_id p), p_name = or_null (p_name p), present = False\<rparr> = p\<lparr>present := False\<rparr>"
  by (simp add: or_null_id)

lemma loaded_clocks:
  "\<lparr>initialMs = initialMs cl, incrementMs = incrementMs cl, wRemainingMs = wRemainingMs cl,
    bRemainingMs = bRemainingMs cl, activeColor = None, running = False, lastTickAt = None\<rparr> =
   stop_clock cl"
  by (simp add: stop_clock_def)

text \<open>
  A session that satisfies the invariants is loaded back as the session saved, at rest.
\<close>

lemma deserialize_serialize:
  assumes "cursor_ok g" and "position_ok L g" and "strings_ok g"
  shows "deserializeGame L (serializeGame g) stamp = Some (at_rest L g)"
proof -
  have cur: "max 0 (min (int (length (moves g))) (moveCursor g)) = moveCursor g"
    using assms(1) by (simp add: cursor_ok_def)
  have pos: "replay_from L (moves g) (moveCursor g) 0 (chess_load L (initialFen g)) = Some (chess g)"
    using assms(2) by (simp add: position_ok_def)
  have w: "\<lparr>p_id = or_null (p_id (w_player (players g))),
            p_name = or_null (p_name (w_player (players g))), present = False\<rparr> =
        (w_player (players g))\<lparr>present := False\<rparr>"
    and b: "\<lparr>p_id = or_null (p_id (b_player (players g))),
            p_name = or_null (p_name (b_player (players g))), present = False\<rparr> =
        (b_player (players g))\<lparr>present := False\<rparr>"
    using assms(3) by (simp_all add: strings_ok_def loaded_slot)
  have str: "or_string (createdAt g) stamp = createdAt g"
    "or_string (updatedAt g) stamp = updatedAt g"
    "or_string (initialFen g) (chess_fen L (chess_new L)) = initialFen g"
    using assms(3) by (simp_all add: strings_ok_def or_string_id)
  show ?thesis
    unfolding deserializeGame_def Let_def serialized_fields serialized_players
      serialized_spectators cur pos str or_else_def option.case w b loaded_clocks at_rest_def
    by simp
qed


lemma map_set_fresh: "k \<notin> fst ` set kvs \<Longrightarrow> map_set kvs k v = kvs @ [(k, v)]"
  by (induction kvs) auto

lemma load_records_saved:
  assumes "store_ok L S" and "fst ` set acc \<inter> fst ` set S = {}"
  shows "load_records L stamp acc (saveToDisk S) = acc @ map (\<lambda>kg. (fst kg, at_rest L (snd kg))) S"
  using assms
proof (induction S arbitrary: acc)
  case Nil
  then show ?case by (simp add: saveToDisk_def)
next
  case (Cons kg S)
  obtain k g where kg: "kg = (k, g)" by (cases kg)
  from Cons.prems(1) have key: "k = g_id g" "k \<noteq> []" and ok: "session_ok L g"
    and rest: "store_ok L S" and new: "k \<notin> fst ` set S"
    by (auto simp: store_ok_def kg)
  from ok have loaded: "deserializeGame L (serializeGame g) stamp = Some (at_rest L g)"
    by (simp add: session_ok_def deserialize_serialize)
  from Cons.prems(2) have fresh: "k \<notin> fst ` set acc"
    by (auto simp: kg)
  have id: "g_id (at_rest L g) = k"
    by (simp add: at_rest_def key)
  have disj: "fst ` set (acc @ [(k, at_rest L g)]) \<inter> fst ` set S = {}"
    using Cons.prems(2) new by (auto simp: kg)
  have "load_records L stamp acc (saveToDisk (kg # S)) =
      load_records L stamp (acc @ [(k, at_rest L g)]) (saveToDisk S)"
    using key(2) fresh
    by (simp add: saveToDisk_def kg serialized_fields key(1) [symmetric] loaded id map_set_fresh)
  also have "\<dots> = (acc @ [(k, at_rest L g)]) @ map (\<lambda>kg. (fst kg, at_rest L (snd kg))) S"
    using rest disj by (rule Cons.IH)
  finally show ?case by (simp add: kg)
qed

lemma publicState_at_rest:
  "publicState L (at_rest L g) atMs =
     (publicState L g atMs)
       \<lparr>pub_status :=
          (case computeTermination L (chess g) of
             Some t \<Rightarrow> pub_status (publicState L g atMs)
           | None \<Rightarrow> \<lparr>ps_state = Waiting, ps_winner = None, ps_reason = None,
                      ps_isCheck = isCheck L (chess g)\<rparr>),
        pub_players :=
          (\<lparr>pp_name = p_name (w_player (players g)), pp_color = W, pp_present = False\<rparr>,
           \<lparr>pp_name = p_name (b_player (players g)), pp_color = B, pp_present = False\<rparr>),
        pub_clocks :=
          \<lparr>cv_initialMs = initialMs (clocks g), cv_incrementMs = incrementMs (clocks g),
           cv_wRemainingMs = max 0 (wRemainingMs (clocks g)),
           cv_bRemainingMs = max 0 (bRemainingMs (clocks g)),
           cv_activeColor = None, cv_running = False\<rparr>\<rparr>"
proof -
  have clk: "effectiveClocksSnapshot (at_rest L g) atMs =
      \<lparr>cv_initialMs = initialMs (clocks g), cv_incrementMs = incrementMs (clocks g),
       cv_wRemainingMs = max 0 (wRemainingMs (clocks g)),
       cv_bRemainingMs = max 0 (bRemainingMs (clocks g)),
       cv_activeColor = None, cv_running = False\<rparr>"
    by (simp add: effectiveClocksSnapshot_def at_rest_def stop_clock_def)
  have pl: "publicPlayers (at_rest L g) =
      (\<lparr>pp_name = p_name (w_player (players g)), pp_color = W, pp_present = False\<rparr>,
       \<lparr>pp_name = p_name (b_player (players g)), pp_color = B, pp_present = False\<rparr>)"
    by (simp add: publicPlayers_def at_rest_def)
  have sel: "chess (at_rest L g) = chess g" "g_id (at_rest L g) = g_id g"
    "moveCursor (at_rest L g) = moveCursor g" "createdAt (at_rest L g) = createdAt g"
    "updatedAt (at_rest L g) = updatedAt g"
    "status (at_rest L g) = recomputed_status L (chess g)"
    by (simp_all add: at_rest_def)
  show ?thesis
  proof (cases "computeTermination L (chess g)")
    case None
    then show ?thesis
      unfolding publicState_def Let_def sel clk pl
      by (simp add: recomputed_status_def)
  next
    case (Some t)
    then show ?thesis
      unfolding publicState_def Let_def sel clk pl
      by simp
  qed
qed

lemma map_of_mapped:
  "map_of (map (\<lambda>kg. (fst kg, f (snd kg))) S) k = map_option f (map_of S k)"
  by (induction S) auto

lemma loadFromDisk_saved:
  assumes "store_ok L S"
  shows "loadFromDisk L (saveToDisk S) stamp =
     (map (\<lambda>kg. (fst kg, at_rest L (snd kg))) S, length S)"
  using load_records_saved [OF assms, of "[]" stamp]
  by (simp add: loadFromDisk_def Let_def)

lemma demo_sessions_ok:
  "session_ok toyChess demo" "session_ok toyChess demo_paused"
  "session_ok toyChess demo_flagged" "session_ok toyChess demo_mated"
  by (simp_all add: session_ok_def cursor_ok_def position_ok_def strings_ok_def
      replay_from.simps replay_move_def demo_paused_def demo_flagged_def demo_mated_def
      demo_def ply_def toyChess_def vacant_def)

lemma demo_stores_ok:
  "store_ok toyChess [(''g1'', demo)]" "store_ok toyChess [(''g1'', demo_paused)]"
  "store_ok toyChess [(''g1'', demo_flagged)]" "store_ok toyChess [(''g1'', demo_mated)]"
  by (simp_all add: store_ok_def demo_sessions_ok)
    (simp_all add: demo_paused_def demo_flagged_def demo_mated_def demo_def)

text \<open>
  Claim C3, as stated, fails for a session finished on time. White has lost the sample
  game on time in a position that is not terminal. Saved and loaded, the game is
  \<open>waiting\<close>, with no winner and no reason, and so is its public state.
\<close>

theorem timeout_result_lost_on_load_counterexample:
  "status demo_flagged = \<lparr>state = Finished, winner = Some B, reason = Some ''timeout''\<rparr> \<and>
   pub_status (publicState toyChess demo_flagged 0) =
     \<lparr>ps_state = Finished, ps_winner = Some B, ps_reason = Some ''timeout'', ps_isCheck = False\<rparr> \<and>
   loadFromDisk toyChess (saveToDisk [(''g1'', demo_flagged)]) ''t9'' =
     ([(''g1'', at_rest toyChess demo_flagged)], 1) \<and>
   status (at_rest toyChess demo_flagged) =
     \<lparr>state = Waiting, winner = None, reason = None\<rparr> \<and>
   pub_status (publicState toyChess (at_rest toyChess demo_flagged) 0) =
     \<lparr>ps_state = Waiting, ps_winner = None, ps_reason = None, ps_isCheck = False\<rparr>"
proof -
  have live: "computeTermination toyChess (chess demo_flagged) = None"
    and chk: "isCheck toyChess (chess demo_flagged) = False"
    and st: "status demo_flagged = \<lparr>state = Finished, winner = Some B, reason = Some ''timeout''\<rparr>"
    by (simp_all add: computeTermination_def isGameOver_def isCheck_def demo_flagged_def
        toyChess_def timeout_for_def)
  have before: "pub_status (publicState toyChess demo_flagged 0) =
     \<lparr>ps_state = Finished, ps_winner = Some B, ps_reason = Some ''timeout'', ps_isCheck = False\<rparr>"
    by (simp add: publicState_def Let_def live chk st)
  have after: "pub_status (publicState toyChess (at_rest toyChess demo_flagged) 0) =
     \<lparr>ps_state = Waiting, ps_winner = None, ps_reason = None, ps_isCheck = False\<rparr>"
    by (simp add: publicState_at_rest live chk)
  have rest: "status (at_rest toyChess demo_flagged) =
     \<lparr>state = Waiting, winner = None, reason = None\<rparr>"
    by (simp add: at_rest_def recomputed_status_def live)
  show ?thesis
    by (simp add: st before after rest loadFromDisk_saved [OF demo_stores_ok(3)])
qed

text \<open>
  Claim C3, amended. Take a store whose games are filed under their own, non-empty and
  distinct ids and satisfy the invariants of a session. Saving it and loading the result
  gives the same games in the same order, each at rest. The public state of a loaded
  game is that of the game saved, except that: both players are absent; the clock is
  stopped, with no active colour, and shows the stored totals (clamped at 0), not the
  running reading; and the status is recomputed from the position. When the position
  is terminal the public status is the one reported before the save; when it is not,
  the status is \<open>waiting\<close> with no winner and no reason, whatever it was - so the
  result of a game finished on time is not kept.
\<close>

theorem save_then_load:
  assumes "store_ok L S" and "map_of S gameId = Some g"
  shows "loadFromDisk L (saveToDisk S) stamp =
       (map (\<lambda>kg. (fst kg, at_rest L (snd kg))) S, length S) \<and>
     getGameState L (fst (loadFromDisk L (saveToDisk S) stamp)) gameId atMs =
       Some
        ((publicState L g atMs)
          \<lparr>pub_status :=
             (case computeTermination L (chess g) of
                Some t \<Rightarrow> pub_status (publicState L g atMs)
              | None \<Rightarrow> \<lparr>ps_state = Waiting, ps_winner = None, ps_reason = None,
                         ps_isCheck = isCheck L (chess g)\<rparr>),
           pub_players :=
             (\<lparr>pp_name = p_name (w_player (players g)), pp_color = W, pp_present = False\<rparr>,
              \<lparr>pp_name = p_name (b_player (players g)), pp_color = B, pp_present = False\<rparr>),
           pub_clocks :=
             \<lparr>cv_initialMs = initialMs (clocks g), cv_incrementMs = incrementMs (clocks g),
              cv_wRemainingMs = max 0 (wRemainingMs (clocks g)),
              cv_bRemainingMs = max 0 (bRemainingMs (clocks g)),
              cv_activeColor = None, cv_running = False\<rparr>\<rparr>) \<and>
     (isGameOver L (chess g) \<longrightarrow>
        map_option pub_status
          (getGameState L (fst (loadFromDisk L (saveToDisk S) stamp)) gameId atMs) =
        Some (pub_status (publicState L g atMs))) \<and>
     (\<not> isGameOver L (chess g) \<longrightarrow>
        map_option (\<lambda>ps. (ps_state (pub_status ps), ps_winner (pub_status ps),
                          ps_reason (pub_status ps)))
          (getGameState L (fst (loadFromDisk L (saveToDisk S) stamp)) gameId atMs) =
        Some (Waiting, None, None))"
proof -
  note loaded = loadFromDisk_saved [OF assms(1), of stamp]
  have found: "map_of (fst (loadFromDisk L (saveToDisk S) stamp)) gameId = Some (at_rest L g)"
    by (simp add: loaded map_of_mapped assms(2))
  have state: "getGameState L (fst (loadFromDisk L (saveToDisk S) stamp)) gameId atMs =
      Some (publicState L (at_rest L g) atMs)"
    using found by (rule getGameState_found)
  have over: "map_option pub_status
          (getGameState L (fst (loadFromDisk L (saveToDisk S) stamp)) gameId atMs) =
        Some (pub_status (publicState L g atMs))"
    if "isGameOver L (chess g)"
  proof -
    from that obtain t where "computeTermination L (chess g) = Some t"
      using computeTermination_None [of L "chess g"]
      by (cases "computeTermination L (chess g)") auto
    then show ?thesis
      by (simp add: state publicState_at_rest)
  qed
  have live: "map_option (\<lambda>ps. (ps_state (pub_status ps), ps_winner (pub_status ps),
                          ps_reason (pub_status ps)))
          (getGameState L (fst (loadFromDisk L (saveToDisk S) stamp)) gameId atMs) =
        Some (Waiting, None, None)"
    if "\<not> isGameOver L (chess g)"
  proof -
    from that have "computeTermination L (chess g) = None"
      by (simp add: computeTermination_None)
    then show ?thesis
      by (simp add: state publicState_at_rest)
  qed
  show ?thesis
    using loaded state [unfolded publicState_at_rest] over live by blast
qed

text \<open>
  The paused sample game, saved and loaded: still \<open>waiting\<close>, White's 297000 ms kept.
\<close>

theorem save_then_load_witness:
  "store_ok toyChess [(''g1'', demo_paused)] \<and>
   loadFromDisk toyChess (saveToDisk [(''g1'', demo_paused)]) ''t9'' =
     ([(''g1'', at_rest toyChess demo_paused)], 1) \<and>
   map_option (\<lambda>ps. (ps_state (pub_status ps), ps_winner (pub_status ps),
                     ps_reason (pub_status ps)))
     (getGameState toyChess (fst (loadFromDisk toyChess (saveToDisk [(''g1'', demo_paused)]) ''t9''))
        ''g1'' 0) = Some (Waiting, None, None) \<and>
   map_option (\<lambda>ps. cv_wRemainingMs (pub_clocks ps))
     (getGameState toyChess (fst (loadFromDisk toyChess (saveToDisk [(''g1'', demo_paused)]) ''t9''))
        ''g1'' 0) = Some 297000"
proof -
  have found: "map_of [(''g1'', demo_paused)] ''g1'' = Some demo_paused"
    by simp
  have live: "\<not> isGameOver toyChess (chess demo_paused)"
    by (simp add: isGameOver_def demo_paused_def toyChess_def)
  have w: "wRemainingMs (clocks demo_paused) = 297000"
    by (simp add: demo_paused_def)
  note t = save_then_load [OF demo_stores_ok(2) found, of "''t9''" 0]
  have a: "loadFromDisk toyChess (saveToDisk [(''g1'', demo_paused)]) ''t9'' =
     ([(''g1'', at_rest toyChess demo_paused)], 1)"
    using t by simp
  have b: "map_option (\<lambda>ps. (ps_state (pub_status ps), ps_winner (pub_status ps),
                     ps_reason (pub_status ps)))
     (getGameState toyChess (fst (loadFromDisk toyChess (saveToDisk [(''g1'', demo_paused)]) ''t9''))
        ''g1'' 0) = Some (Waiting, None, None)"
    using t live by blast
  have c: "map_option (\<lambda>ps. cv_wRemainingMs (pub_clocks ps))
     (getGameState toyChess (fst (loadFromDisk toyChess (saveToDisk [(''g1'', demo_paused)]) ''t9''))
        ''g1'' 0) = Some 297000"
    using t [THEN conjunct2, THEN conjunct1] by (simp add: w)
  show ?thesis
    using demo_stores_ok(2) a b c by blast
qed

subsection \<open>Join and leave\<close>

lemma set_player_keeps:
  "status (set_player g c p) = status g"
  "clocks (set_player g c p) = clocks g"
  "chess (set_player g c p) = chess g"
  "moves (set_player g c p) = moves g"
  "moveCursor (set_player g c p) = moveCursor g"
  "initialFen (set_player g c p) = initialFen g"
  "g_id (set_player g c p) = g_id g"
  by (simp_all add: set_player_def)

lemma reseated_set_player: "reseated g ((set_player g c p)\<lparr>updatedAt := stamp\<rparr>)"
  by (simp add: reseated_def set_player_keeps)

lemma joinGame_on_summary:
  assumes "joinGame_on L g gameId name playerId requestedColor newId stamp now = (g', r)"
  shows "(jr_role r = PlayerRole \<and> (\<exists>g0. reseated g g0 \<and> g' = maybeStartGame L g0 now)) \<or>
     (jr_role r = SpectatorRole \<and>
      g' = g\<lparr>spectators := map_set (spectators g) newId (or_null name), updatedAt := stamp\<rparr>)"
proof (cases "truthy_id playerId \<and>
         (strict_eq playerId (p_id (w_player (players g))) \<or>
          strict_eq playerId (p_id (b_player (players g))))")
  case True
  with assms show ?thesis
    unfolding joinGame_on_def Let_def
    by (auto intro!: exI reseated_set_player)
next
  case False
  let ?seat = "\<lambda>c. maybeStartGame L
      ((set_player g c \<lparr>p_id = Some newId, p_name = or_null name, present = True\<rparr>)
         \<lparr>updatedAt := stamp\<rparr>) now"
  from False assms have
    "(\<exists>c. g' = ?seat c \<and> jr_role r = PlayerRole) \<or>
     (jr_role r = SpectatorRole \<and>
      g' = g\<lparr>spectators := map_set (spectators g) newId (or_null name), updatedAt := stamp\<rparr>)"
    unfolding joinGame_on_def Let_def
    by (auto split: if_splits)
  then show ?thesis
    using reseated_set_player by blast
qed

lemma leaveGame_on_summary:
  assumes "leaveGame_on L g playerId stamp now = (g', Returned ps)"
  shows "\<exists>g0. reseated g g0 \<and> g' = maybeStartGame L g0 now \<and> ps = publicState L g' now"
proof -
  have seats: "reseated g (g\<lparr>players := p, updatedAt := stamp\<rparr>)" for p
    by (simp add: reseated_def)
  have watchers: "reseated g (g\<lparr>spectators := s, updatedAt := stamp\<rparr>)" for s
    by (simp add: reseated_def)
  consider (white) "strict_eq playerId (p_id (w_player (players g)))"
    | (black) "\<not> strict_eq playerId (p_id (w_player (players g)))"
        "strict_eq playerId (p_id (b_player (players g)))"
    | (other) "\<not> strict_eq playerId (p_id (w_player (players g)))"
        "\<not> strict_eq playerId (p_id (b_player (players g)))"
    by blast
  then show ?thesis
  proof cases
    case white
    with assms have
      "g' = maybeStartGame L (g\<lparr>players := (players g)\<lparr>w_player := vacant\<rparr>, updatedAt := stamp\<rparr>) now"
      "ps = publicState L g' now"
      by (auto simp: leaveGame_on_def Let_def)
    with seats show ?thesis by blast
  next
    case black
    with assms have
      "g' = maybeStartGame L (g\<lparr>players := (players g)\<lparr>b_player := vacant\<rparr>, updatedAt := stamp\<rparr>) now"
      "ps = publicState L g' now"
      by (auto simp: leaveGame_on_def Let_def)
    with seats show ?thesis by blast
  next
    case other
    with assms obtain s where
      "g' = maybeStartGame L (g\<lparr>spectators := map_delete (spectators g) s, updatedAt := stamp\<rparr>) now"
      "ps = publicState L g' now"
      by (auto simp: leaveGame_on_def Let_def split: js_id.splits if_splits)
    with watchers show ?thesis by blast
  qed
qed

lemma leaveGame_on_Rejected:
  "leaveGame_on L g playerId stamp now = (g', Rejected f) \<Longrightarrow> g' = g"
  unfolding leaveGame_on_def Let_def
  by (auto split: if_splits js_id.splits)

lemma restart_summary:
  assumes "state (status g0) \<noteq> Finished"
  shows "status (maybeStartGame L g0 now) =
       (status g0)\<lparr>state := (if both_seated g0 then Active else Waiting)\<rparr>"
    and "both_seated (maybeStartGame L g0 now) = both_seated g0"
    and "both_seated g0 \<Longrightarrow> \<not> running (clocks g0) \<Longrightarrow>
       clocks (maybeStartGame L g0 now) =
         (clocks g0)\<lparr>running := True, activeColor := Some (chess_turn L (chess g0)),
                     lastTickAt := Some now\<rparr>"
    and "\<not> both_seated g0 \<Longrightarrow> running (clocks g0) \<Longrightarrow>
       clocks (maybeStartGame L g0 now) =
         stop_clock ((clocks g0)\<lparr>wRemainingMs := cv_wRemainingMs (effectiveClocksSnapshot g0 now),
                                 bRemainingMs := cv_bRemainingMs (effectiveClocksSnapshot g0 now)\<rparr>)"
proof -
  show "status (maybeStartGame L g0 now) =
       (status g0)\<lparr>state := (if both_seated g0 then Active else Waiting)\<rparr>"
  proof (cases "both_seated g0")
    case seated: True
    show ?thesis
    proof (cases "running (clocks g0)")
      case True
      from maybeStartGame_continue [OF assms seated True, of L now] seated
      show ?thesis by simp
    next
      case False
      from maybeStartGame_start [OF assms seated False, of L now] seated
      show ?thesis by simp
    qed
  next
    case missing: False
    show ?thesis
    proof (cases "running (clocks g0)")
      case True
      from maybeStartGame_pause [OF assms missing True, of L now] missing
      show ?thesis by simp
    next
      case False
      from maybeStartGame_wait [OF assms missing False, of L now] missing
      show ?thesis by simp
    qed
  qed
  show "both_seated (maybeStartGame L g0 now) = both_seated g0"
    by (simp add: both_seated_def maybeStartGame_keeps)
  show "both_seated g0 \<Longrightarrow> \<not> running (clocks g0) \<Longrightarrow>
       clocks (maybeStartGame L g0 now) =
         (clocks g0)\<lparr>running := True, activeColor := Some (chess_turn L (chess g0)),
                     lastTickAt := Some now\<rparr>"
    using assms by (simp add: maybeStartGame_start)
  show "\<not> both_seated g0 \<Longrightarrow> running (clocks g0) \<Longrightarrow>
       clocks (maybeStartGame L g0 now) =
         stop_clock ((clocks g0)\<lparr>wRemainingMs := cv_wRemainingMs (effectiveClocksSnapshot g0 now),
                                 bRemainingMs := cv_bRemainingMs (effectiveClocksSnapshot g0 now)\<rparr>)"
    using assms by (simp add: maybeStartGame_pause)
qed


lemma reevaluated_maybeStartGame:
  assumes "reseated g g0" and "state (status g) \<noteq> Finished"
  shows "reevaluated L g now (maybeStartGame L g0 now)"
proof -
  from assms have open0: "state (status g0) \<noteq> Finished"
    and cl: "clocks g0 = clocks g" and ch: "chess g0 = chess g"
    by (simp_all add: reseated_def)
  have snap: "effectiveClocksSnapshot g0 now = effectiveClocksSnapshot g now"
    using cl by (rule snapshot_depends_on_clocks)
  note sum = restart_summary [OF open0, of L now]
  have "clocks (maybeStartGame L g0 now) = clock_after L g now (both_seated g0)"
  proof (cases "both_seated g0")
    case seated: True
    show ?thesis
    proof (cases "running (clocks g0)")
      case True
      from maybeStartGame_continue [OF open0 seated True, of L now] seated True
      show ?thesis by (simp add: clock_after_def cl)
    next
      case False
      from sum(3) [OF seated False] seated False
      show ?thesis by (simp add: clock_after_def cl ch)
    qed
  next
    case missing: False
    show ?thesis
    proof (cases "running (clocks g0)")
      case True
      from sum(4) [OF missing True] missing True
      show ?thesis by (simp add: clock_after_def cl snap)
    next
      case False
      from maybeStartGame_wait [OF open0 missing False, of L now] missing False
      show ?thesis by (simp add: clock_after_def cl)
    qed
  qed
  moreover have "status g0 = status g"
    using assms(1) by (simp add: reseated_def)
  ultimately show ?thesis
    using sum(1,2) by (simp add: reevaluated_def)
qed

lemma reading_nonneg:
  "0 \<le> cv_wRemainingMs (effectiveClocksSnapshot g atMs)"
  "0 \<le> cv_bRemainingMs (effectiveClocksSnapshot g atMs)"
  by (simp_all add: effectiveClocksSnapshot_def Let_def)

text \<open>While paused, the reading is the one committed, at every instant.\<close>

lemma paused_reading:
  assumes "clocks g' = clock_after L g now False" and "running (clocks g)"
  shows "cv_wRemainingMs (effectiveClocksSnapshot g' t) =
       cv_wRemainingMs (effectiveClocksSnapshot g now)"
    and "cv_bRemainingMs (effectiveClocksSnapshot g' t) =
       cv_bRemainingMs (effectiveClocksSnapshot g now)"
proof -
  from assms have stopped: "\<not> running (clocks g')"
    and w: "wRemainingMs (clocks g') = cv_wRemainingMs (effectiveClocksSnapshot g now)"
    and b: "bRemainingMs (clocks g') = cv_bRemainingMs (effectiveClocksSnapshot g now)"
    by (simp_all add: clock_after_def stop_clock_def)
  from stopped have s: "\<not> running (clocks g') \<or> activeColor (clocks g') = None \<or>
      lastTickAt (clocks g') = None"
    by simp
  show "cv_wRemainingMs (effectiveClocksSnapshot g' t) =
       cv_wRemainingMs (effectiveClocksSnapshot g now)"
    using reading_nonneg(1) [of g now] by (simp add: snapshot_stopped(1) [OF s] w)
  show "cv_bRemainingMs (effectiveClocksSnapshot g' t) =
       cv_bRemainingMs (effectiveClocksSnapshot g now)"
    using reading_nonneg(2) [of g now] by (simp add: snapshot_stopped(2) [OF s] b)
qed

text \<open>
  Once started, the stored total of the side to move runs down from the instant of the
  start, and the other total stands.
\<close>

lemma started_reading:
  assumes "clocks g' = clock_after L g now True" and "\<not> running (clocks g)"
  shows "remaining_of c (effectiveClocksSnapshot g' t) =
     max 0 (stored_remaining c (clocks g) -
            (if c = chess_turn L (chess g) then max 0 (t - now) else 0))"
proof -
  from assms have run: "running (clocks g')"
    and act: "activeColor (clocks g') = Some (chess_turn L (chess g))"
    and tick: "lastTickAt (clocks g') = Some now"
    and w: "wRemainingMs (clocks g') = wRemainingMs (clocks g)"
    and b: "bRemainingMs (clocks g') = bRemainingMs (clocks g)"
    by (simp_all add: clock_after_def)
  show ?thesis
    by (cases c; cases "chess_turn L (chess g)")
      (simp_all add: remaining_of_def stored_remaining_def snapshot_running [OF run act tick] w b)
qed

text \<open>The two ends of the order in which \<open>joinGame\<close> places a newcomer.\<close>

lemma join_takes_black_seat:
  assumes "\<not> truthy_id playerId" and "normalizeColor requestedColor = None"
    and "truthy (p_id (w_player (players g)))" and "\<not> truthy (p_id (b_player (players g)))"
  shows "joinGame_on L g gameId name playerId requestedColor newId stamp now =
     (maybeStartGame L
        ((set_player g B \<lparr>p_id = Some newId, p_name = or_null name, present = True\<rparr>)
           \<lparr>updatedAt := stamp\<rparr>) now,
      \<lparr>jr_gameId = gameId, jr_playerId = newId, jr_color = Some B, jr_role = PlayerRole,
       jr_state = publicState L
         (maybeStartGame L
            ((set_player g B \<lparr>p_id = Some newId, p_name = or_null name, present = True\<rparr>)
               \<lparr>updatedAt := stamp\<rparr>) now) now\<rparr>)"
  using assms unfolding joinGame_on_def Let_def get_player_def by simp

lemma join_as_spectator:
  assumes "\<not> truthy_id playerId" and "both_seated g"
  shows "joinGame_on L g gameId name playerId requestedColor newId stamp now =
     (g\<lparr>spectators := map_set (spectators g) newId (or_null name), updatedAt := stamp\<rparr>,
      \<lparr>jr_gameId = gameId, jr_playerId = newId, jr_color = None, jr_role = SpectatorRole,
       jr_state = publicState L
         (g\<lparr>spectators := map_set (spectators g) newId (or_null name), updatedAt := stamp\<rparr>)
         now\<rparr>)"
proof -
  from assms(2) have full: "\<not> \<not> truthy (p_id (get_player g c))" for c
    by (simp add: both_seated_def get_player_def)
  show ?thesis
    using assms(1) full unfolding joinGame_on_def Let_def by simp
qed

lemma joinGame_found:
  assumes "map_of S gameId = Some g"
    and "joinGame_on L g gameId name playerId requestedColor newId stamp now = (g', r)"
  shows "joinGame L S gameId name playerId requestedColor newId stamp now =
     (map_set S gameId g', Returned r)"
  using assms by (simp add: joinGame_def)

lemma leaveGame_found:
  assumes "map_of S gameId = Some g" and "leaveGame_on L g playerId stamp now = (g', r)"
  shows "leaveGame L S gameId playerId stamp now = (map_set S gameId g', r)"
  using assms by (simp add: leaveGame_def)

text \<open>
  Claim C7, as stated, fails for a join as spectator, which does not evaluate start and
  pause again. The live sample game, saved and loaded, is \<open>waiting\<close> with both colours
  seated and the clock at rest. A newcomer who joins it becomes a spectator: the game is
  not finished, both colour slots are occupied, and after the join its state is still
  \<open>waiting\<close>.
\<close>

theorem spectator_join_leaves_waiting_counterexample:
  "loadFromDisk toyChess (saveToDisk [(''g1'', demo)]) ''t9'' =
     ([(''g1'', at_rest toyChess demo)], 1) \<and>
   state (status (at_rest toyChess demo)) = Waiting \<and>
   both_seated (at_rest toyChess demo) \<and>
   joinGame toyChess [(''g1'', at_rest toyChess demo)] ''g1'' (Some ''Eve'') Undefined None
       ''pe'' ''t10'' 9000 =
     ([(''g1'', (at_rest toyChess demo)\<lparr>spectators := [(''pe'', Some ''Eve'')],
                                         updatedAt := ''t10''\<rparr>)],
      Returned
        \<lparr>jr_gameId = ''g1'', jr_playerId = ''pe'', jr_color = None, jr_role = SpectatorRole,
         jr_state = publicState toyChess
           ((at_rest toyChess demo)\<lparr>spectators := [(''pe'', Some ''Eve'')],
                                    updatedAt := ''t10''\<rparr>) 9000\<rparr>) \<and>
   both_seated ((at_rest toyChess demo)\<lparr>spectators := [(''pe'', Some ''Eve'')],
                                       updatedAt := ''t10''\<rparr>) \<and>
   state (status ((at_rest toyChess demo)\<lparr>spectators := [(''pe'', Some ''Eve'')],
                                          updatedAt := ''t10''\<rparr>)) = Waiting"
proof -
  have live: "computeTermination toyChess (chess demo) = None"
    by (simp add: computeTermination_def isGameOver_def demo_def toyChess_def)
  have st: "state (status (at_rest toyChess demo)) = Waiting"
    by (simp add: at_rest_def recomputed_status_def live)
  have seats: "both_seated (at_rest toyChess demo)"
    by (simp add: at_rest_def both_seated_def demo_def)
  have nobody: "spectators (at_rest toyChess demo) = []"
    by (simp add: at_rest_def demo_def)
  have name: "or_null (Some ''Eve'') = Some ''Eve''"
    by (simp add: or_null_def)
  have found: "map_of [(''g1'', at_rest toyChess demo)] ''g1'' = Some (at_rest toyChess demo)"
    by simp
  have undef: "\<not> truthy_id Undefined"
    by simp
  note on = join_as_spectator [OF undef seats, of toyChess "''g1''" "Some ''Eve''" None "''pe''"
      "''t10''" 9000, unfolded nobody name]
  have joined: "joinGame toyChess [(''g1'', at_rest toyChess demo)] ''g1'' (Some ''Eve'') Undefined None
       ''pe'' ''t10'' 9000 =
     ([(''g1'', (at_rest toyChess demo)\<lparr>spectators := [(''pe'', Some ''Eve'')],
                                         updatedAt := ''t10''\<rparr>)],
      Returned
        \<lparr>jr_gameId = ''g1'', jr_playerId = ''pe'', jr_color = None, jr_role = SpectatorRole,
         jr_state = publicState toyChess
           ((at_rest toyChess demo)\<lparr>spectators := [(''pe'', Some ''Eve'')],
                                    updatedAt := ''t10''\<rparr>) 9000\<rparr>)"
    unfolding joinGame_found [OF found on [simplified]] by simp
  have seats': "both_seated ((at_rest toyChess demo)\<lparr>spectators := [(''pe'', Some ''Eve'')],
                                       updatedAt := ''t10''\<rparr>)"
    using seats by (simp add: both_seated_def)
  show ?thesis
    using loadFromDisk_saved [OF demo_stores_ok(1), of "''t9''"] st seats joined seats'
    by simp
qed


text \<open>
  Claim C7, amended. Take a session of the store that is not finished. After a join that
  seats or reconnects a player, and after any successful leave, start and pause have
  been evaluated again: the state is \<open>active\<close> if both colour slots are occupied and
  \<open>waiting\<close> if not, and the clock is \<open>clock_after\<close>. A join as spectator leaves
  status, clock and seats as they were. When the evaluation finds both seated and the
  clock at rest, the clock starts: running, anchored at the current instant, for the
  side to move, the stored totals untouched, so that a later reading takes off the time
  since the start and nothing else. When it finds a colour missing and the clock
  running, the clock is paused: the readings at the current instant are stored, then
  \<open>running\<close> is false and \<open>activeColor\<close> and \<open>lastTickAt\<close> are null, so that every later
  reading is the reading at the pause.
\<close>

theorem start_pause_after_join_and_leave:
  assumes "map_of S gameId = Some g" and "state (status g) \<noteq> Finished"
  shows
   "(\<forall>S' r. joinGame L S gameId name playerId requestedColor newId stamp now = (S', Returned r) \<and>
            jr_role r = PlayerRole \<longrightarrow>
       (\<exists>g'. map_of S' gameId = Some g' \<and> reevaluated L g now g')) \<and>
    (\<forall>S' r. joinGame L S gameId name playerId requestedColor newId stamp now = (S', Returned r) \<and>
            jr_role r = SpectatorRole \<longrightarrow>
       (\<exists>g'. map_of S' gameId = Some g' \<and> status g' = status g \<and> clocks g' = clocks g \<and>
             players g' = players g)) \<and>
    (\<forall>S' ps. leaveGame L S gameId leaver stamp now = (S', Returned ps) \<longrightarrow>
       (\<exists>g'. map_of S' gameId = Some g' \<and> reevaluated L g now g')) \<and>
    (\<forall>g'. reevaluated L g now g' \<and> both_seated g' \<and> \<not> running (clocks g) \<longrightarrow>
       state (status g') = Active \<and>
       running (clocks g') \<and>
       lastTickAt (clocks g') = Some now \<and>
       activeColor (clocks g') = Some (chess_turn L (chess g)) \<and>
       wRemainingMs (clocks g') = wRemainingMs (clocks g) \<and>
       bRemainingMs (clocks g') = bRemainingMs (clocks g) \<and>
       (\<forall>t c. remaining_of c (effectiveClocksSnapshot g' t) =
              max 0 (stored_remaining c (clocks g) -
                     (if c = chess_turn L (chess g) then max 0 (t - now) else 0)))) \<and>
    (\<forall>g'. reevaluated L g now g' \<and> \<not> both_seated g' \<and> running (clocks g) \<longrightarrow>
       state (status g') = Waiting \<and>
       wRemainingMs (clocks g') = cv_wRemainingMs (effectiveClocksSnapshot g now) \<and>
       bRemainingMs (clocks g') = cv_bRemainingMs (effectiveClocksSnapshot g now) \<and>
       \<not> running (clocks g') \<and>
       activeColor (clocks g') = None \<and>
       lastTickAt (clocks g') = None \<and>
       (\<forall>t. cv_wRemainingMs (effectiveClocksSnapshot g' t) =
              cv_wRemainingMs (effectiveClocksSnapshot g now) \<and>
            cv_bRemainingMs (effectiveClocksSnapshot g' t) =
              cv_bRemainingMs (effectiveClocksSnapshot g now)))"
proof -
  have player: "\<exists>g'. map_of S' gameId = Some g' \<and> reevaluated L g now g'"
    if j: "joinGame L S gameId name playerId requestedColor newId stamp now = (S', Returned r)"
      and role: "jr_role r = PlayerRole" for S' r
  proof -
    obtain g' r' where on: "joinGame_on L g gameId name playerId requestedColor newId stamp now = (g', r')"
      by (cases "joinGame_on L g gameId name playerId requestedColor newId stamp now")
    from j joinGame_found [OF assms(1) on] have S': "S' = map_set S gameId g'" and r: "r' = r"
      by simp_all
    from joinGame_on_summary [OF on] role r obtain g0 where
      "reseated g g0" "g' = maybeStartGame L g0 now"
      by auto
    then have "reevaluated L g now g'"
      using assms(2) by (simp add: reevaluated_maybeStartGame)
    then show ?thesis
      by (auto simp: S' map_of_map_set)
  qed
  have watcher: "\<exists>g'. map_of S' gameId = Some g' \<and> status g' = status g \<and> clocks g' = clocks g \<and>
             players g' = players g"
    if j: "joinGame L S gameId name playerId requestedColor newId stamp now = (S', Returned r)"
      and role: "jr_role r = SpectatorRole" for S' r
  proof -
    obtain g' r' where on: "joinGame_on L g gameId name playerId requestedColor newId stamp now = (g', r')"
      by (cases "joinGame_on L g gameId name playerId requestedColor newId stamp now")
    from j joinGame_found [OF assms(1) on] have S': "S' = map_set S gameId g'" and r: "r' = r"
      by simp_all
    from joinGame_on_summary [OF on] role r have
      "g' = g\<lparr>spectators := map_set (spectators g) newId (or_null name), updatedAt := stamp\<rparr>"
      by auto
    then show ?thesis
      by (simp add: S' map_of_map_set)
  qed
  have leave: "\<exists>g'. map_of S' gameId = Some g' \<and> reevaluated L g now g'"
    if l: "leaveGame L S gameId leaver stamp now = (S', Returned ps)" for S' ps
  proof -
    obtain g' r' where on: "leaveGame_on L g leaver stamp now = (g', r')"
      by (cases "leaveGame_on L g leaver stamp now")
    from l leaveGame_found [OF assms(1) on] have S': "S' = map_set S gameId g'"
      and r: "r' = Returned ps"
      by simp_all
    from leaveGame_on_summary [OF on [unfolded r]] obtain g0 where
      "reseated g g0" "g' = maybeStartGame L g0 now"
      by auto
    then have "reevaluated L g now g'"
      using assms(2) by (simp add: reevaluated_maybeStartGame)
    then show ?thesis
      by (auto simp: S' map_of_map_set)
  qed
  have start: "state (status g') = Active \<and>
       running (clocks g') \<and>
       lastTickAt (clocks g') = Some now \<and>
       activeColor (clocks g') = Some (chess_turn L (chess g)) \<and>
       wRemainingMs (clocks g') = wRemainingMs (clocks g) \<and>
       bRemainingMs (clocks g') = bRemainingMs (clocks g) \<and>
       (\<forall>t c. remaining_of c (effectiveClocksSnapshot g' t) =
              max 0 (stored_remaining c (clocks g) -
                     (if c = chess_turn L (chess g) then max 0 (t - now) else 0)))"
    if "reevaluated L g now g'" "both_seated g'" "\<not> running (clocks g)" for g'
  proof -
    from that have st: "state (status g') = Active"
      and cl: "clocks g' = clock_after L g now True"
      by (simp_all add: reevaluated_def)
    from cl that(3) have "clocks g' =
        (clocks g)\<lparr>running := True, activeColor := Some (chess_turn L (chess g)),
                    lastTickAt := Some now\<rparr>"
      by (simp add: clock_after_def)
    then show ?thesis
      using st started_reading [OF cl that(3)] by simp
  qed
  have pause: "state (status g') = Waiting \<and>
       wRemainingMs (clocks g') = cv_wRemainingMs (effectiveClocksSnapshot g now) \<and>
       bRemainingMs (clocks g') = cv_bRemainingMs (effectiveClocksSnapshot g now) \<and>
       \<not> running (clocks g') \<and>
       activeColor (clocks g') = None \<and>
       lastTickAt (clocks g') = None \<and>
       (\<forall>t. cv_wRemainingMs (effectiveClocksSnapshot g' t) =
              cv_wRemainingMs (effectiveClocksSnapshot g now) \<and>
            cv_bRemainingMs (effectiveClocksSnapshot g' t) =
              cv_bRemainingMs (effectiveClocksSnapshot g now))"
    if "reevaluated L g now g'" "\<not> both_seated g'" "running (clocks g)" for g'
  proof -
    from that have st: "state (status g') = Waiting"
      and cl: "clocks g' = clock_after L g now False"
      by (simp_all add: reevaluated_def)
    from cl that(3) have "clocks g' =
        stop_clock ((clocks g)\<lparr>wRemainingMs := cv_wRemainingMs (effectiveClocksSnapshot g now),
                               bRemainingMs := cv_bRemainingMs (effectiveClocksSnapshot g now)\<rparr>)"
      by (simp add: clock_after_def)
    then show ?thesis
      using st paused_reading [OF cl that(3)] by (simp add: stop_clock_def)
  qed
  show ?thesis
    using player watcher leave start pause by blast
qed


text \<open>
  A newcomer takes the vacant black seat of the paused sample game at the instant 9000:
  the game is active and Black's clock starts at 9000. Black leaves the live sample game
  at the instant 6000: the game waits and White's reading, 295000, is stored.
\<close>

theorem start_pause_after_join_and_leave_witness:
  "(\<exists>S' r g'.
      joinGame toyChess [(''g1'', demo_paused)] ''g1'' (Some ''Bea'') Undefined None ''pb2'' ''t5'' 9000 =
        (S', Returned r) \<and>
      jr_role r = PlayerRole \<and> jr_color r = Some B \<and>
      map_of S' ''g1'' = Some g' \<and> both_seated g' \<and>
      state (status g') = Active \<and> running (clocks g') \<and>
      lastTickAt (clocks g') = Some 9000 \<and> activeColor (clocks g') = Some B \<and>
      wRemainingMs (clocks g') = 297000) \<and>
   (\<exists>S' ps g'.
      leaveGame toyChess [(''g1'', demo)] ''g1'' (Str ''pb'') ''t2'' 6000 = (S', Returned ps) \<and>
      map_of S' ''g1'' = Some g' \<and> \<not> both_seated g' \<and>
      state (status g') = Waiting \<and> \<not> running (clocks g') \<and>
      lastTickAt (clocks g') = None \<and> activeColor (clocks g') = None \<and>
      wRemainingMs (clocks g') = 295000)"
proof -
  let ?S0 = "[(''g1'', demo_paused)]"
  let ?G0 = "(set_player demo_paused B \<lparr>p_id = Some ''pb2'', p_name = or_null (Some ''Bea''),
      present = True\<rparr>)\<lparr>updatedAt := ''t5''\<rparr>"
  let ?G = "maybeStartGame toyChess ?G0 9000"
  have found: "map_of ?S0 ''g1'' = Some demo_paused"
    by simp
  have pre: "\<not> truthy_id Undefined" "normalizeColor None = None"
    "truthy (p_id (w_player (players demo_paused)))"
    "\<not> truthy (p_id (b_player (players demo_paused)))"
    by (simp_all add: normalizeColor_def demo_paused_def demo_def vacant_def)
  have facts: "state (status demo_paused) \<noteq> Finished" "\<not> running (clocks demo_paused)"
    "chess_turn toyChess (chess demo_paused) = B" "wRemainingMs (clocks demo_paused) = 297000"
    by (simp_all add: demo_paused_def demo_def reset_status_def toyChess_def)
  note on = join_takes_black_seat [OF pre, of toyChess "''g1''" "Some ''Bea''" "''pb2''" "''t5''" 9000]
  note joined = joinGame_found [OF found on]
  have seated: "both_seated ?G"
    by (simp add: both_seated_def maybeStartGame_keeps set_player_def demo_paused_def demo_def)
  note t = start_pause_after_join_and_leave [OF found facts(1), of toyChess "Some ''Bea''" Undefined
      None "''pb2''" "''t5''" 9000]
  from t joined obtain g' where g': "map_of (map_set ?S0 ''g1'' ?G) ''g1'' = Some g'"
    "reevaluated toyChess demo_paused 9000 g'"
    by fastforce
  from g'(1) have same: "g' = ?G"
    by simp
  from t g'(2) seated facts(2) have started: "state (status g') = Active" "running (clocks g')"
    "lastTickAt (clocks g') = Some 9000"
    "activeColor (clocks g') = Some (chess_turn toyChess (chess demo_paused))"
    "wRemainingMs (clocks g') = wRemainingMs (clocks demo_paused)"
    unfolding same by blast+
  have first: "\<exists>S' r g'.
      joinGame toyChess ?S0 ''g1'' (Some ''Bea'') Undefined None ''pb2'' ''t5'' 9000 =
        (S', Returned r) \<and>
      jr_role r = PlayerRole \<and> jr_color r = Some B \<and>
      map_of S' ''g1'' = Some g' \<and> both_seated g' \<and>
      state (status g') = Active \<and> running (clocks g') \<and>
      lastTickAt (clocks g') = Some 9000 \<and> activeColor (clocks g') = Some B \<and>
      wRemainingMs (clocks g') = 297000"
    using seated started unfolding same facts(3,4) joined
    by simp
  let ?T0 = "[(''g1'', demo)]"
  let ?H0 = "demo\<lparr>players := (players demo)\<lparr>b_player := vacant\<rparr>, updatedAt := ''t2''\<rparr>"
  let ?H = "maybeStartGame toyChess ?H0 6000"
  have found2: "map_of ?T0 ''g1'' = Some demo"
    by simp
  have ids: "\<not> strict_eq (Str ''pb'') (p_id (w_player (players demo)))"
    "strict_eq (Str ''pb'') (p_id (b_player (players demo)))"
    by (simp_all add: demo_def)
  have on2: "leaveGame_on toyChess demo (Str ''pb'') ''t2'' 6000 =
      (?H, Returned (publicState toyChess ?H 6000))"
    using ids by (simp add: leaveGame_on_def Let_def)
  note left = leaveGame_found [OF found2 on2]
  have missing: "\<not> both_seated ?H"
    by (simp add: both_seated_def maybeStartGame_keeps vacant_def)
  have open2: "state (status demo) \<noteq> Finished"
    by (simp add: demo_facts)
  note t2 = start_pause_after_join_and_leave [OF found2 open2, of toyChess _ _ _ _ "''t2''" 6000
      "Str ''pb''"]
  from t2 left obtain h' where h': "map_of (map_set ?T0 ''g1'' ?H) ''g1'' = Some h'"
    "reevaluated toyChess demo 6000 h'"
    by fastforce
  from h'(1) have same2: "h' = ?H"
    by simp
  from t2 h'(2) missing demo_clock(1) have paused: "state (status h') = Waiting"
    "wRemainingMs (clocks h') = cv_wRemainingMs (effectiveClocksSnapshot demo 6000)"
    "\<not> running (clocks h')" "activeColor (clocks h') = None" "lastTickAt (clocks h') = None"
    unfolding same2 by blast+
  have second: "\<exists>S' ps g'.
      leaveGame toyChess ?T0 ''g1'' (Str ''pb'') ''t2'' 6000 = (S', Returned ps) \<and>
      map_of S' ''g1'' = Some g' \<and> \<not> both_seated g' \<and>
      state (status g') = Waiting \<and> \<not> running (clocks g') \<and>
      lastTickAt (clocks g') = None \<and> activeColor (clocks g') = None \<and>
      wRemainingMs (clocks g') = 295000"
    using missing paused unfolding same2 demo_reading left
    by simp
  from first second show ?thesis ..
qed

subsection \<open>The cursor and the redo tail\<close>

lemma cursors_ok_map_set:
  "cursors_ok S \<Longrightarrow> cursor_ok g \<Longrightarrow> cursors_ok (map_set S k g)"
  by (induction S) (auto simp: cursors_ok_def)

lemma cursors_ok_found:
  "cursors_ok S \<Longrightarrow> map_of S k = Some g \<Longrightarrow> cursor_ok g"
  by (induction S) (auto simp: cursors_ok_def split: if_splits)

lemma cursor_ok_cong:
  "moves g' = moves g \<Longrightarrow> moveCursor g' = moveCursor g \<Longrightarrow> cursor_ok g' = cursor_ok g"
  by (simp add: cursor_ok_def)

lemma reseated_history:
  "reseated g g0 \<Longrightarrow>
   moves (maybeStartGame L g0 now) = moves g \<and> moveCursor (maybeStartGame L g0 now) = moveCursor g"
  by (simp add: reseated_def maybeStartGame_keeps)

lemma joinGame_on_history:
  assumes "joinGame_on L g gameId name playerId requestedColor newId stamp now = (g', r)"
  shows "moves g' = moves g \<and> moveCursor g' = moveCursor g"
  using joinGame_on_summary [OF assms] reseated_history [of g _ L now]
  by auto

lemma leaveGame_on_history:
  assumes "leaveGame_on L g playerId stamp now = (g', r)"
  shows "moves g' = moves g \<and> moveCursor g' = moveCursor g"
proof (cases r)
  case (Returned ps)
  from leaveGame_on_summary [OF assms [unfolded Returned]] reseated_history [of g _ L now]
  show ?thesis by auto
next
  case (Rejected f)
  from leaveGame_on_Rejected [OF assms [unfolded Rejected]] show ?thesis by simp
next
  case Thrown
  from assms [unfolded Thrown] show ?thesis
    unfolding leaveGame_on_def Let_def
    by (auto split: if_splits js_id.splits)
qed

lemma tick_on_history:
  "moves (fst (tick_on g atMs stamp)) = moves g \<and>
   moveCursor (fst (tick_on g atMs stamp)) = moveCursor g"
  by (simp add: tick_on_def Let_def)

lemma undo_on_history:
  assumes "cursor_ok g" and "undo_on L g playerId stamp now = (g', r)"
  shows "moves g' = moves g \<and> cursor_ok g' \<and>
     ((\<exists>ps. r = Returned ps) \<and> moveCursor g' = moveCursor g - 1 \<or>
      (\<exists>f. r = Rejected f) \<and> moveCursor g' = moveCursor g)"
  using assms(2) assms(1) unfolding undo_on_cases [OF assms(1)]
  by (auto simp: cursor_ok_def split: if_splits)

lemma redo_on_history:
  assumes "cursor_ok g" and "redo_on L g playerId stamp now = (g', r)"
  shows "moves g' = moves g \<and> cursor_ok g' \<and>
     ((\<exists>ps. r = Returned ps) \<and> moveCursor g' = moveCursor g + 1 \<or>
      (\<exists>f. r = Rejected f) \<and> moveCursor g' = moveCursor g)"
  using assms(2) assms(1) unfolding redo_on_cases [OF assms(1)]
  by (auto simp: cursor_ok_def split: if_splits)

lemma commit_history:
  "moves (fst (commitClockBeforeMove g atMs)) = moves g"
  "moveCursor (fst (commitClockBeforeMove g atMs)) = moveCursor g"
  "chess (fst (commitClockBeforeMove g atMs)) = chess g"
  by (simp_all add: commitClockBeforeMove_def Let_def)

lemma kept_moves_take:
  "cursor_ok g \<Longrightarrow> kept_moves g = take (nat (moveCursor g)) (moves g)"
  by (simp add: kept_moves_def slice0_def cursor_ok_def)

lemma makeMove_on_history:
  assumes "cursor_ok g" and "makeMove_on L g playerId src dst promotion atMs stamp = (g', r)"
  shows "cursor_ok g' \<and>
     (case accepted_move L g playerId src dst promotion atMs of
        Some (c', mv) \<Rightarrow>
          moves g' = take (nat (moveCursor g)) (moves g) @ [move_record mv] \<and>
          moveCursor g' = int (length (moves g'))
      | None \<Rightarrow> moves g' = moves g \<and> moveCursor g' = moveCursor g)"
proof (cases "assertPlayerCanMove L g playerId")
  case (Inl f)
  with assms show ?thesis
    by (simp add: makeMove_on_def accepted_move_def)
next
  case (Inr col)
  obtain g1 timedOut where commit: "commitClockBeforeMove g atMs = (g1, timedOut)"
    by (cases "commitClockBeforeMove g atMs")
  from commit_history [of g atMs] commit have g1: "moves g1 = moves g" "moveCursor g1 = moveCursor g"
    by simp_all
  then have ok1: "cursor_ok g1"
    using assms(1) by (simp add: cursor_ok_def)
  from assms(2) Inr have run: "commit_and_apply L g col src dst promotion atMs stamp = (g', r)"
    by (simp add: makeMove_on_def)
  show ?thesis
  proof (cases timedOut)
    case True
    with commit have commit': "commitClockBeforeMove g atMs = (g1, True)" by simp
    from run commit_and_apply_timed_out [OF commit']
    have "g' = g1\<lparr>updatedAt := stamp\<rparr>" by simp
    with Inr commit' g1 assms(1) show ?thesis
      by (simp add: accepted_move_def cursor_ok_def)
  next
    case False
    with commit have commit': "commitClockBeforeMove g atMs = (g1, False)" by simp
    show ?thesis
    proof (cases "chess_move L (chess g1)
        \<lparr>m_from = src, m_to = dst, m_promotion = safePromotion promotion\<rparr>")
      case None
      from run commit_and_apply_refused [OF commit' None] have "g' = g1" by simp
      with Inr commit' None g1 assms(1) show ?thesis
        by (simp add: accepted_move_def cursor_ok_def)
    next
      case (Some a)
      obtain c' mv where a: "a = (c', mv)" by (cases a)
      note legal = Some [unfolded a]
      from run commit_and_apply_accepted [OF commit' legal]
      have g': "g' = (settle L (applied g1 c' mv) col atMs)\<lparr>updatedAt := stamp\<rparr>" by simp
      have ms: "moves g' = take (nat (moveCursor g)) (moves g) @ [move_record mv]"
        by (simp add: g' settle_keeps applied_fields(1) kept_moves_take [OF ok1] g1)
      have cur: "moveCursor g' = int (length (moves g'))"
        by (simp add: g' settle_keeps applied_fields(1,2))
      from ms cur have "cursor_ok g'"
        by (simp add: cursor_ok_def)
      with Inr commit' legal ms cur show ?thesis
        by (simp add: accepted_move_def)
    qed
  qed
qed

lemma createNewGame_history:
  "createNewGame L cn cc tc gid cpid stamp = (g0, p, col) \<Longrightarrow>
   moves g0 = [] \<and> moveCursor g0 = 0 \<and> g_id g0 = gid"
  unfolding createNewGame_def Let_def by auto

lemma deserializeGame_history:
  "\<exists>g'. deserializeGame L s stamp = Some g' \<and> cursor_ok g' \<and> moves g' = s_moves s \<and>
        moveCursor g' = (case s_moveCursor s of
                           Some n \<Rightarrow> max 0 (min (int (length (s_moves s))) n)
                         | None \<Rightarrow> int (length (s_moves s)))"
proof -
  let ?cur = "case s_moveCursor s of
                Some n \<Rightarrow> max 0 (min (int (length (s_moves s))) n)
              | None \<Rightarrow> int (length (s_moves s))"
  have bounds: "0 \<le> ?cur" "?cur \<le> int (length (s_moves s))"
    by (simp_all split: option.splits)
  from replay_from_take [of 0 ?cur "s_moves s" L "chess_load L (s_initialFen s)"] bounds
  obtain c where "replay_from L (s_moves s) ?cur 0 (chess_load L (s_initialFen s)) = Some c"
    by simp
  then show ?thesis
    using bounds unfolding deserializeGame_def Let_def
    by (simp add: cursor_ok_def)
qed

lemma load_records_cursors:
  "cursors_ok acc \<Longrightarrow> cursors_ok (load_records L stamp acc disk)"
proof (induction disk arbitrary: acc)
  case Nil
  then show ?case by simp
next
  case (Cons s disk)
  from deserializeGame_history [of L s stamp] obtain g' where
    "deserializeGame L s stamp = Some g'" "cursor_ok g'"
    by blast
  with Cons.prems have "cursors_ok (if s_id s = [] then acc
        else (case deserializeGame L s stamp of
                Some g \<Rightarrow> map_set acc (g_id g) g
              | None \<Rightarrow> acc))"
    by (simp add: cursors_ok_map_set)
  then show ?case
    by (simp add: Cons.IH)
qed

lemma tickClocks_cursors: "cursors_ok S \<Longrightarrow> cursors_ok (fst (tickClocks S atMs stamp))"
proof (induction S)
  case Nil
  then show ?case by (simp add: tickClocks_def cursors_ok_def)
next
  case (Cons kg S)
  obtain k g where kg: "kg = (k, g)" by (cases kg)
  from Cons.prems have "cursor_ok g" "cursors_ok S"
    by (simp_all add: cursors_ok_def kg)
  moreover from tick_on_history [of g atMs stamp] \<open>cursor_ok g\<close>
  have "cursor_ok (fst (tick_on g atMs stamp))"
    by (simp add: cursor_ok_def)
  ultimately show ?case
    using Cons.IH by (simp add: tickClocks_def cursors_ok_def kg)
qed

lemma makeMove_found:
  assumes "map_of S gameId = Some g"
    and "makeMove_on L g playerId src dst promotion atMs stamp = (g', r)"
  shows "makeMove L S gameId playerId src dst promotion atMs stamp = (map_set S gameId g', r)"
  using assms by (simp add: makeMove_def)

lemma undo_found:
  assumes "map_of S gameId = Some g" and "undo_on L g playerId stamp now = (g', r)"
  shows "undo L S gameId playerId stamp now = (map_set S gameId g', r)"
  using assms by (simp add: undo_def)

lemma redo_found:
  assumes "map_of S gameId = Some g" and "redo_on L g playerId stamp now = (g', r)"
  shows "redo L S gameId playerId stamp now = (map_set S gameId g', r)"
  using assms by (simp add: redo_def)

lemma saved_history:
  "map (\<lambda>s. (s_moves s, s_moveCursor s)) (saveToDisk S) =
   map (\<lambda>kg. (moves (snd kg), Some (moveCursor (snd kg)))) S"
  by (induction S) (auto simp: saveToDisk_def serialized_fields)

lemma deserializeGame_id:
  "deserializeGame L s stamp = Some g' \<Longrightarrow> g_id g' = s_id s"
  unfolding deserializeGame_def Let_def
  by (auto split: option.splits)

lemma reloaded_history:
  assumes "cursor_ok g"
  shows "\<exists>g'. deserializeGame L (serializeGame g) stamp = Some g' \<and> g_id g' = g_id g \<and>
     moves g' = moves g \<and> moveCursor g' = moveCursor g"
proof -
  from deserializeGame_history [of L "serializeGame g" stamp] assms
  obtain g' where g': "deserializeGame L (serializeGame g) stamp = Some g'"
    "moves g' = moves g" "moveCursor g' = moveCursor g"
    by (auto simp: serialized_fields cursor_ok_def)
  from deserializeGame_id [OF g'(1)] have "g_id g' = g_id g"
    by (simp add: serialized_fields)
  with g' show ?thesis by blast
qed

lemma load_records_history:
  assumes "filed S" and "cursors_ok S" and "fst ` set acc \<inter> fst ` set S = {}"
  shows "map (\<lambda>kg. (fst kg, moves (snd kg), moveCursor (snd kg)))
       (load_records L stamp acc (saveToDisk S)) =
     map (\<lambda>kg. (fst kg, moves (snd kg), moveCursor (snd kg))) (acc @ S)"
  using assms
proof (induction S arbitrary: acc)
  case Nil
  then show ?case by (simp add: saveToDisk_def)
next
  case (Cons kg S)
  obtain k g where kg: "kg = (k, g)" by (cases kg)
  from Cons.prems(1) have key: "k = g_id g" "k \<noteq> []" and rest: "filed S"
    and new: "k \<notin> fst ` set S"
    by (auto simp: filed_def kg)
  from Cons.prems(2) have ok: "cursor_ok g" and oks: "cursors_ok S"
    by (simp_all add: cursors_ok_def kg)
  from reloaded_history [OF ok, of L stamp] obtain g' where
    g': "deserializeGame L (serializeGame g) stamp = Some g'" "g_id g' = g_id g"
      "moves g' = moves g" "moveCursor g' = moveCursor g"
    by blast
  from Cons.prems(3) have fresh: "k \<notin> fst ` set acc"
    by (auto simp: kg)
  have disj: "fst ` set (acc @ [(k, g')]) \<inter> fst ` set S = {}"
    using Cons.prems(3) new by (auto simp: kg)
  have "load_records L stamp acc (saveToDisk (kg # S)) =
      load_records L stamp (acc @ [(k, g')]) (saveToDisk S)"
    using key(2) fresh
    by (simp add: saveToDisk_def kg serialized_fields key(1) [symmetric] g'(1)
        g'(2) [unfolded key(1) [symmetric]] map_set_fresh)
  then have "map (\<lambda>kg. (fst kg, moves (snd kg), moveCursor (snd kg)))
       (load_records L stamp acc (saveToDisk (kg # S))) =
     map (\<lambda>kg. (fst kg, moves (snd kg), moveCursor (snd kg))) ((acc @ [(k, g')]) @ S)"
    using Cons.IH [OF rest oks disj] by simp
  then show ?case
    by (simp add: kg g'(3,4))
qed

text \<open>
  Claim C8. Let every game of the store have its cursor within its move list, and let
  \<open>g\<close> be the game filed under \<open>gameId\<close>. Then after each of \<open>makeMove\<close>, \<open>undo\<close>, \<open>redo\<close>,
  \<open>joinGame\<close>, \<open>leaveGame\<close>, \<open>tickClocks\<close> and \<open>createGame\<close> every game of the store still
  has its cursor within its move list, and so has every game \<open>loadFromDisk\<close> builds, from
  any file. The move list of \<open>g\<close> is the same after every operation but an accepted move:
  \<open>undo\<close> and \<open>redo\<close> move the cursor by one when they succeed and leave it when they
  refuse; join, leave and the sweep leave the cursor; saving writes move list and cursor
  as they are, loading any record keeps its whole move list, and loading the record of
  \<open>g\<close> gives move list and cursor back, as does loading the saved store when its games
  are filed under their own ids; creating a game does not touch \<open>g\<close>. An accepted
  move leaves the moves before the cursor followed by the record of the new move, and
  the cursor at the length of the list; a move that is not accepted leaves both. The
  games under other ids are not touched by an operation on \<open>gameId\<close>.
\<close>

theorem cursor_invariant_and_redo_tail:
  assumes "cursors_ok S" and "map_of S gameId = Some g"
  shows
   "(cursors_ok (fst (makeMove L S gameId playerId src dst promotion now stamp)) \<and>
     (\<exists>g'. map_of (fst (makeMove L S gameId playerId src dst promotion now stamp)) gameId = Some g' \<and>
        (case accepted_move L g playerId src dst promotion now of
           Some (c', mv) \<Rightarrow>
             moves g' = take (nat (moveCursor g)) (moves g) @ [move_record mv] \<and>
             moveCursor g' = int (length (moves g'))
         | None \<Rightarrow> moves g' = moves g \<and> moveCursor g' = moveCursor g))) \<and>
    (cursors_ok (fst (undo L S gameId playerId stamp now)) \<and>
     (\<exists>g'. map_of (fst (undo L S gameId playerId stamp now)) gameId = Some g' \<and>
        moves g' = moves g \<and>
        ((\<exists>ps. snd (undo L S gameId playerId stamp now) = Returned ps) \<and>
           moveCursor g' = moveCursor g - 1 \<or>
         (\<exists>f. snd (undo L S gameId playerId stamp now) = Rejected f) \<and>
           moveCursor g' = moveCursor g))) \<and>
    (cursors_ok (fst (redo L S gameId playerId stamp now)) \<and>
     (\<exists>g'. map_of (fst (redo L S gameId playerId stamp now)) gameId = Some g' \<and>
        moves g' = moves g \<and>
        ((\<exists>ps. snd (redo L S gameId playerId stamp now) = Returned ps) \<and>
           moveCursor g' = moveCursor g + 1 \<or>
         (\<exists>f. snd (redo L S gameId playerId stamp now) = Rejected f) \<and>
           moveCursor g' = moveCursor g))) \<and>
    (cursors_ok (fst (joinGame L S gameId name playerId requestedColor newId stamp now)) \<and>
     (\<exists>g'. map_of (fst (joinGame L S gameId name playerId requestedColor newId stamp now)) gameId =
             Some g' \<and>
        moves g' = moves g \<and> moveCursor g' = moveCursor g)) \<and>
    (cursors_ok (fst (leaveGame L S gameId playerId stamp now)) \<and>
     (\<exists>g'. map_of (fst (leaveGame L S gameId playerId stamp now)) gameId = Some g' \<and>
        moves g' = moves g \<and> moveCursor g' = moveCursor g)) \<and>
    (cursors_ok (fst (tickClocks S now stamp)) \<and>
     (\<exists>g'. map_of (fst (tickClocks S now stamp)) gameId = Some g' \<and>
        moves g' = moves g \<and> moveCursor g' = moveCursor g)) \<and>
    (cursors_ok (fst (createGame L S creatorName creatorColor tc newGameId creatorPlayerId stamp now)) \<and>
     (\<exists>n. map_of (fst (createGame L S creatorName creatorColor tc newGameId creatorPlayerId stamp now))
             newGameId = Some n \<and>
        moves n = [] \<and> moveCursor n = 0) \<and>
     (newGameId \<noteq> gameId \<longrightarrow>
        map_of (fst (createGame L S creatorName creatorColor tc newGameId creatorPlayerId stamp now))
          gameId = Some g)) \<and>
    (map (\<lambda>s. (s_moves s, s_moveCursor s)) (saveToDisk S) =
       map (\<lambda>kg. (moves (snd kg), Some (moveCursor (snd kg)))) S \<and>
     cursors_ok (fst (loadFromDisk L disk stamp)) \<and>
     (\<exists>g'. deserializeGame L snap stamp = Some g' \<and> cursor_ok g' \<and>
        moves g' = s_moves snap) \<and>
     (\<exists>g'. deserializeGame L (serializeGame g) stamp = Some g' \<and>
        moves g' = moves g \<and> moveCursor g' = moveCursor g) \<and>
     (filed S \<longrightarrow>
        map (\<lambda>kg. (fst kg, moves (snd kg), moveCursor (snd kg)))
          (fst (loadFromDisk L (saveToDisk S) stamp)) =
        map (\<lambda>kg. (fst kg, moves (snd kg), moveCursor (snd kg))) S)) \<and>
    (\<forall>k. k \<noteq> gameId \<longrightarrow>
       map_of (fst (makeMove L S gameId playerId src dst promotion now stamp)) k = map_of S k \<and>
       map_of (fst (undo L S gameId playerId stamp now)) k = map_of S k \<and>
       map_of (fst (redo L S gameId playerId stamp now)) k = map_of S k \<and>
       map_of (fst (joinGame L S gameId name playerId requestedColor newId stamp now)) k =
         map_of S k \<and>
       map_of (fst (leaveGame L S gameId playerId stamp now)) k = map_of S k)"
  (is "?move \<and> ?undo \<and> ?redo \<and> ?join \<and> ?leave \<and> ?tick \<and> ?create \<and> ?disk \<and> ?frame")
proof -
  from assms have ok: "cursor_ok g"
    by (rule cursors_ok_found)
  obtain gm rm where m: "makeMove_on L g playerId src dst promotion now stamp = (gm, rm)"
    by (cases "makeMove_on L g playerId src dst promotion now stamp")
  note ms = makeMove_found [OF assms(2) m]
  obtain gu ru where u: "undo_on L g playerId stamp now = (gu, ru)"
    by (cases "undo_on L g playerId stamp now")
  note us = undo_found [OF assms(2) u]
  obtain gr rr where r: "redo_on L g playerId stamp now = (gr, rr)"
    by (cases "redo_on L g playerId stamp now")
  note rs = redo_found [OF assms(2) r]
  obtain gj rj where j: "joinGame_on L g gameId name playerId requestedColor newId stamp now = (gj, rj)"
    by (cases "joinGame_on L g gameId name playerId requestedColor newId stamp now")
  note js = joinGame_found [OF assms(2) j]
  obtain gl rl where l: "leaveGame_on L g playerId stamp now = (gl, rl)"
    by (cases "leaveGame_on L g playerId stamp now")
  note ls = leaveGame_found [OF assms(2) l]
  have "?move"
    using makeMove_on_history [OF ok m] assms(1)
    by (simp add: ms map_of_map_set cursors_ok_map_set)
  moreover have "?undo"
    using undo_on_history [OF ok u] assms(1)
    by (simp add: us map_of_map_set cursors_ok_map_set)
  moreover have "?redo"
    using redo_on_history [OF ok r] assms(1)
    by (simp add: rs map_of_map_set cursors_ok_map_set)
  moreover have "?join"
    using joinGame_on_history [OF j] assms(1) ok
    by (simp add: js map_of_map_set cursors_ok_map_set cursor_ok_def)
  moreover have "?leave"
    using leaveGame_on_history [OF l] assms(1) ok
    by (simp add: ls map_of_map_set cursors_ok_map_set cursor_ok_def)
  moreover have "?tick"
    using tick_on_history [of g now stamp] assms
    by (simp add: tickClocks_cursors tickClocks_at)
  moreover have "?create"
  proof -
    obtain g0 p col where c: "createNewGame L creatorName creatorColor tc newGameId creatorPlayerId stamp =
        (g0, p, col)"
      by (cases "createNewGame L creatorName creatorColor tc newGameId creatorPlayerId stamp")
    let ?n = "maybeStartGame L g0 now"
    from createNewGame_history [OF c] have n: "moves ?n = []" "moveCursor ?n = 0" "g_id ?n = newGameId"
      by (simp_all add: maybeStartGame_keeps)
    then have "cursor_ok ?n"
      by (simp add: cursor_ok_def)
    moreover have "fst (createGame L S creatorName creatorColor tc newGameId creatorPlayerId stamp now) =
        map_set S newGameId ?n"
      by (simp add: createGame_def c Let_def n(3))
    ultimately show ?thesis
      using assms n by (simp add: map_of_map_set cursors_ok_map_set)
  qed
  moreover have "?disk"
  proof -
    have "cursors_ok (fst (loadFromDisk L disk stamp))"
      using load_records_cursors [of "[]" L stamp disk]
      by (simp add: loadFromDisk_def Let_def cursors_ok_def)
    moreover from deserializeGame_history [of L "serializeGame g" stamp] ok
    have "\<exists>g'. deserializeGame L (serializeGame g) stamp = Some g' \<and>
        moves g' = moves g \<and> moveCursor g' = moveCursor g"
      by (auto simp: serialized_fields cursor_ok_def)
    moreover from deserializeGame_history [of L snap stamp]
    have "\<exists>g'. deserializeGame L snap stamp = Some g' \<and> cursor_ok g' \<and>
        moves g' = s_moves snap"
      by blast
    moreover have "map (\<lambda>kg. (fst kg, moves (snd kg), moveCursor (snd kg)))
          (fst (loadFromDisk L (saveToDisk S) stamp)) =
        map (\<lambda>kg. (fst kg, moves (snd kg), moveCursor (snd kg))) S"
      if "filed S"
      using load_records_history [OF that assms(1), of "[]" L stamp]
      by (simp add: loadFromDisk_def Let_def)
    ultimately show ?thesis
      by (simp add: saved_history)
  qed
  moreover have "?frame"
    by (simp add: ms us rs js ls map_of_map_set)
  ultimately show ?thesis
    by - ((rule conjI, assumption)+, assumption)
qed


lemma demo_tail_facts:
  "cursor_ok demo_tail"
  "moves demo_tail = [ply, \<lparr>m_from = ''a'', m_to = ''c'', m_promotion = None\<rparr>]"
  "moveCursor demo_tail = 1" "chess demo_tail = 1"
  "state (status demo_tail) = Active"
  "seat_of demo_tail (Str ''pb'') = Some B"
  "running (clocks demo_tail)" "activeColor (clocks demo_tail) = Some B"
  "lastTickAt (clocks demo_tail) = Some 1000"
  "wRemainingMs (clocks demo_tail) = 300000" "bRemainingMs (clocks demo_tail) = 300000"
  by (simp_all add: demo_tail_def demo_def cursor_ok_def seat_of_def)

lemma demo_tail_answer:
  "accepted_move toyChess demo_tail (Str ''pb'') ''a'' ''d'' None 6000 =
     Some (2, \<lparr>m_from = ''a'', m_to = ''d'', m_promotion = None\<rparr>)"
proof -
  have turn: "chess_turn toyChess (Suc 0) = B"
    by (simp add: toyChess_def)
  have may: "assertPlayerCanMove toyChess demo_tail (Str ''pb'') = Inr B"
    by (simp add: assertPlayerCanMove_def demo_tail_facts turn)
  have reading: "0 < cv_wRemainingMs (effectiveClocksSnapshot demo_tail 6000)"
    "0 < cv_bRemainingMs (effectiveClocksSnapshot demo_tail 6000)"
    by (simp_all add: snapshot_running [of demo_tail B 1000] demo_tail_facts)
  note commit = commit_no_timeout [OF reading]
  have legal: "chess_move toyChess (Suc 0)
      \<lparr>m_from = ''a'', m_to = ''d'', m_promotion = safePromotion None\<rparr> =
      Some (2, \<lparr>m_from = ''a'', m_to = ''d'', m_promotion = None\<rparr>)"
    by (simp add: toyChess_def safePromotion_def)
  show ?thesis
    unfolding accepted_move_def may commit
    by (simp add: demo_tail_facts legal)
qed

text \<open>
  Black answers on the sample game with a redo tail: the tail is dropped and the new move
  recorded in its place, the cursor at 2. White takes back the one move of the paused
  sample game: the move list stays and the cursor is 0.
\<close>

theorem cursor_invariant_and_redo_tail_witness:
  "cursors_ok [(''g1'', demo_tail)] \<and>
   moves demo_tail = [ply, \<lparr>m_from = ''a'', m_to = ''c'', m_promotion = None\<rparr>] \<and>
   moveCursor demo_tail = 1 \<and>
   cursors_ok (fst (makeMove toyChess [(''g1'', demo_tail)] ''g1'' (Str ''pb'') ''a'' ''d'' None
                      6000 ''t2'')) \<and>
   (\<exists>g'. map_of (fst (makeMove toyChess [(''g1'', demo_tail)] ''g1'' (Str ''pb'') ''a'' ''d'' None
                         6000 ''t2'')) ''g1'' = Some g' \<and>
      moves g' = [ply, \<lparr>m_from = ''a'', m_to = ''d'', m_promotion = None\<rparr>] \<and>
      moveCursor g' = 2) \<and>
   cursors_ok [(''g1'', demo_paused)] \<and>
   moves demo_paused = [ply] \<and> moveCursor demo_paused = 1 \<and>
   (\<exists>g'. map_of (fst (undo toyChess [(''g1'', demo_paused)] ''g1'' (Str ''pw'') ''t3'' 9000)) ''g1'' =
           Some g' \<and>
      moves g' = [ply] \<and> moveCursor g' = 0) \<and>
   filed [(''g1'', demo_tail)] \<and>
   map (\<lambda>kg. (fst kg, moves (snd kg), moveCursor (snd kg)))
     (fst (loadFromDisk toyChess (saveToDisk [(''g1'', demo_tail)]) ''t9'')) =
     [(''g1'', [ply, \<lparr>m_from = ''a'', m_to = ''c'', m_promotion = None\<rparr>], 1)]"
proof -
  have ok1: "cursors_ok [(''g1'', demo_tail)]"
    by (simp add: cursors_ok_def demo_tail_facts)
  have found1: "map_of [(''g1'', demo_tail)] ''g1'' = Some demo_tail"
    by simp
  note t1 = cursor_invariant_and_redo_tail [OF ok1 found1, where L = toyChess
      and playerId = "Str ''pb''" and src = "''a''" and dst = "''d''" and promotion = None
      and now = 6000 and stamp = "''t2''", THEN conjunct1]
  have rec: "move_record \<lparr>m_from = ''a'', m_to = ''d'', m_promotion = None\<rparr> =
      \<lparr>m_from = ''a'', m_to = ''d'', m_promotion = None\<rparr>"
    by (simp add: move_record_def or_null_def)
  from t1 have moved: "cursors_ok (fst (makeMove toyChess [(''g1'', demo_tail)] ''g1'' (Str ''pb'')
        ''a'' ''d'' None 6000 ''t2''))"
    "\<exists>g'. map_of (fst (makeMove toyChess [(''g1'', demo_tail)] ''g1'' (Str ''pb'') ''a'' ''d'' None
                         6000 ''t2'')) ''g1'' = Some g' \<and>
      moves g' = [ply, \<lparr>m_from = ''a'', m_to = ''d'', m_promotion = None\<rparr>] \<and>
      moveCursor g' = 2"
    unfolding demo_tail_answer by (auto simp: demo_tail_facts rec)
  have ok2: "cursors_ok [(''g1'', demo_paused)]"
    by (simp add: cursors_ok_def demo_paused_ok)
  have found2: "map_of [(''g1'', demo_paused)] ''g1'' = Some demo_paused"
    by simp
  have vals: "moves demo_paused = [ply]" "moveCursor demo_paused = 1"
    by (simp_all add: demo_paused_def)
  have guards: "\<not> running (clocks demo_paused)" "isPlayer demo_paused (Str ''pw'')"
    by (simp_all add: demo_paused_def demo_def isPlayer_def)
  have ret: "\<exists>ps. snd (undo toyChess [(''g1'', demo_paused)] ''g1'' (Str ''pw'') ''t3'' 9000) =
      Returned ps"
    using guards vals(2)
    by (simp add: undo_def undo_on_cases [OF demo_paused_ok(1)] split: prod.splits)
  note t2 = cursor_invariant_and_redo_tail [OF ok2 found2, where L = toyChess
      and playerId = "Str ''pw''" and now = 9000 and stamp = "''t3''",
      THEN conjunct2, THEN conjunct1]
  from t2 ret have undone: "\<exists>g'. map_of (fst (undo toyChess [(''g1'', demo_paused)] ''g1'' (Str ''pw'')
        ''t3'' 9000)) ''g1'' = Some g' \<and> moves g' = [ply] \<and> moveCursor g' = 0"
    unfolding vals by auto
  have filed1: "filed [(''g1'', demo_tail)]"
    by (simp add: filed_def demo_tail_def demo_def)
  note t3 = cursor_invariant_and_redo_tail [OF ok1 found1, where L = toyChess
      and stamp = "''t9''", THEN conjunct2, THEN conjunct2, THEN conjunct2, THEN conjunct2,
      THEN conjunct2, THEN conjunct2, THEN conjunct2, THEN conjunct1]
  from t3 filed1 have loaded: "map (\<lambda>kg. (fst kg, moves (snd kg), moveCursor (snd kg)))
     (fst (loadFromDisk toyChess (saveToDisk [(''g1'', demo_tail)]) ''t9'')) =
     [(''g1'', [ply, \<lparr>m_from = ''a'', m_to = ''c'', m_promotion = None\<rparr>], 1)]"
    by (simp add: demo_tail_facts)
  from ok1 ok2 moved undone filed1 loaded show ?thesis
    by (simp add: demo_tail_facts vals)
qed

end
